(* ===== verification/Prelude.thy ===== *)
theory Prelude
  imports Main "HOL-Library.AList" "HOL-Library.Multiset" "HOL-Library.Sublist"
    "HOL-Library.Code_Target_Nat" "HOL-Library.Char_ord" "HOL-Library.List_Lexorder"
begin

text \<open>
  Shared vocabulary of the development: the error values of the Go code, Go maps as
  association lists (when they are iterated) and as functions (when they are only looked
  up), duplicate removal with a "seen" set, sorting, and the collections of facts the
  component theories draw on.
\<close>

section \<open>Collections\<close>

named_theorems emits_intros \<open>introduction rules for what a computation may do\<close>
named_theorems spec_simps \<open>characteristic equations of the operations\<close>

section \<open>Go errors\<close>

text \<open>
  An error value is a leaf message, an operating system error number with its message, or
  a message wrapped around another error by \<open>fmt.Errorf("...: %w", err)\<close>. A
  function of the source that returns \<open>error\<close> returns \<open>goerr option\<close> here; one that
  returns a value and an error returns \<open>goerr + 'a\<close>.
\<close>

datatype goerr = ErrMsg string | Errno nat string | ErrWrap string goerr

type_synonym 'a result = "goerr + 'a"

fun errText :: "goerr \<Rightarrow> string" where
  "errText (ErrMsg m) = m"
| "errText (Errno n m) = m"
| "errText (ErrWrap t e) = t @ '': '' @ errText e"

text \<open>\<open>errors.Is(err, errno)\<close>: the wrapped chain is searched.\<close>

fun errIs :: "nat \<Rightarrow> goerr \<Rightarrow> bool" where
  "errIs n (ErrMsg m) = False"
| "errIs n (Errno k m) = (k = n)"
| "errIs n (ErrWrap t e) = errIs n e"

section \<open>Go maps and sets\<close>

text \<open>
  A Go map that the source iterates over is an association list with distinct keys,
  written with \<open>AList.update\<close>. The order in which Go visits it is not specified: where
  it matters, the model takes a visiting order as an argument.
\<close>

type_synonym ('k, 'v) gomap = "('k \<times> 'v) list"

definition map_keys :: "('k, 'v) gomap \<Rightarrow> 'k list" where
  "map_keys m = map fst m"

text \<open>\<open>visit_order\<close>: any rearrangement may be the one a \<open>range\<close> loop takes.\<close>

definition visit_order :: "('a list \<Rightarrow> 'a list) \<Rightarrow> bool" where
  "visit_order ord \<longleftrightarrow> (\<forall>xs. mset (ord xs) = mset xs)"

lemma visit_order_set: "visit_order ord \<Longrightarrow> set (ord xs) = set xs"
  unfolding visit_order_def by (metis set_mset_mset)

lemma visit_order_distinct: "visit_order ord \<Longrightarrow> distinct (ord xs) = distinct xs"
  unfolding visit_order_def by (metis mset_eq_imp_distinct_iff)

lemma visit_order_id [simp]: "visit_order (\<lambda>xs. xs)"
  by (simp add: visit_order_def)

lemma visit_order_rev [simp]: "visit_order rev"
  by (simp add: visit_order_def)

section \<open>Writing a list of keys into a map\<close>

definition upd_all :: "('k \<times> 'v) list \<Rightarrow> ('k, 'v) gomap \<Rightarrow> ('k, 'v) gomap" where
  "upd_all kvs m = fold (\<lambda>(k, v) m. AList.update k v m) kvs m"

lemma upd_all_simps [simp]:
  "upd_all [] m = m"
  "upd_all ((k, v) # kvs) m = upd_all kvs (AList.update k v m)"
  by (simp_all add: upd_all_def)

lemma upd_all_keys: "fst ` set (upd_all kvs m) = fst ` set kvs \<union> fst ` set m"
proof (induction kvs arbitrary: m)
  case (Cons kv kvs)
  then show ?case by (cases kv) (simp add: AList.dom_update)
qed simp

lemma upd_all_distinct: "distinct (map fst m) \<Longrightarrow> distinct (map fst (upd_all kvs m))"
  by (induction kvs arbitrary: m) (auto simp: AList.distinct_update)

lemma map_of_upd_all: "map_of (upd_all kvs m) = map_of m ++ map_of (rev kvs)"
proof (induction kvs arbitrary: m)
  case Nil
  then show ?case by simp
next
  case (Cons kv kvs)
  obtain k v where kv: "kv = (k, v)" by fastforce
  show ?case
    by (rule ext) (simp add: kv Cons.IH AList.update_conv' map_add_def split: option.splits)
qed

lemma map_of_upd_all_SomeD:
  "map_of (upd_all kvs m) k = Some v \<Longrightarrow> (k, v) \<in> set kvs \<or> map_of m k = Some v"
  by (auto simp: map_of_upd_all map_add_Some_iff dest: map_of_SomeD)

section \<open>Deduplication with a "seen" set\<close>

text \<open>
  The loop \<open>for _, x := range xs { if !seen[key(x)] { seen[key(x)] = true; result =
  append(result, x) } }\<close>: the first element of each key is kept, in order.
\<close>

fun dedup_by :: "('a \<Rightarrow> 'k) \<Rightarrow> 'k list \<Rightarrow> 'a list \<Rightarrow> 'a list" where
  "dedup_by key seen [] = []"
| "dedup_by key seen (x # xs) =
     (if key x \<in> set seen then dedup_by key seen xs
      else x # dedup_by key (key x # seen) xs)"

lemma dedup_by_subset: "set (dedup_by key seen xs) \<subseteq> set xs"
  by (induction xs arbitrary: seen) auto

lemma dedup_by_keys: "key ` set (dedup_by key seen xs) = key ` set xs - set seen"
  by (induction xs arbitrary: seen) auto

lemma dedup_by_distinct: "distinct (map key (dedup_by key seen xs))"
proof (induction xs arbitrary: seen)
  case (Cons x xs)
  have "key ` set (dedup_by key (key x # seen) xs) = key ` set xs - set (key x # seen)"
    by (rule dedup_by_keys)
  with Cons show ?case by auto
qed simp

lemma dedup_id_set: "set (dedup_by (\<lambda>x. x) [] xs) = set xs"
  using dedup_by_keys [of "\<lambda>x. x" "[]" xs] by simp

lemma dedup_id_distinct: "distinct (dedup_by (\<lambda>x. x) seen xs)"
  using dedup_by_distinct [of "\<lambda>x. x" seen xs] by simp

section \<open>Membership flags\<close>

text \<open>
  A map \<open>map[string]bool\<close> that is only filled with \<open>true\<close> is a set; as a list of
  keys it stays executable.
\<close>

definition has :: "'a list \<Rightarrow> 'a \<Rightarrow> bool" where
  "has xs x \<longleftrightarrow> x \<in> set xs"

lemma has_iff [simp]: "has xs x \<longleftrightarrow> x \<in> set xs"
  by (simp add: has_def)

lemma sum_cases_Inr [simp]: "(case r of Inl e \<Rightarrow> Inl e | Inr x \<Rightarrow> Inr x) = r"
  by (cases r) simp_all

lemma list_all_appendI [intro]: "list_all P xs \<Longrightarrow> list_all P ys \<Longrightarrow> list_all P (xs @ ys)"
  by simp

end
