(* ===== verification/GoNet.thy ===== *)
theory GoNet
  imports GoStrings "HOL-Library.Word"
begin

text \<open>
  The parts of Go's \<open>net\<close> package the agent uses. A non-nil \<open>net.IP\<close> stands for a
  16-byte value; IPv4 addresses are the IPv4-mapped ones (\<open>::ffff:a.b.c.d\<close>), which
  \<open>To4\<close> recognises. The model keeps the two kinds apart: \<open>of_ip16\<close> reads a 16-byte
  value and \<open>ip16\<close> gives it back. A \<open>net.IPNet\<close> keeps its address and its mask as
  (ones, bits), which is what \<open>net.CIDRMask\<close> makes.
\<close>

type_synonym ip4 = "32 word"

datatype ip = IPv4 ip4 | IPv6 "128 word"

definition ip16 :: "ip \<Rightarrow> 128 word" where
  "ip16 x = (case x of IPv4 a \<Rightarrow> word_of_nat (65535 * 2 ^ 32 + unat a) | IPv6 w \<Rightarrow> w)"

definition of_ip16 :: "128 word \<Rightarrow> ip" where
  "of_ip16 w = (if unat w div 2 ^ 32 = 65535 then IPv4 (word_of_nat (unat w)) else IPv6 w)"

definition To4 :: "ip \<Rightarrow> ip4 option" where
  "To4 x = (case x of IPv4 a \<Rightarrow> Some a | IPv6 w \<Rightarrow> None)"

record ipnet =
  net_ip :: ip
  net_ones :: nat
  net_bits :: nat

section \<open>Parsing addresses\<close>

definition parse_octet :: "string \<Rightarrow> nat option" where
  "parse_octet s =
     (case read_nat s of
        None \<Rightarrow> None
      | Some n \<Rightarrow> if n \<le> 255 \<and> (length s = 1 \<or> hd s \<noteq> CHR ''0'') then Some n else None)"

definition octets_word :: "nat \<Rightarrow> nat \<Rightarrow> nat \<Rightarrow> nat \<Rightarrow> ip4" where
  "octets_word a b c d = word_of_nat (a * 2 ^ 24 + b * 2 ^ 16 + c * 2 ^ 8 + d)"

definition parseIPv4 :: "string \<Rightarrow> ip4 option" where
  "parseIPv4 s =
     (case Split CHR ''.'' s of
        [a, b, c, d] \<Rightarrow>
          (case (parse_octet a, parse_octet b, parse_octet c, parse_octet d) of
             (Some a, Some b, Some c, Some d) \<Rightarrow> Some (octets_word a b c d)
           | _ \<Rightarrow> None)
      | _ \<Rightarrow> None)"

definition hex_val :: "char \<Rightarrow> nat option" where
  "hex_val c = (let n = of_char c :: nat in
     if 48 \<le> n \<and> n \<le> 57 then Some (n - 48)
     else if 97 \<le> n \<and> n \<le> 102 then Some (n - 87)
     else if 65 \<le> n \<and> n \<le> 70 then Some (n - 55) else None)"

definition is_hex :: "char \<Rightarrow> bool" where
  "is_hex c \<longleftrightarrow> hex_val c \<noteq> None"

definition hex_num :: "string \<Rightarrow> nat" where
  "hex_num s = foldl (\<lambda>a c. 16 * a + (case hex_val c of Some v \<Rightarrow> v | None \<Rightarrow> 0)) 0 s"

text \<open>
  The group loop of \<open>netip.parseIPv6\<close>: \<open>fuel\<close> is the number of 16-bit groups still
  to fill (the loop's \<open>i < 16\<close>), \<open>gs\<close> the groups read so far, \<open>ell\<close> the position of
  the ellipsis. The result is the groups, the ellipsis and the unread rest.
\<close>

fun v6_loop :: "nat \<Rightarrow> string \<Rightarrow> nat list \<Rightarrow> nat option \<Rightarrow> (nat list \<times> nat option \<times> string) option" where
  "v6_loop 0 s gs ell = Some (gs, ell, s)"
| "v6_loop (Suc fuel) s gs ell =
     (let h = takeWhile is_hex s; r = dropWhile is_hex s in
      if h = [] \<or> length h > 4 then None
      else case r of
        [] \<Rightarrow> Some (gs @ [hex_num h], ell, [])
      | c # r1 \<Rightarrow>
          if c = CHR ''.'' then
            (if (ell = None \<and> length gs \<noteq> 6) \<or> length gs > 6 then None
             else case parseIPv4 s of
                    None \<Rightarrow> None
                  | Some a \<Rightarrow> Some (gs @ [unat a div 2 ^ 16, unat a mod 2 ^ 16], ell, []))
          else if c \<noteq> CHR '':'' then None
          else case r1 of
            [] \<Rightarrow> None
          | c2 # r2 \<Rightarrow>
              if c2 = CHR '':'' then
                (if ell \<noteq> None then None
                 else if r2 = [] then Some (gs @ [hex_num h], Some (Suc (length gs)), [])
                 else v6_loop fuel r2 (gs @ [hex_num h]) (Some (Suc (length gs))))
              else v6_loop fuel r1 (gs @ [hex_num h]) ell)"

definition groups_word :: "nat list \<Rightarrow> 128 word" where
  "groups_word gs = word_of_nat (foldl (\<lambda>a g. 2 ^ 16 * a + g) 0 gs)"

definition v6_finish :: "nat list \<times> nat option \<times> string \<Rightarrow> 128 word option" where
  "v6_finish r = (case r of (gs, ell, s) \<Rightarrow>
     if s \<noteq> [] then None
     else if length gs < 8 then
       (case ell of None \<Rightarrow> None
        | Some k \<Rightarrow> Some (groups_word (take k gs @ replicate (8 - length gs) 0 @ drop k gs)))
     else if ell \<noteq> None then None else Some (groups_word gs))"

definition parseIPv6 :: "string \<Rightarrow> 128 word option" where
  "parseIPv6 s =
     (if CHR ''%'' \<in> set s then None
      else if HasPrefix s ''::'' then
        (if length s = 2 then Some 0
         else Option.bind (v6_loop 8 (drop 2 s) [] (Some 0)) v6_finish)
      else Option.bind (v6_loop 8 s [] None) v6_finish)"

text \<open>
  \<open>netip.ParseAddr\<close> decides on the first of \<open>.\<close>, \<open>:\<close> and \<open>%\<close>; the number of bits
  of the address is that of its textual form.
\<close>

definition parseAddr :: "string \<Rightarrow> (nat \<times> ip) option" where
  "parseAddr s =
     (case find (\<lambda>c. c \<in> {CHR ''.'', CHR '':'', CHR ''%''}) s of
        None \<Rightarrow> None
      | Some c \<Rightarrow>
          if c = CHR ''.'' then map_option (\<lambda>a. (32, IPv4 a)) (parseIPv4 s)
          else if c = CHR '':'' then map_option (\<lambda>w. (128, of_ip16 w)) (parseIPv6 s)
          else None)"

definition ParseIP :: "string \<Rightarrow> ip option" where
  "ParseIP s = map_option snd (parseAddr s)"

definition mask_word :: "nat \<Rightarrow> nat \<Rightarrow> nat \<Rightarrow> nat" where
  "mask_word bits ones n = n div 2 ^ (bits - ones) * 2 ^ (bits - ones)"

definition mask_ip :: "nat \<Rightarrow> nat \<Rightarrow> ip \<Rightarrow> ip" where
  "mask_ip bits ones x =
     (case x of
        IPv4 a \<Rightarrow> if bits = 32 then IPv4 (word_of_nat (mask_word 32 ones (unat a)))
                  else of_ip16 (word_of_nat (mask_word 128 ones (unat (ip16 x))))
      | IPv6 w \<Rightarrow> of_ip16 (word_of_nat (mask_word 128 ones (unat w))))"

definition ParseCIDR :: "string \<Rightarrow> (ip \<times> ipnet) option" where
  "ParseCIDR s =
     (case Cut CHR ''/'' s of
        None \<Rightarrow> None
      | Some (addr, m) \<Rightarrow>
          (case (parseAddr addr, read_nat m) of
             (Some (bits, a), Some n) \<Rightarrow>
               if n \<le> bits
               then Some (a, \<lparr>net_ip = mask_ip bits n a, net_ones = n, net_bits = bits\<rparr>)
               else None
           | _ \<Rightarrow> None))"

text \<open>\<open>net.CIDRMask(32, 32)\<close> with an address: the host network of kernel routes.\<close>

definition host32 :: "ip \<Rightarrow> ipnet" where
  "host32 a = \<lparr>net_ip = a, net_ones = 32, net_bits = 32\<rparr>"

section \<open>Printing\<close>

definition dotted :: "ip4 \<Rightarrow> string" where
  "dotted a = (let n = unat a in
     Join [show_nat (n div 2 ^ 24), show_nat (n div 2 ^ 16 mod 256),
           show_nat (n div 2 ^ 8 mod 256), show_nat (n mod 256)] ''.'')"

definition v6_groups :: "128 word \<Rightarrow> nat list" where
  "v6_groups a = map (\<lambda>i. unat a div 2 ^ (16 * (7 - i)) mod 2 ^ 16) [0..<8]"

definition zero_run :: "nat list \<Rightarrow> nat \<Rightarrow> nat" where
  "zero_run gs i = length (takeWhile (\<lambda>g. g = 0) (drop i gs))"

definition longest_zero_run :: "nat list \<Rightarrow> nat \<times> nat" where
  "longest_zero_run gs =
     foldl (\<lambda>(s, l) i. if 2 \<le> zero_run gs i \<and> l < zero_run gs i then (i, zero_run gs i) else (s, l))
       (length gs, 0) [0..<length gs]"

definition v6_string :: "128 word \<Rightarrow> string" where
  "v6_string a =
     (let gs = v6_groups a; (s, l) = longest_zero_run gs;
          hex = (\<lambda>xs. Join (map (show_base 16) xs) '':'')
      in if l = 0 then hex gs else hex (take s gs) @ ''::'' @ hex (drop (s + l) gs))"

definition ipString :: "ip \<Rightarrow> string" where
  "ipString x = (case x of IPv4 a \<Rightarrow> dotted a | IPv6 w \<Rightarrow> v6_string w)"

text \<open>\<open>networkNumberAndMask\<close>: the network in its short form, or nothing when the mask
  does not fit the address.\<close>

definition netNumberMask :: "ipnet \<Rightarrow> (nat \<times> nat \<times> nat) option" where
  "netNumberMask n =
     (case net_ip n of
        IPv4 a \<Rightarrow> Some (32, unat a, if net_bits n = 32 then net_ones n else net_ones n - 96)
      | IPv6 w \<Rightarrow> if net_bits n = 128 then Some (128, unat w, net_ones n) else None)"

definition netString :: "ipnet \<Rightarrow> string" where
  "netString n =
     (case netNumberMask n of
        None \<Rightarrow> ''<nil>''
      | Some (bits, a, ones) \<Rightarrow> ipString (net_ip n) @ ''/'' @ show_nat ones)"

definition netContains :: "ipnet \<Rightarrow> ip \<Rightarrow> bool" where
  "netContains n x =
     (case netNumberMask n of
        None \<Rightarrow> False
      | Some (bits, a, ones) \<Rightarrow>
          (case x of
             IPv4 b \<Rightarrow> bits = 32 \<and> a div 2 ^ (32 - ones) = unat b div 2 ^ (32 - ones)
           | IPv6 w \<Rightarrow> bits = 128 \<and> a div 2 ^ (128 - ones) = unat w div 2 ^ (128 - ones)))"

section \<open>Evaluation rules\<close>

lemma show_base_small: "2 \<le> b \<Longrightarrow> n < b \<Longrightarrow> show_base b n = [digit_char n]"
  by (subst show_base.simps) simp

lemma show_base_big:
  "2 \<le> b \<Longrightarrow> b \<le> n \<Longrightarrow> show_base b n = show_base b (n div b) @ [digit_char (n mod b)]"
  by (subst show_base.simps) simp

lemmas string_eval = TrimSpace_def is_space_def Fields_def HasPrefix_def HasSuffix_def
  TrimPrefix_def TrimSuffix_def Cut_def lower_char_def EqualFold_def digit_char_def
  show_base_small show_base_big show_int_def show_hex_def is_digit_def digit_val_def
  read_nat_def Atoi_def Let_def

lemmas net_eval = string_eval parse_octet_def octets_word_def parseIPv4_def hex_val_def
  is_hex_def hex_num_def groups_word_def v6_finish_def parseIPv6_def parseAddr_def
  ParseIP_def mask_word_def mask_ip_def ParseCIDR_def host32_def dotted_def v6_groups_def
  zero_run_def longest_zero_run_def v6_string_def ipString_def netNumberMask_def
  netString_def netContains_def ip16_def of_ip16_def To4_def

section \<open>Printing and parsing IPv4 addresses\<close>

lemma digit_char_digit: "d < 10 \<Longrightarrow> is_digit (digit_char d) \<and> digit_val (digit_char d) = d"
  by (simp add: is_digit_def digit_val_def digit_char_def Let_def)

lemma show_nat_read: "read_nat (show_nat n) = Some n"
proof -
  have "show_nat n \<noteq> [] \<and> list_all is_digit (show_nat n) \<and>
        foldl (\<lambda>a c. 10 * a + digit_val c) 0 (show_nat n) = n"
  proof (induction n rule: less_induct)
    case (less n)
    show ?case
    proof (cases "n < 10")
      case True
      then show ?thesis by (simp add: show_base_small digit_char_digit)
    next
      case False
      with less [of "n div 10"] show ?thesis
        by (simp add: show_base_big digit_char_digit mult.commute)
    qed
  qed
  then show ?thesis by (simp add: read_nat_def)
qed

lemma show_nat_digits: "c \<in> set (show_nat n) \<Longrightarrow> is_digit c"
  using show_nat_read [of n] by (auto simp: read_nat_def list_all_iff split: if_splits)

lemma show_nat_inj: "show_nat m = show_nat n \<Longrightarrow> m = n"
  by (metis option.inject show_nat_read)

lemma show_nat_no_leading_zero: "0 < n \<Longrightarrow> hd (show_nat n) \<noteq> CHR ''0'' \<and> show_nat n \<noteq> []"
proof (induction n rule: less_induct)
  case (less n)
  show ?case
  proof (cases "n < 10")
    case True
    then have "digit_val (digit_char n) = n" by (simp add: digit_char_digit)
    with less.prems have "digit_char n \<noteq> CHR ''0''" by (auto simp: digit_val_def)
    with True show ?thesis by (simp add: show_base_small)
  next
    case False
    then have "0 < n div 10" by simp
    with less.IH [of "n div 10"] False show ?thesis by (simp add: show_base_big)
  qed
qed

lemma parse_octet_show: "n \<le> 255 \<Longrightarrow> parse_octet (show_nat n) = Some n"
  using show_nat_no_leading_zero [of n] show_nat_read [of n]
  by (cases "n = 0") (auto simp: parse_octet_def show_base_small)

lemma show_nat_no_char: "\<not> is_digit c \<Longrightarrow> c \<notin> set (show_nat n)"
  using show_nat_digits by blast

lemma non_digits: "\<not> is_digit CHR ''.''" "\<not> is_digit CHR ''/''" "\<not> is_digit CHR '':''"
  "\<not> is_digit CHR ''%''" "\<not> is_digit CHR '' ''"
  by (simp_all add: is_digit_def)

lemma octets_of_word:
  assumes "n < 2 ^ 32"
  shows "n div 2 ^ 24 * 2 ^ 24 + n div 2 ^ 16 mod 256 * 2 ^ 16 + n div 2 ^ 8 mod 256 * 2 ^ 8 + n mod 256
    = (n :: nat)"
proof -
  have "n div 65536 div 256 = n div 16777216" "n div 256 div 256 = n div 65536"
    by (simp_all add: div_mult2_eq [symmetric])
  moreover have "n div 65536 = n div 65536 div 256 * 256 + n div 65536 mod 256"
    and "n div 256 = n div 256 div 256 * 256 + n div 256 mod 256"
    and "n = n div 256 * 256 + n mod 256"
    by (rule div_mult_mod_eq [symmetric])+
  ultimately have "n div 16777216 * 16777216 + n div 65536 mod 256 * 65536 + n div 256 mod 256 * 256
      + n mod 256 = n"
    by linarith
  then show ?thesis by simp
qed

lemma parseIPv4_dotted: "parseIPv4 (dotted a) = Some a"
proof -
  define n where "n = unat a"
  have n: "n < 2 ^ 32" unfolding n_def using unsigned_less [of a] by simp
  then have "n div 2 ^ 24 \<le> 255" by simp
  moreover have "Split CHR ''.'' (dotted a) = [show_nat (n div 2 ^ 24), show_nat (n div 2 ^ 16 mod 256),
      show_nat (n div 2 ^ 8 mod 256), show_nat (n mod 256)]"
    unfolding dotted_def Let_def n_def [symmetric]
    by (rule Split_Join) (auto dest: show_nat_digits simp: non_digits)
  ultimately have "parseIPv4 (dotted a) =
      Some (octets_word (n div 2 ^ 24) (n div 2 ^ 16 mod 256) (n div 2 ^ 8 mod 256) (n mod 256))"
    by (simp add: parseIPv4_def parse_octet_show)
  also have "octets_word (n div 2 ^ 24) (n div 2 ^ 16 mod 256) (n div 2 ^ 8 mod 256) (n mod 256) = a"
    unfolding octets_word_def octets_of_word [OF n] by (simp add: n_def)
  finally show ?thesis .
qed

lemma dotted_chars: "c \<in> set (dotted a) \<Longrightarrow> is_digit c \<or> c = CHR ''.''"
  by (auto simp: dotted_def Let_def dest: show_nat_digits)

lemma dotted_find: "find (\<lambda>c. c \<in> {CHR ''.'', CHR '':'', CHR ''%''}) (dotted a) = Some CHR ''.''"
proof -
  have "\<exists>c\<in>set (dotted a). c = CHR ''.''" by (auto simp: dotted_def Let_def)
  then obtain c where c: "find (\<lambda>c. c \<in> {CHR ''.'', CHR '':'', CHR ''%''}) (dotted a) = Some c"
    by (cases "find (\<lambda>c. c \<in> {CHR ''.'', CHR '':'', CHR ''%''}) (dotted a)")
      (auto simp: find_None_iff)
  then have "c \<in> set (dotted a)" "c \<in> {CHR ''.'', CHR '':'', CHR ''%''}"
    by (auto simp: find_Some_iff dest: nth_mem)
  then have "c = CHR ''.''" using dotted_chars non_digits by blast
  with c show ?thesis by simp
qed

lemma parseAddr_dotted [simp]: "parseAddr (dotted a) = Some (32, IPv4 a)"
  unfolding parseAddr_def dotted_find by (simp add: parseIPv4_dotted)

lemma ParseIP_dotted [simp]: "ParseIP (dotted a) = Some (IPv4 a)"
  by (simp add: ParseIP_def)

lemma dotted_inj: "dotted a = dotted b \<Longrightarrow> a = b"
  by (metis option.inject parseIPv4_dotted)

lemma ParseCIDR_dotted:
  assumes "n \<le> 32"
  shows "ParseCIDR (dotted a @ ''/'' @ show_nat n) =
    Some (IPv4 a, \<lparr>net_ip = mask_ip 32 n (IPv4 a), net_ones = n, net_bits = 32\<rparr>)"
proof -
  have no: "CHR ''/'' \<notin> set (dotted a)" using dotted_chars non_digits by blast
  have "takeWhile (\<lambda>c. c \<noteq> CHR ''/'') (dotted a @ CHR ''/'' # t) = dotted a \<and>
        dropWhile (\<lambda>c. c \<noteq> CHR ''/'') (dotted a @ CHR ''/'' # t) = CHR ''/'' # t" for t
    using no by (induction "dotted a") (auto simp: takeWhile_append dropWhile_append)
  then have "Cut CHR ''/'' (dotted a @ ''/'' @ show_nat n) = Some (dotted a, show_nat n)"
    by (simp add: Cut_def)
  then show ?thesis using assms by (simp add: ParseCIDR_def show_nat_read)
qed

end
