(* ===== verification/Ovsdb.thy ===== *)
theory Ovsdb
  imports Complex_Main GoNet
begin

text \<open>
  The OVSDB data of the agent: the row models of \<open>ovn.go\<close>, raw rows as a direct select
  returns them, the row decoders and the content keys of \<open>ovn_cache.go\<close>. The locale
  \<open>row_codec\<close> is the contract between a decoder, its content key and the columns the
  consistency check selects; each table's own functions interpret it.
\<close>

section \<open>Row models (ovn.go)\<close>

text \<open>A Go \<open>map[string]string\<close>, \<open>None\<close> when nil; a missing key reads as \<open>""\<close>.\<close>

type_synonym smap = "(string \<times> string) list option"

definition mget :: "smap \<Rightarrow> string \<Rightarrow> string" where
  "mget m k = (case m of None \<Rightarrow> [] | Some al \<Rightarrow> (case map_of al k of None \<Rightarrow> [] | Some v \<Rightarrow> v))"

record SBPortBinding =
  pb_UUID :: string
  pb_Datapath :: string
  pb_TunnelKey :: int
  pb_LogicalPort :: string
  pb_Type :: string
  pb_Chassis :: "string option"
  pb_AdditionalChassis :: "string list"
  pb_Encap :: "string option"
  pb_AdditionalEncap :: "string list"
  pb_Options :: smap
  pb_ParentPort :: "string option"
  pb_Tag :: "int option"
  pb_Mac :: "string list"
  pb_NatAddresses :: "string list"
  pb_Up :: "bool option"
  pb_ExternalIDs :: smap
  pb_GatewayChassis :: "string list"
  pb_HaChassisGroup :: "string option"
  pb_VirtualParent :: "string option"
  pb_RequestedChassis :: "string option"
  pb_RequestedAdditionalChassis :: "string list"
  pb_MirrorRules :: "string list"

record SBChassis =
  ch_UUID :: string
  ch_Name :: string
  ch_Hostname :: string
  ch_ExternalIDs :: smap

record NBNAT =
  nat_UUID :: string
  nat_Type :: string
  nat_ExternalIP :: string
  nat_ExternalMAC :: "string option"
  nat_ExternalPortRange :: string
  nat_LogicalIP :: string
  nat_LogicalPort :: "string option"
  nat_GatewayPort :: "string option"
  nat_Match :: string
  nat_Priority :: int
  nat_Options :: smap
  nat_AllowedExtIPs :: "string option"
  nat_ExemptedExtIPs :: "string option"
  nat_ExternalIDs :: smap

record NBLogicalRouter =
  lr_UUID :: string
  lr_Name :: string
  lr_Ports :: "string list"
  lr_Nat :: "string list"
  lr_StaticRoutes :: "string list"
  lr_ExternalIDs :: smap

record NBLogicalRouterPort =
  lrp_UUID :: string
  lrp_Name :: string
  lrp_MAC :: string
  lrp_Networks :: "string list"

record NBLogicalRouterStaticRoute =
  sr_UUID :: string
  sr_IPPrefix :: string
  sr_Nexthop :: string
  sr_OutputPort :: "string option"
  sr_Policy :: "string option"
  sr_Options :: smap
  sr_ExternalIDs :: smap

record NBStaticMACBinding =
  mb_UUID :: string
  mb_LogicalPort :: string
  mb_IP :: string
  mb_MAC :: string

record NBGatewayChassis =
  gc_UUID :: string
  gc_ChassisName :: string
  gc_Name :: string
  gc_Priority :: int
  gc_ExternalIDs :: smap
  gc_Options :: smap

text \<open>The zero values the decoders start from.\<close>

definition zeroPortBinding :: SBPortBinding where
  "zeroPortBinding = \<lparr>pb_UUID = [], pb_Datapath = [], pb_TunnelKey = 0, pb_LogicalPort = [],
     pb_Type = [], pb_Chassis = None, pb_AdditionalChassis = [], pb_Encap = None,
     pb_AdditionalEncap = [], pb_Options = None, pb_ParentPort = None, pb_Tag = None,
     pb_Mac = [], pb_NatAddresses = [], pb_Up = None, pb_ExternalIDs = None,
     pb_GatewayChassis = [], pb_HaChassisGroup = None, pb_VirtualParent = None,
     pb_RequestedChassis = None, pb_RequestedAdditionalChassis = [], pb_MirrorRules = []\<rparr>"

definition zeroNAT :: NBNAT where
  "zeroNAT = \<lparr>nat_UUID = [], nat_Type = [], nat_ExternalIP = [], nat_ExternalMAC = None,
     nat_ExternalPortRange = [], nat_LogicalIP = [], nat_LogicalPort = None,
     nat_GatewayPort = None, nat_Match = [], nat_Priority = 0, nat_Options = None,
     nat_AllowedExtIPs = None, nat_ExemptedExtIPs = None, nat_ExternalIDs = None\<rparr>"

definition zeroGatewayChassis :: NBGatewayChassis where
  "zeroGatewayChassis = \<lparr>gc_UUID = [], gc_ChassisName = [], gc_Name = [], gc_Priority = 0,
     gc_ExternalIDs = None, gc_Options = None\<rparr>"

section \<open>Raw rows and their decoders (ovn\_cache.go)\<close>

text \<open>
  The values libovsdb puts into a raw row: strings, UUID references, integers (as JSON
  numbers, \<open>float64\<close>, or as Go integers), sets and maps.
\<close>

datatype ovsval = VStr string | VUUID string | VInt int | VReal rat | VBool bool
  | VSet "ovsval list" | VMap "(ovsval \<times> ovsval) list"

type_synonym row = "(string \<times> ovsval) list"

definition rowUUID :: "row \<Rightarrow> string" where
  "rowUUID row = (case map_of row ''_uuid'' of Some (VUUID u) \<Rightarrow> u | _ \<Rightarrow> [])"

definition rowString :: "row \<Rightarrow> string \<Rightarrow> string" where
  "rowString row col = (case map_of row col of Some (VStr s) \<Rightarrow> s | _ \<Rightarrow> [])"

fun set_member_string :: "ovsval \<Rightarrow> string option" where
  "set_member_string (VStr s) = Some s"
| "set_member_string (VUUID u) = Some u"
| "set_member_string _ = None"

definition ovsSetToStrings :: "ovsval option \<Rightarrow> string list" where
  "ovsSetToStrings v =
     (case v of
        Some (VStr s) \<Rightarrow> [s]
      | Some (VUUID u) \<Rightarrow> [u]
      | Some (VSet es) \<Rightarrow> List.map_filter set_member_string es
      | _ \<Rightarrow> [])"

definition rowOptString :: "row \<Rightarrow> string \<Rightarrow> string option" where
  "rowOptString row col =
     (case map_of row col of
        Some (VStr s) \<Rightarrow> Some s
      | Some (VUUID u) \<Rightarrow> Some u
      | Some (VSet es) \<Rightarrow> (case ovsSetToStrings (Some (VSet es)) of [] \<Rightarrow> None | v # vs \<Rightarrow> Some v)
      | _ \<Rightarrow> None)"

definition rowStringSet :: "row \<Rightarrow> string \<Rightarrow> string list" where
  "rowStringSet row col = ovsSetToStrings (map_of row col)"

definition rowStringMap :: "row \<Rightarrow> string \<Rightarrow> smap" where
  "rowStringMap row col =
     (case map_of row col of
        Some (VMap kvs) \<Rightarrow>
          Some (List.map_filter
            (\<lambda>kv. case kv of (VStr k, VStr v) \<Rightarrow> Some (k, v) | _ \<Rightarrow> None) kvs)
      | _ \<Rightarrow> None)"

definition decodeSBPortBinding :: "row \<Rightarrow> SBPortBinding" where
  "decodeSBPortBinding row = zeroPortBinding
     \<lparr>pb_UUID := rowUUID row,
      pb_Type := rowString row ''type'',
      pb_LogicalPort := rowString row ''logical_port'',
      pb_Chassis := rowOptString row ''chassis'',
      pb_Options := rowStringMap row ''options'',
      pb_ExternalIDs := rowStringMap row ''external_ids'',
      pb_NatAddresses := rowStringSet row ''nat_addresses''\<rparr>"

definition decodeSBChassis :: "row \<Rightarrow> SBChassis" where
  "decodeSBChassis row = \<lparr>ch_UUID = rowUUID row, ch_Name = rowString row ''name'',
     ch_Hostname = rowString row ''hostname'', ch_ExternalIDs = None\<rparr>"

definition decodeNBNAT :: "row \<Rightarrow> NBNAT" where
  "decodeNBNAT row = zeroNAT
     \<lparr>nat_UUID := rowUUID row,
      nat_Type := rowString row ''type'',
      nat_ExternalIP := rowString row ''external_ip''\<rparr>"

definition decodeNBLogicalRouter :: "row \<Rightarrow> NBLogicalRouter" where
  "decodeNBLogicalRouter row = \<lparr>lr_UUID = rowUUID row, lr_Name = rowString row ''name'',
     lr_Ports = rowStringSet row ''ports'', lr_Nat = rowStringSet row ''nat'',
     lr_StaticRoutes = rowStringSet row ''static_routes'', lr_ExternalIDs = None\<rparr>"

definition decodeNBLogicalRouterPort :: "row \<Rightarrow> NBLogicalRouterPort" where
  "decodeNBLogicalRouterPort row = \<lparr>lrp_UUID = rowUUID row, lrp_Name = rowString row ''name'',
     lrp_MAC = rowString row ''mac'', lrp_Networks = rowStringSet row ''networks''\<rparr>"

definition decodeNBLogicalRouterStaticRoute :: "row \<Rightarrow> NBLogicalRouterStaticRoute" where
  "decodeNBLogicalRouterStaticRoute row = \<lparr>sr_UUID = rowUUID row,
     sr_IPPrefix = rowString row ''ip_prefix'', sr_Nexthop = rowString row ''nexthop'',
     sr_OutputPort = rowOptString row ''output_port'', sr_Policy = None, sr_Options = None,
     sr_ExternalIDs = rowStringMap row ''external_ids''\<rparr>"

definition decodeNBStaticMACBinding :: "row \<Rightarrow> NBStaticMACBinding" where
  "decodeNBStaticMACBinding row = \<lparr>mb_UUID = rowUUID row,
     mb_LogicalPort = rowString row ''logical_port'', mb_IP = rowString row ''ip'',
     mb_MAC = rowString row ''mac''\<rparr>"

text \<open>\<open>int(p)\<close> on a \<open>float64\<close> truncates towards zero.\<close>

definition trunc_rat :: "rat \<Rightarrow> int" where
  "trunc_rat p = (if 0 \<le> p then \<lfloor>p\<rfloor> else \<lceil>p\<rceil>)"

definition rowToGatewayChassis :: "row \<Rightarrow> NBGatewayChassis" where
  "rowToGatewayChassis row = zeroGatewayChassis
     \<lparr>gc_UUID := rowUUID row,
      gc_Name := rowString row ''name'',
      gc_ChassisName := rowString row ''chassis_name'',
      gc_Priority := (case map_of row ''priority'' of
                        Some (VReal p) \<Rightarrow> trunc_rat p | Some (VInt i) \<Rightarrow> i | _ \<Rightarrow> 0)\<rparr>"

section \<open>Content keys (ovn\_cache.go)\<close>

definition unit_sep :: char where
  "unit_sep = CHR 0x1F"

definition contentKey :: "string list \<Rightarrow> string" where
  "contentKey parts = Join parts [unit_sep]"

definition sortedJoin :: "string list \<Rightarrow> string" where
  "sortedJoin values = Join (sort values) '',''"

text \<open>\<open>fmt.Sprintf("%v", m)\<close> prints a map with its keys sorted.\<close>

definition show_smap :: "smap \<Rightarrow> string" where
  "show_smap m = ''map['' @
     Join (map (\<lambda>(k, v). k @ '':'' @ v) (sort_key fst (case m of None \<Rightarrow> [] | Some al \<Rightarrow> al))) '' '' @ '']''"

definition opt_string :: "string option \<Rightarrow> string" where
  "opt_string s = (case s of None \<Rightarrow> [] | Some v \<Rightarrow> v)"

definition keyOfSBPortBinding :: "SBPortBinding \<Rightarrow> string" where
  "keyOfSBPortBinding p = contentKey [pb_UUID p, pb_Type p, opt_string (pb_Chassis p),
     sortedJoin (pb_NatAddresses p)]"

definition keyOfSBChassis :: "SBChassis \<Rightarrow> string" where
  "keyOfSBChassis c = contentKey [ch_UUID c, ch_Hostname c]"

definition keyOfNBLogicalRouter :: "NBLogicalRouter \<Rightarrow> string" where
  "keyOfNBLogicalRouter r = contentKey [lr_UUID r, sortedJoin (lr_Ports r),
     sortedJoin (lr_Nat r), sortedJoin (lr_StaticRoutes r)]"

definition keyOfNBLogicalRouterPort :: "NBLogicalRouterPort \<Rightarrow> string" where
  "keyOfNBLogicalRouterPort p = contentKey [lrp_UUID p, lrp_MAC p, sortedJoin (lrp_Networks p)]"

definition keyOfNBNAT :: "NBNAT \<Rightarrow> string" where
  "keyOfNBNAT n = contentKey [nat_UUID n, nat_Type n, nat_ExternalIP n]"

definition keyOfNBLogicalRouterStaticRoute :: "NBLogicalRouterStaticRoute \<Rightarrow> string" where
  "keyOfNBLogicalRouterStaticRoute r = contentKey [sr_UUID r, sr_IPPrefix r, sr_Nexthop r,
     opt_string (sr_OutputPort r), show_smap (sr_ExternalIDs r)]"

definition keyOfNBStaticMACBinding :: "NBStaticMACBinding \<Rightarrow> string" where
  "keyOfNBStaticMACBinding b = contentKey [mb_UUID b, mb_LogicalPort b, mb_IP b, mb_MAC b]"

definition pbCheckColumns :: "string list" where
  "pbCheckColumns = [''_uuid'', ''type'', ''chassis'', ''nat_addresses'']"

definition chCheckColumns :: "string list" where
  "chCheckColumns = [''_uuid'', ''hostname'']"

definition lrCheckColumns :: "string list" where
  "lrCheckColumns = [''_uuid'', ''ports'', ''nat'', ''static_routes'']"

definition lrpCheckColumns :: "string list" where
  "lrpCheckColumns = [''_uuid'', ''mac'', ''networks'']"

definition natCheckColumns :: "string list" where
  "natCheckColumns = [''_uuid'', ''type'', ''external_ip'']"

definition lrsrCheckColumns :: "string list" where
  "lrsrCheckColumns = [''_uuid'', ''ip_prefix'', ''nexthop'', ''output_port'', ''external_ids'']"

definition smbCheckColumns :: "string list" where
  "smbCheckColumns = [''_uuid'', ''logical_port'', ''ip'', ''mac'']"

section \<open>The codec interface\<close>

text \<open>\<open>project cols row\<close>: what a select of the columns \<open>cols\<close> returns of a row.\<close>

definition project :: "string list \<Rightarrow> row \<Rightarrow> row" where
  "project cols row = filter (\<lambda>(c, v). c \<in> set cols) row"

lemma map_of_project:
  "map_of (project cols row) c = (if c \<in> set cols then map_of row c else None)"
  by (induction row) (auto simp: project_def)

locale row_codec =
  fixes keyOf :: "'a \<Rightarrow> string" and decode :: "row \<Rightarrow> 'a" and columns :: "string list"
  assumes key_reads_columns:
    "(\<And>c. c \<in> set columns \<Longrightarrow> map_of r c = map_of r' c) \<Longrightarrow> keyOf (decode r) = keyOf (decode r')"
begin

lemma key_project: "keyOf (decode (project columns r)) = keyOf (decode r)"
  by (rule key_reads_columns) (simp add: map_of_project)

lemma keys_of_projection:
  "(\<lambda>r. keyOf (decode r)) ` set (map (project columns) rows) = (\<lambda>r. keyOf (decode r)) ` set rows"
  by (auto simp: image_image key_project)

end

lemmas row_readers = rowUUID_def rowString_def rowOptString_def rowStringSet_def rowStringMap_def

interpretation pbCodec: row_codec keyOfSBPortBinding decodeSBPortBinding pbCheckColumns
  by unfold_locales
    (simp add: keyOfSBPortBinding_def decodeSBPortBinding_def pbCheckColumns_def row_readers)

interpretation chCodec: row_codec keyOfSBChassis decodeSBChassis chCheckColumns
  by unfold_locales
    (simp add: keyOfSBChassis_def decodeSBChassis_def chCheckColumns_def row_readers)

interpretation lrCodec: row_codec keyOfNBLogicalRouter decodeNBLogicalRouter lrCheckColumns
  by unfold_locales
    (simp add: keyOfNBLogicalRouter_def decodeNBLogicalRouter_def lrCheckColumns_def row_readers)

interpretation lrpCodec: row_codec keyOfNBLogicalRouterPort decodeNBLogicalRouterPort lrpCheckColumns
  by unfold_locales
    (simp add: keyOfNBLogicalRouterPort_def decodeNBLogicalRouterPort_def lrpCheckColumns_def row_readers)

interpretation natCodec: row_codec keyOfNBNAT decodeNBNAT natCheckColumns
  by unfold_locales (simp add: keyOfNBNAT_def decodeNBNAT_def natCheckColumns_def row_readers)

interpretation lrsrCodec: row_codec keyOfNBLogicalRouterStaticRoute
    decodeNBLogicalRouterStaticRoute lrsrCheckColumns
  by unfold_locales
    (simp add: keyOfNBLogicalRouterStaticRoute_def decodeNBLogicalRouterStaticRoute_def
      lrsrCheckColumns_def row_readers)

interpretation smbCodec: row_codec keyOfNBStaticMACBinding decodeNBStaticMACBinding smbCheckColumns
  by unfold_locales
    (simp add: keyOfNBStaticMACBinding_def decodeNBStaticMACBinding_def smbCheckColumns_def row_readers)

section \<open>Keys and sets\<close>

lemma contentKey_inj:
  assumes "contentKey xs = contentKey ys" "xs \<noteq> []" "ys \<noteq> []"
    and "\<forall>x\<in>set xs. unit_sep \<notin> set x" "\<forall>y\<in>set ys. unit_sep \<notin> set y"
  shows "xs = ys"
  using assms unfolding contentKey_def by (blast dest: Join_inj)

lemma sortedJoin_mset: "mset xs = mset ys \<Longrightarrow> sortedJoin xs = sortedJoin ys"
  unfolding sortedJoin_def by (metis properties_for_sort sorted_sort mset_sort)

lemma sortedJoin_inj:
  assumes "sortedJoin xs = sortedJoin ys"
    and "\<forall>x\<in>set xs. CHR '','' \<notin> set x \<and> x \<noteq> []" "\<forall>y\<in>set ys. CHR '','' \<notin> set y \<and> y \<noteq> []"
  shows "mset xs = mset ys"
proof (cases "xs = [] \<or> ys = []")
  case True
  have ne: "Join zs '','' \<noteq> []" if "zs \<noteq> []" "\<forall>z\<in>set zs. z \<noteq> []" for zs :: "string list"
    using that by (cases zs; cases "tl zs") auto
  from True assms ne [of "sort xs"] ne [of "sort ys"] show ?thesis
    by (auto simp: sortedJoin_def) (metis set_empty set_sort)+
next
  case False
  then have "sort xs \<noteq> []" "sort ys \<noteq> []" by (metis set_empty set_sort)+
  with assms have "sort xs = sort ys"
    unfolding sortedJoin_def by (intro Join_inj) auto
  then show ?thesis by (metis mset_sort)
qed

text \<open>OVSDB's encoding of a set: one element is sent bare, other sets as a set value.\<close>

definition encode_set :: "string list \<Rightarrow> ovsval" where
  "encode_set xs = (case xs of [x] \<Rightarrow> VStr x | _ \<Rightarrow> VSet (map VStr xs))"

lemma map_filter_VStr: "List.map_filter set_member_string (map VStr xs) = xs"
  by (induction xs) (auto simp: map_filter_simps)

lemma ovsSet_roundtrip: "ovsSetToStrings (Some (encode_set xs)) = xs"
  unfolding encode_set_def ovsSetToStrings_def
  by (cases xs rule: remdups_adj.cases) (auto simp: map_filter_VStr map_filter_simps)

end
