(* ===== verification/Effects.thy ===== *)
theory Effects
  imports Ovsdb "HOL-Library.State_Monad"
begin

text \<open>
  How the agent reaches the outside world. Every external call (a vtysh, ovs-vsctl,
  ovs-ofctl or nft process, a netlink request, a sysctl write, an OVSDB list or
  transaction) goes through an environment: a record of functions over an arbitrary
  environment state \<open>'s\<close>. The environment is a parameter of every operation, since none
  of that code is part of the repository; it may answer anything, fail at any call and
  change its state at any call, so theorems without a hypothesis on it hold whatever the
  kernel, FRR, Open vSwitch and OVN do. A computation runs in the state monad over the
  log of the calls made so far and the environment state.
\<close>

section \<open>What is sent to the outside\<close>

text \<open>Netlink objects, with the fields the source sets or reads.\<close>

record lnk =
  l_name :: string
  l_index :: int
  l_up :: bool
  l_mac :: string
  l_vrf :: "int option" \<comment> \<open>the table, for a VRF device\<close>

record nlroute =
  rt_link :: int
  rt_dst :: "ipnet option"
  rt_gw :: "ip option"
  rt_table :: int
  rt_scope_link :: bool
  rt_proto :: int

record nlrule =
  ru_dst :: "ipnet option"
  ru_src :: "ipnet option"
  ru_mark :: nat
  ru_mask :: "nat option"
  ru_table :: int
  ru_prio :: int

type_synonym nladdr = "ip option \<times> nat"

datatype nlop =
    LinkSetUp lnk | LinkAddVeth string string | LinkDel lnk | LinkSetMaster lnk lnk
  | AddrAdd lnk nladdr | AddrDel lnk nladdr | AddrReplace lnk nladdr
  | RouteReplace nlroute | RouteDel nlroute
  | RuleAdd nlrule | RuleDel nlrule
  | NeighSet int "ip option" string

record rtfilter =
  fl_link :: "int option"
  fl_table :: "int option"
  fl_proto :: "int option"

text \<open>
  OVSDB operations: the raw select and mutate operations the source writes itself, and the
  operations libovsdb builds for \<open>Where(row).Update(row, fields)\<close>, \<open>Create(row)\<close> and
  \<open>Where(row).Delete()\<close>, represented by the request they are built from.
\<close>

datatype nbrow = RowRoute NBLogicalRouterStaticRoute | RowMAC NBStaticMACBinding
  | RowGwc NBGatewayChassis

datatype ovsop =
    OpSelect string "string list option" "(string \<times> string) option"
  | OpMutateInsert string string string string
  | OpMutateDelete string string string string
  | OpUpdate nbrow "string list"
  | OpCreate nbrow
  | OpDelete nbrow

fun is_select :: "ovsop \<Rightarrow> bool" where
  "is_select (OpSelect t cs w) = True"
| "is_select _ = False"

record opresult =
  res_rows :: "row list"
  res_error :: string

text \<open>The log: one event for every external call.\<close>

datatype ev =
    EvQuery "string list" \<comment> \<open>a read: link lookup, route, rule, address or cache list\<close>
  | EvNl nlop
  | EvVtysh "string list"
  | EvOVS "string list"
  | EvNft "string list" string
  | EvWrite string string
  | EvNb "ovsop list"
  | EvSb "ovsop list"

section \<open>The environment\<close>

record 's sysenv =
  e_vtysh :: "string list \<Rightarrow> 's \<Rightarrow> (string \<times> goerr option) \<times> 's"
  e_ovs :: "string list \<Rightarrow> 's \<Rightarrow> (string \<times> goerr option) \<times> 's"
  e_nft :: "string list \<Rightarrow> string \<Rightarrow> 's \<Rightarrow> (string \<times> goerr option) \<times> 's"
  e_lookpath :: "string \<Rightarrow> 's \<Rightarrow> goerr option \<times> 's"
  e_euid :: "'s \<Rightarrow> int \<times> 's"
  e_link :: "string \<Rightarrow> 's \<Rightarrow> lnk result \<times> 's"
  e_addrs :: "lnk \<Rightarrow> 's \<Rightarrow> ip list result \<times> 's"
  e_routes :: "rtfilter \<Rightarrow> 's \<Rightarrow> nlroute list result \<times> 's"
  e_rules :: "'s \<Rightarrow> nlrule list result \<times> 's"
  e_netlink :: "nlop \<Rightarrow> 's \<Rightarrow> goerr option \<times> 's"
  e_write :: "string \<Rightarrow> string \<Rightarrow> 's \<Rightarrow> goerr option \<times> 's"
  e_now :: "'s \<Rightarrow> int \<times> 's"

record 's ovnenv =
  e_list_pb :: "'s \<Rightarrow> SBPortBinding list result \<times> 's"
  e_list_ch :: "'s \<Rightarrow> SBChassis list result \<times> 's"
  e_list_nat :: "'s \<Rightarrow> NBNAT list result \<times> 's"
  e_list_lr :: "'s \<Rightarrow> NBLogicalRouter list result \<times> 's"
  e_list_lrp :: "'s \<Rightarrow> NBLogicalRouterPort list result \<times> 's"
  e_list_sr :: "'s \<Rightarrow> NBLogicalRouterStaticRoute list result \<times> 's"
  e_list_mb :: "'s \<Rightarrow> NBStaticMACBinding list result \<times> 's"
  e_list_gc :: "'s \<Rightarrow> NBGatewayChassis list result \<times> 's"
  e_nb_transact :: "ovsop list \<Rightarrow> 's \<Rightarrow> opresult list result \<times> 's"
  e_sb_transact :: "ovsop list \<Rightarrow> 's \<Rightarrow> opresult list result \<times> 's"
  e_check_results :: "opresult list \<Rightarrow> ovsop list \<Rightarrow> goerr option"
  e_build_err :: "ovsop \<Rightarrow> goerr option"
  e_wait :: "'s \<Rightarrow> unit \<times> 's" \<comment> \<open>time passes: a ticker or timer fires\<close>

section \<open>Computations\<close>

type_synonym 's world = "ev list \<times> 's"
type_synonym ('s, 'a) io = "('s world, 'a) state"

abbreviation ret :: "'a \<Rightarrow> ('w, 'a) state" where
  "ret \<equiv> State_Monad.return"

definition call :: "ev \<Rightarrow> ('s \<Rightarrow> 'a \<times> 's) \<Rightarrow> ('s, 'a) io" where
  "call e f = State (\<lambda>(l, s). case f s of (r, s') \<Rightarrow> (r, l @ [e], s'))"

lemma run_call [simp]:
  "run_state (call e f) (l, s) = (fst (f s), l @ [e], snd (f s))"
  by (simp add: call_def split: prod.splits)

text \<open>A loop over a list, and one that returns at the first error.\<close>

fun for_each :: "('a \<Rightarrow> ('w, unit) state) \<Rightarrow> 'a list \<Rightarrow> ('w, unit) state" where
  "for_each f [] = ret ()"
| "for_each f (x # xs) = do { _ \<leftarrow> f x; for_each f xs }"

fun for_err :: "('a \<Rightarrow> ('w, goerr option) state) \<Rightarrow> 'a list \<Rightarrow> ('w, goerr option) state" where
  "for_err f [] = ret None"
| "for_err f (x # xs) = do { e \<leftarrow> f x; case e of Some err \<Rightarrow> ret (Some err) | None \<Rightarrow> for_err f xs }"

text \<open>The result, the log and the environment state after a run from an empty log.\<close>

definition outcome :: "('s, 'a) io \<Rightarrow> 's \<Rightarrow> 'a" where
  "outcome m s = fst (run_state m ([], s))"

definition trace :: "('s, 'a) io \<Rightarrow> 's \<Rightarrow> ev list" where
  "trace m s = fst (snd (run_state m ([], s)))"

definition final :: "('s, 'a) io \<Rightarrow> 's \<Rightarrow> 's" where
  "final m s = snd (snd (run_state m ([], s)))"

section \<open>What a computation may emit\<close>

text \<open>
  \<open>emits P m\<close>: \<open>m\<close> only appends to the log, what it does not depend on the log it
  starts from, and every event it appends satisfies \<open>P\<close>.
\<close>

definition emits :: "(ev \<Rightarrow> bool) \<Rightarrow> ('s, 'a) io \<Rightarrow> bool" where
  "emits P m \<longleftrightarrow>
     (\<forall>l s. run_state m (l, s) = (outcome m s, l @ trace m s, final m s) \<and> list_all P (trace m s))"

abbreviation pure_log :: "('s, 'a) io \<Rightarrow> bool" where
  "pure_log \<equiv> emits (\<lambda>_. True)"

lemma emitsD: "emits P m \<Longrightarrow> run_state m (l, s) = (outcome m s, l @ trace m s, final m s)"
  by (simp add: emits_def)

lemma emits_trace: "emits P m \<Longrightarrow> list_all P (trace m s)"
  by (simp add: emits_def)

lemma emits_traceD: "emits P m \<Longrightarrow> e \<in> set (trace m s) \<Longrightarrow> P e"
  by (auto simp: emits_def list_all_iff)

lemma emits_mono: "emits P m \<Longrightarrow> (\<And>e. P e \<Longrightarrow> Q e) \<Longrightarrow> emits Q m"
  by (auto simp: emits_def list_all_iff)

lemma emits_pure: "emits P m \<Longrightarrow> pure_log m"
  by (erule emits_mono) simp

lemma run_ret [simp]: "outcome (ret x) s = x" "trace (ret x) s = []" "final (ret x) s = s"
  by (simp_all add: outcome_def trace_def final_def)

lemma run_call_parts [simp]:
  "outcome (call e f) s = fst (f s)" "trace (call e f) s = [e]" "final (call e f) s = snd (f s)"
  by (simp_all add: outcome_def trace_def final_def)

lemma emits_ret [emits_intros]: "emits P (ret x)"
  by (simp add: emits_def)

lemma emits_call [emits_intros]: "P e \<Longrightarrow> emits P (call e f)"
  by (simp add: emits_def)

lemma run_bind:
  assumes "pure_log m" "pure_log (f (outcome m s))"
  shows "outcome (State_Monad.bind m f) s = outcome (f (outcome m s)) (final m s)"
    and "trace (State_Monad.bind m f) s = trace m s @ trace (f (outcome m s)) (final m s)"
    and "final (State_Monad.bind m f) s = final (f (outcome m s)) (final m s)"
  using emitsD [OF assms(1), where l = "[]" and s = s]
    emitsD [OF assms(2), where l = "trace m s" and s = "final m s"]
  by (simp_all add: outcome_def [of "State_Monad.bind m f"] trace_def [of "State_Monad.bind m f"]
      final_def [of "State_Monad.bind m f"])

lemma emits_bind_post:
  assumes m: "emits P m" and Q: "\<And>s. Q (outcome m s)" and f: "\<And>x. Q x \<Longrightarrow> emits P (f x)"
  shows "emits P (State_Monad.bind m f)"
proof -
  have "run_state (State_Monad.bind m f) (l, s) =
      (outcome (State_Monad.bind m f) s, l @ trace (State_Monad.bind m f) s,
       final (State_Monad.bind m f) s)" for l s
    using run_bind [where m = m and f = f and s = s, OF emits_pure [OF m] emits_pure [OF f [OF Q]]]
      emitsD [OF m, where l = l and s = s]
      emitsD [OF f [OF Q [of s]], where l = "l @ trace m s" and s = "final m s"]
    by simp
  moreover have "list_all P (trace (State_Monad.bind m f) s)" for s
    using run_bind(2) [where m = m and f = f and s = s, OF emits_pure [OF m] emits_pure [OF f [OF Q]]]
      emits_trace [OF m] emits_trace [OF f [OF Q]] by simp
  ultimately show ?thesis by (simp add: emits_def)
qed

lemma emits_bind [emits_intros]:
  "emits P m \<Longrightarrow> (\<And>x. emits P (f x)) \<Longrightarrow> emits P (State_Monad.bind m f)"
  by (rule emits_bind_post [where Q = "\<lambda>_. True"]) simp_all

lemma emits_if [emits_intros]:
  "(b \<Longrightarrow> emits P m) \<Longrightarrow> (\<not> b \<Longrightarrow> emits P n) \<Longrightarrow> emits P (if b then m else n)"
  by simp

lemma emits_option [emits_intros]:
  "(x = None \<Longrightarrow> emits P m) \<Longrightarrow> (\<And>y. x = Some y \<Longrightarrow> emits P (f y)) \<Longrightarrow>
   emits P (case x of None \<Rightarrow> m | Some y \<Rightarrow> f y)"
  by (cases x) simp_all

lemma emits_sum [emits_intros]:
  "(\<And>y. x = Inl y \<Longrightarrow> emits P (f y)) \<Longrightarrow> (\<And>z. x = Inr z \<Longrightarrow> emits P (g z)) \<Longrightarrow>
   emits P (case x of Inl y \<Rightarrow> f y | Inr z \<Rightarrow> g z)"
  by (cases x) simp_all

lemma emits_prod [emits_intros]:
  "(\<And>y z. x = (y, z) \<Longrightarrow> emits P (f y z)) \<Longrightarrow> emits P (case x of (y, z) \<Rightarrow> f y z)"
  by (cases x) simp_all

lemma emits_list [emits_intros]:
  "(x = [] \<Longrightarrow> emits P m) \<Longrightarrow> (\<And>y ys. x = y # ys \<Longrightarrow> emits P (f y ys)) \<Longrightarrow>
   emits P (case x of [] \<Rightarrow> m | y # ys \<Rightarrow> f y ys)"
  by (cases x) simp_all

lemma emits_let [emits_intros]: "(\<And>y. y = x \<Longrightarrow> emits P (f y)) \<Longrightarrow> emits P (let y = x in f y)"
  by simp

lemma emits_for_each [emits_intros]:
  "(\<And>x. x \<in> set xs \<Longrightarrow> emits P (f x)) \<Longrightarrow> emits P (for_each f xs)"
  by (induction xs) (auto intro!: emits_intros)

lemma emits_for_err [emits_intros]:
  "(\<And>x. x \<in> set xs \<Longrightarrow> emits P (f x)) \<Longrightarrow> emits P (for_err f xs)"
  by (induction xs) (auto intro!: emits_intros)

section \<open>Early returns\<close>

text \<open>
  \<open>if err := m; err != nil { return fmt.Errorf("msg: %w", err) }\<close> is \<open>attempt msg m\<close> in
  front of the rest, and \<open>x, err := m; if err != nil { return ... }\<close> is \<open>fetch\<close>.
\<close>

definition attempt ::
  "string \<Rightarrow> ('w, goerr option) state \<Rightarrow> ('w, goerr option) state \<Rightarrow> ('w, goerr option) state" where
  "attempt msg m k = do { e \<leftarrow> m; case e of Some err \<Rightarrow> ret (Some (ErrWrap msg err)) | None \<Rightarrow> k }"

definition fetch ::
  "string \<Rightarrow> ('w, 'a result) state \<Rightarrow> ('a \<Rightarrow> ('w, goerr option) state) \<Rightarrow> ('w, goerr option) state" where
  "fetch msg m k = do { r \<leftarrow> m; case r of Inl err \<Rightarrow> ret (Some (ErrWrap msg err)) | Inr x \<Rightarrow> k x }"

lemma emits_attempt [emits_intros]: "emits P m \<Longrightarrow> emits P k \<Longrightarrow> emits P (attempt msg m k)"
  unfolding attempt_def by (intro emits_intros)

lemma emits_fetch [emits_intros]: "emits P m \<Longrightarrow> (\<And>x. emits P (k x)) \<Longrightarrow> emits P (fetch msg m k)"
  unfolding fetch_def by (intro emits_intros)

lemma run_attempt:
  assumes "pure_log m" "pure_log k"
  shows "outcome (attempt msg m k) s = (case outcome m s of
      Some err \<Rightarrow> Some (ErrWrap msg err) | None \<Rightarrow> outcome k (final m s))"
    and "trace (attempt msg m k) s = trace m s @ (case outcome m s of
      Some err \<Rightarrow> [] | None \<Rightarrow> trace k (final m s))"
    and "final (attempt msg m k) s = (case outcome m s of
      Some err \<Rightarrow> final m s | None \<Rightarrow> final k (final m s))"
proof -
  have p: "pure_log (case e of Some err \<Rightarrow> ret (Some (ErrWrap msg err)) | None \<Rightarrow> k)" for e
    by (intro emits_intros assms)
  show "outcome (attempt msg m k) s = (case outcome m s of
      Some err \<Rightarrow> Some (ErrWrap msg err) | None \<Rightarrow> outcome k (final m s))"
    and "trace (attempt msg m k) s = trace m s @ (case outcome m s of
      Some err \<Rightarrow> [] | None \<Rightarrow> trace k (final m s))"
    and "final (attempt msg m k) s = (case outcome m s of
      Some err \<Rightarrow> final m s | None \<Rightarrow> final k (final m s))"
    unfolding attempt_def by (simp_all add: run_bind [OF assms(1) p] split: option.split)
qed

lemma run_fetch:
  assumes "pure_log m" "\<And>x. pure_log (k x)"
  shows "outcome (fetch msg m k) s = (case outcome m s of
      Inl err \<Rightarrow> Some (ErrWrap msg err) | Inr x \<Rightarrow> outcome (k x) (final m s))"
    and "trace (fetch msg m k) s = trace m s @ (case outcome m s of
      Inl err \<Rightarrow> [] | Inr x \<Rightarrow> trace (k x) (final m s))"
    and "final (fetch msg m k) s = (case outcome m s of
      Inl err \<Rightarrow> final m s | Inr x \<Rightarrow> final (k x) (final m s))"
proof -
  have p: "pure_log (case r of Inl err \<Rightarrow> ret (Some (ErrWrap msg err)) | Inr x \<Rightarrow> k x)" for r
    by (intro emits_intros assms)
  show "outcome (fetch msg m k) s = (case outcome m s of
      Inl err \<Rightarrow> Some (ErrWrap msg err) | Inr x \<Rightarrow> outcome (k x) (final m s))"
    and "trace (fetch msg m k) s = trace m s @ (case outcome m s of
      Inl err \<Rightarrow> [] | Inr x \<Rightarrow> trace (k x) (final m s))"
    and "final (fetch msg m k) s = (case outcome m s of
      Inl err \<Rightarrow> final m s | Inr x \<Rightarrow> final (k x) (final m s))"
    unfolding fetch_def by (simp_all add: run_bind [OF assms(1) p] split: sum.split)
qed

section \<open>The primitive calls\<close>

definition vtysh :: "'s sysenv \<Rightarrow> string list \<Rightarrow> ('s, string \<times> goerr option) io" where
  "vtysh E args = call (EvVtysh args) (e_vtysh E args)"

definition ovs_exec :: "'s sysenv \<Rightarrow> string list \<Rightarrow> ('s, string \<times> goerr option) io" where
  "ovs_exec E argv = call (EvOVS argv) (e_ovs E argv)"

definition nft_exec :: "'s sysenv \<Rightarrow> string list \<Rightarrow> string \<Rightarrow> ('s, string \<times> goerr option) io" where
  "nft_exec E args stdin = call (EvNft args stdin) (e_nft E args stdin)"

definition LookPath :: "'s sysenv \<Rightarrow> string \<Rightarrow> ('s, goerr option) io" where
  "LookPath E name = call (EvQuery [''lookpath'', name]) (e_lookpath E name)"

definition Geteuid :: "'s sysenv \<Rightarrow> ('s, int) io" where
  "Geteuid E = call (EvQuery [''euid'']) (e_euid E)"

definition LinkByName :: "'s sysenv \<Rightarrow> string \<Rightarrow> ('s, lnk result) io" where
  "LinkByName E name = call (EvQuery [''link'', name]) (e_link E name)"

definition AddrList :: "'s sysenv \<Rightarrow> lnk \<Rightarrow> ('s, ip list result) io" where
  "AddrList E l = call (EvQuery [''addr'', l_name l]) (e_addrs E l)"

definition RouteListFiltered :: "'s sysenv \<Rightarrow> rtfilter \<Rightarrow> ('s, nlroute list result) io" where
  "RouteListFiltered E fl = call (EvQuery [''route'']) (e_routes E fl)"

definition RuleList :: "'s sysenv \<Rightarrow> ('s, nlrule list result) io" where
  "RuleList E = call (EvQuery [''rule'']) (e_rules E)"

definition netlink :: "'s sysenv \<Rightarrow> nlop \<Rightarrow> ('s, goerr option) io" where
  "netlink E r = call (EvNl r) (e_netlink E r)"

definition WriteFile :: "'s sysenv \<Rightarrow> string \<Rightarrow> string \<Rightarrow> ('s, goerr option) io" where
  "WriteFile E path content = call (EvWrite path content) (e_write E path content)"

definition Now :: "'s sysenv \<Rightarrow> ('s, int) io" where
  "Now E = call (EvQuery [''now'']) (e_now E)"

definition nbTransact :: "'s ovnenv \<Rightarrow> ovsop list \<Rightarrow> ('s, opresult list result) io" where
  "nbTransact E ops = call (EvNb ops) (e_nb_transact E ops)"

definition sbTransact :: "'s ovnenv \<Rightarrow> ovsop list \<Rightarrow> ('s, opresult list result) io" where
  "sbTransact E ops = call (EvSb ops) (e_sb_transact E ops)"

definition wait :: "'s ovnenv \<Rightarrow> ('s, unit) io" where
  "wait E = call (EvQuery [''wait'']) (e_wait E)"

definition listTable :: "string \<Rightarrow> ('s \<Rightarrow> 'a list result \<times> 's) \<Rightarrow> ('s, 'a list result) io" where
  "listTable table f = call (EvQuery [''list'', table]) f"

lemmas prim_defs = vtysh_def ovs_exec_def nft_exec_def LookPath_def Geteuid_def LinkByName_def
  AddrList_def RouteListFiltered_def RuleList_def netlink_def WriteFile_def Now_def
  nbTransact_def sbTransact_def listTable_def wait_def

lemma emits_prims [emits_intros]:
  "P (EvVtysh args) \<Longrightarrow> emits P (vtysh E args)"
  "P (EvOVS args) \<Longrightarrow> emits P (ovs_exec E args)"
  "P (EvNft args i) \<Longrightarrow> emits P (nft_exec E args i)"
  "P (EvQuery [''lookpath'', n]) \<Longrightarrow> emits P (LookPath E n)"
  "P (EvQuery [''euid'']) \<Longrightarrow> emits P (Geteuid E)"
  "P (EvQuery [''link'', n]) \<Longrightarrow> emits P (LinkByName E n)"
  "P (EvQuery [''addr'', l_name k]) \<Longrightarrow> emits P (AddrList E k)"
  "P (EvQuery [''route'']) \<Longrightarrow> emits P (RouteListFiltered E fl)"
  "P (EvQuery [''rule'']) \<Longrightarrow> emits P (RuleList E)"
  "P (EvNl r) \<Longrightarrow> emits P (netlink E r)"
  "P (EvWrite p c) \<Longrightarrow> emits P (WriteFile E p c)"
  "P (EvQuery [''now'']) \<Longrightarrow> emits P (Now E)"
  "P (EvNb ops) \<Longrightarrow> emits P (nbTransact D ops)"
  "P (EvSb ops) \<Longrightarrow> emits P (sbTransact D ops)"
  "P (EvQuery [''list'', t]) \<Longrightarrow> emits P (listTable t g)"
  "P (EvQuery [''wait'']) \<Longrightarrow> emits P (wait D)"
  by (simp_all add: prim_defs emits_call)

section \<open>Reads and writes\<close>

text \<open>
  Which events can change the outside: every netlink request, sysctl write and nft load,
  vtysh commands other than \<open>show\<close>, OVS commands other than the two queries of the source,
  and OVSDB transactions that hold anything but selects.
\<close>

definition is_show :: "string list \<Rightarrow> bool" where
  "is_show args \<longleftrightarrow> (case args of [a, c] \<Rightarrow> a = ''-c'' \<and> HasPrefix c ''show '' | _ \<Rightarrow> False)"

fun writes :: "ev \<Rightarrow> bool" where
  "writes (EvQuery q) = False"
| "writes (EvNl r) = True"
| "writes (EvVtysh args) = (\<not> is_show args)"
| "writes (EvOVS argv) = (''ovs-ofctl'' \<in> set argv)"
| "writes (EvNft args i) = (hd (args @ ['''']) \<noteq> ''list'')"
| "writes (EvWrite p c) = True"
| "writes (EvNb ops) = (\<not> list_all is_select ops)"
| "writes (EvSb ops) = (\<not> list_all is_select ops)"

definition read_only :: "ev \<Rightarrow> bool" where
  "read_only e \<longleftrightarrow> \<not> writes e"

lemma read_only_query [simp]: "read_only (EvQuery q)"
  by (simp add: read_only_def)

end
