(* ===== verification/Cache.thy ===== *)
theory Cache
  imports Effects
begin

text \<open>
  The monitor-cache consistency guard of \<open>ovn_cache.go\<close>. A table is listed from the cache
  and cross-checked against a select on the server; \<open>T\<close> is the transact function of the
  client and \<open>check\<close> is \<open>ovsdb.CheckOperationResults\<close>, both outside the repository.
\<close>

definition directSelect ::
  "(ovsop list \<Rightarrow> ('s, opresult list result) io) \<Rightarrow> (opresult list \<Rightarrow> ovsop list \<Rightarrow> goerr option) \<Rightarrow>
   string \<Rightarrow> string list option \<Rightarrow> ('s, row list result) io" where
  "directSelect T check table columns =
     (let op = OpSelect table columns None in
      do { r \<leftarrow> T [op];
           ret (case r of
             Inl e \<Rightarrow> Inl (ErrWrap (''select from '' @ table) e)
           | Inr results \<Rightarrow>
               (case check results [op] of
                  Some e \<Rightarrow> Inl (ErrWrap (''select from '' @ table) e)
                | None \<Rightarrow> (case results of [] \<Rightarrow> Inr [] | x # xs \<Rightarrow> Inr (res_rows x)))) })"

text \<open>A Go \<open>map[string]bool\<close> filled with \<open>true\<close>: the list of its keys, without repetition.\<close>

definition key_set :: "string list \<Rightarrow> string list" where
  "key_set ks = dedup_by (\<lambda>k. k) [] ks"

definition serverKeySet ::
  "(ovsop list \<Rightarrow> ('s, opresult list result) io) \<Rightarrow> (opresult list \<Rightarrow> ovsop list \<Rightarrow> goerr option) \<Rightarrow>
   string \<Rightarrow> string list \<Rightarrow> ('a \<Rightarrow> string) \<Rightarrow> (row \<Rightarrow> 'a) \<Rightarrow> ('s, string list result) io" where
  "serverKeySet T check table columns keyOf decode =
     do { r \<leftarrow> directSelect T check table (Some columns);
          ret (case r of Inl e \<Rightarrow> Inl e
               | Inr rows \<Rightarrow> Inr (key_set (map (\<lambda>row. keyOf (decode row)) rows))) }"

definition keySetsEqual :: "string list \<Rightarrow> string list \<Rightarrow> bool" where
  "keySetsEqual a b \<longleftrightarrow> length a = length b \<and> list_all (\<lambda>k. has b k) a"

definition authoritativeList ::
  "(ovsop list \<Rightarrow> ('s, opresult list result) io) \<Rightarrow> (opresult list \<Rightarrow> ovsop list \<Rightarrow> goerr option) \<Rightarrow>
   string \<Rightarrow> string list \<Rightarrow> 'a list \<Rightarrow> ('a \<Rightarrow> string) \<Rightarrow> (row \<Rightarrow> 'a) \<Rightarrow> ('s, 'a list) io" where
  "authoritativeList T check table columns cached keyOf decode =
     do { r \<leftarrow> serverKeySet T check table columns keyOf decode;
          case r of
            Inl e \<Rightarrow> ret cached
          | Inr serverKeys \<Rightarrow>
              let cacheKeys = key_set (map keyOf cached) in
              if keySetsEqual cacheKeys serverKeys then ret cached
              else do { rr \<leftarrow> directSelect T check table None;
                        ret (case rr of Inl e \<Rightarrow> cached | Inr rows \<Rightarrow> map decode rows) } }"

definition cachedList ::
  "('s, 'a list result) io \<Rightarrow>
   (ovsop list \<Rightarrow> ('s, opresult list result) io) \<Rightarrow> (opresult list \<Rightarrow> ovsop list \<Rightarrow> goerr option) \<Rightarrow>
   string \<Rightarrow> string list \<Rightarrow> ('a \<Rightarrow> string) \<Rightarrow> (row \<Rightarrow> 'a) \<Rightarrow> ('s, 'a list result) io" where
  "cachedList lst T check table columns keyOf decode =
     do { c \<leftarrow> lst;
          case c of
            Inl e \<Rightarrow> ret (Inl e)
          | Inr cached \<Rightarrow>
              do { xs \<leftarrow> authoritativeList T check table columns cached keyOf decode;
                   ret (Inr xs) } }"

section \<open>Key sets\<close>

lemma key_set_set [simp]: "set (key_set ks) = set ks"
  by (simp add: key_set_def dedup_id_set)

lemma key_set_distinct [simp]: "distinct (key_set ks)"
  by (simp add: key_set_def dedup_id_distinct)

lemma keySetsEqual_iff:
  assumes "distinct a" "distinct b"
  shows "keySetsEqual a b \<longleftrightarrow> set a = set b"
proof
  assume "keySetsEqual a b"
  then have "card (set a) = card (set b)" "set a \<subseteq> set b"
    using assms by (auto simp: keySetsEqual_def distinct_card list_all_iff)
  then show "set a = set b" by (simp add: card_subset_eq)
next
  assume "set a = set b"
  then show "keySetsEqual a b"
    using assms by (auto simp: keySetsEqual_def list_all_iff) (metis distinct_card)
qed

section \<open>A server that answers\<close>

text \<open>
  \<open>serves f table rows s\<close>: the transact function \<open>f\<close> answers a select on \<open>table\<close> with the
  rows it holds, projected to the columns asked for, and a select changes nothing.
\<close>

definition serves :: "(ovsop list \<Rightarrow> 's \<Rightarrow> opresult list result \<times> 's) \<Rightarrow> string \<Rightarrow> row list \<Rightarrow> 's \<Rightarrow> bool" where
  "serves f table rows s \<longleftrightarrow>
     (\<forall>cols. f [OpSelect table cols None] s =
        (Inr [\<lparr>res_rows = (case cols of None \<Rightarrow> rows | Some cs \<Rightarrow> map (project cs) rows),
               res_error = []\<rparr>], s))"

text \<open>\<open>CheckOperationResults\<close> accepts results none of which carries an error.\<close>

definition accepts :: "(opresult list \<Rightarrow> ovsop list \<Rightarrow> goerr option) \<Rightarrow> bool" where
  "accepts check \<longleftrightarrow> (\<forall>rs ops. list_all (\<lambda>r. res_error r = []) rs \<longrightarrow> check rs ops = None)"

lemma directSelect_call:
  "outcome (directSelect (\<lambda>ops. call (mk ops) (f ops)) check table cols) s =
     (case fst (f [OpSelect table cols None] s) of
        Inl e \<Rightarrow> Inl (ErrWrap (''select from '' @ table) e)
      | Inr results \<Rightarrow>
          (case check results [OpSelect table cols None] of
             Some e \<Rightarrow> Inl (ErrWrap (''select from '' @ table) e)
           | None \<Rightarrow> (case results of [] \<Rightarrow> Inr [] | x # xs \<Rightarrow> Inr (res_rows x))))"
  "final (directSelect (\<lambda>ops. call (mk ops) (f ops)) check table cols) s =
     snd (f [OpSelect table cols None] s)"
  by (simp_all add: directSelect_def Let_def run_bind emits_intros)

lemma directSelect_served:
  assumes "serves f table rows s" "accepts check"
  shows "outcome (directSelect (\<lambda>ops. call (mk ops) (f ops)) check table cols) s =
      Inr (case cols of None \<Rightarrow> rows | Some cs \<Rightarrow> map (project cs) rows)"
    and "final (directSelect (\<lambda>ops. call (mk ops) (f ops)) check table cols) s = s"
  using assms by (simp_all add: directSelect_call serves_def accepts_def)

lemma emits_directSelect [emits_intros]:
  "(\<And>ops. emits P (T ops)) \<Longrightarrow> emits P (directSelect T check table cols)"
  unfolding directSelect_def Let_def by (intro emits_intros)

lemma emits_directSelect_ops:
  "emits P (T [OpSelect table cols None]) \<Longrightarrow> emits P (directSelect T check table cols)"
  unfolding directSelect_def Let_def by (intro emits_intros)

lemma emits_serverKeySet:
  "emits P (T [OpSelect table (Some columns) None]) \<Longrightarrow>
   emits P (serverKeySet T check table columns keyOf decode)"
  unfolding serverKeySet_def by (intro emits_intros emits_directSelect_ops)

lemma emits_authoritativeList:
  "(\<And>cols. emits P (T [OpSelect table cols None])) \<Longrightarrow>
   emits P (authoritativeList T check table columns cached keyOf decode)"
  unfolding authoritativeList_def Let_def
  by (intro emits_intros emits_directSelect_ops emits_serverKeySet)

lemma emits_cachedList:
  "emits P lst \<Longrightarrow> (\<And>cols. emits P (T [OpSelect table cols None])) \<Longrightarrow>
   emits P (cachedList lst T check table columns keyOf decode)"
  unfolding cachedList_def by (intro emits_intros emits_authoritativeList)

context row_codec begin

lemma serverKeySet_served:
  assumes "serves f table rows s" "accepts check"
  shows "outcome (serverKeySet (\<lambda>ops. call (mk ops) (f ops)) check table columns keyOf decode) s =
      Inr (key_set (map (\<lambda>r. keyOf (decode r)) rows))"
    and "final (serverKeySet (\<lambda>ops. call (mk ops) (f ops)) check table columns keyOf decode) s = s"
  using directSelect_served [OF assms, where cols = "Some columns" and mk = mk]
  by (simp_all add: serverKeySet_def run_bind emits_intros key_project comp_def)

lemma authoritative_served:
  assumes "serves f table rows s" "accepts check"
  shows "outcome (authoritativeList (\<lambda>ops. call (mk ops) (f ops)) check table columns cached keyOf decode) s =
      (if keyOf ` set cached = (\<lambda>r. keyOf (decode r)) ` set rows then cached else map decode rows)"
  using serverKeySet_served [OF assms, where mk = mk]
    directSelect_served [OF assms, where cols = None and mk = mk]
  by (simp add: authoritativeList_def Let_def run_bind emits_intros emits_serverKeySet
      keySetsEqual_iff image_image split: sum.splits)

lemma authoritative_keys:
  assumes "serves f table rows s" "accepts check"
  shows "keyOf ` set (outcome (authoritativeList (\<lambda>ops. call (mk ops) (f ops)) check table columns
      cached keyOf decode) s) = keyOf ` decode ` set rows"
  by (simp add: authoritative_served [OF assms] image_image)

lemma cachedList_keys:
  assumes "serves f table rows s" "accepts check"
    and "lf s = (Inr cached, s)"
  shows "\<exists>xs. outcome (cachedList (listTable t lf) (\<lambda>ops. call (mk ops) (f ops)) check table columns
      keyOf decode) s = Inr xs \<and> keyOf ` set xs = keyOf ` decode ` set rows
      \<and> (xs = cached \<or> xs = map decode rows)"
  using authoritative_keys [OF assms(1,2)] authoritative_served [OF assms(1,2)] assms(3)
  by (simp add: cachedList_def listTable_def run_bind emits_intros emits_authoritativeList)

end

text \<open>An error from the server never fails the listing.\<close>

lemma cachedList_error:
  "outcome (cachedList (listTable t lf) (\<lambda>ops. call (mk ops) (f ops)) check table columns keyOf decode) s
     = Inl e \<longleftrightarrow> fst (lf s) = Inl e"
  by (cases "fst (lf s)")
    (simp_all add: cachedList_def listTable_def run_bind emits_intros emits_authoritativeList)


section \<open>The tables of the agent\<close>

definition listPortBindings :: "'s ovnenv \<Rightarrow> ('s, SBPortBinding list result) io" where
  "listPortBindings E = cachedList (listTable ''Port_Binding'' (e_list_pb E)) (sbTransact E)
     (e_check_results E) ''Port_Binding'' pbCheckColumns keyOfSBPortBinding decodeSBPortBinding"

definition listChassis :: "'s ovnenv \<Rightarrow> ('s, SBChassis list result) io" where
  "listChassis E = cachedList (listTable ''Chassis'' (e_list_ch E)) (sbTransact E)
     (e_check_results E) ''Chassis'' chCheckColumns keyOfSBChassis decodeSBChassis"

definition listRouterPorts :: "'s ovnenv \<Rightarrow> ('s, NBLogicalRouterPort list result) io" where
  "listRouterPorts E = cachedList (listTable ''Logical_Router_Port'' (e_list_lrp E)) (nbTransact E)
     (e_check_results E) ''Logical_Router_Port'' lrpCheckColumns keyOfNBLogicalRouterPort
     decodeNBLogicalRouterPort"

definition listRouters :: "'s ovnenv \<Rightarrow> ('s, NBLogicalRouter list result) io" where
  "listRouters E = cachedList (listTable ''Logical_Router'' (e_list_lr E)) (nbTransact E)
     (e_check_results E) ''Logical_Router'' lrCheckColumns keyOfNBLogicalRouter decodeNBLogicalRouter"

definition listNATs :: "'s ovnenv \<Rightarrow> ('s, NBNAT list result) io" where
  "listNATs E = cachedList (listTable ''NAT'' (e_list_nat E)) (nbTransact E)
     (e_check_results E) ''NAT'' natCheckColumns keyOfNBNAT decodeNBNAT"

definition listStaticRoutes :: "'s ovnenv \<Rightarrow> ('s, NBLogicalRouterStaticRoute list result) io" where
  "listStaticRoutes E = cachedList (listTable ''Logical_Router_Static_Route'' (e_list_sr E))
     (nbTransact E) (e_check_results E) ''Logical_Router_Static_Route'' lrsrCheckColumns
     keyOfNBLogicalRouterStaticRoute decodeNBLogicalRouterStaticRoute"

definition listMACBindings :: "'s ovnenv \<Rightarrow> ('s, NBStaticMACBinding list result) io" where
  "listMACBindings E = cachedList (listTable ''Static_MAC_Binding'' (e_list_mb E)) (nbTransact E)
     (e_check_results E) ''Static_MAC_Binding'' smbCheckColumns keyOfNBStaticMACBinding
     decodeNBStaticMACBinding"

lemma sbTransact_call: "sbTransact E = (\<lambda>ops. call (EvSb ops) (e_sb_transact E ops))"
  by (simp add: sbTransact_def fun_eq_iff)

lemma nbTransact_call: "nbTransact E = (\<lambda>ops. call (EvNb ops) (e_nb_transact E ops))"
  by (simp add: nbTransact_def fun_eq_iff)

lemmas list_defs = listPortBindings_def listChassis_def listRouterPorts_def listRouters_def
  listNATs_def listStaticRoutes_def listMACBindings_def

lemma emits_lists [emits_intros]:
  assumes "\<And>t. P (EvQuery [''list'', t])" "\<And>t cols. P (EvNb [OpSelect t cols None])"
    "\<And>t cols. P (EvSb [OpSelect t cols None])"
  shows "emits P (listPortBindings E)" "emits P (listChassis E)" "emits P (listRouterPorts E)"
    "emits P (listRouters E)" "emits P (listNATs E)" "emits P (listStaticRoutes E)"
    "emits P (listMACBindings E)"
  unfolding list_defs by (intro emits_cachedList emits_intros assms)+

definition clean :: "string \<Rightarrow> bool" where
  "clean s \<longleftrightarrow> unit_sep \<notin> set s"

text \<open>A port binding without the separators the content key relies on.\<close>

definition pb_clean :: "SBPortBinding \<Rightarrow> bool" where
  "pb_clean p \<longleftrightarrow> list_all clean [pb_UUID p, pb_Type p, opt_string (pb_Chassis p)]
     \<and> list_all (\<lambda>a. a \<noteq> [] \<and> clean a \<and> CHR '','' \<notin> set a) (pb_NatAddresses p)"

definition pb_critical :: "SBPortBinding \<Rightarrow> string \<times> string \<times> string \<times> string multiset" where
  "pb_critical p = (pb_UUID p, pb_Type p, opt_string (pb_Chassis p), mset (pb_NatAddresses p))"

lemma Join_chars: "c \<in> set (Join xs sep) \<Longrightarrow> c \<in> set sep \<or> (\<exists>x\<in>set xs. c \<in> set x)"
  by (induction xs sep rule: Join.induct) auto

lemma sortedJoin_clean: "list_all clean xs \<Longrightarrow> clean (sortedJoin xs)"
  by (auto simp: sortedJoin_def clean_def list_all_iff unit_sep_def dest!: Join_chars)

lemma pb_key_critical:
  assumes "pb_clean p" "pb_clean q"
  shows "keyOfSBPortBinding p = keyOfSBPortBinding q \<longleftrightarrow> pb_critical p = pb_critical q"
proof
  assume k: "keyOfSBPortBinding p = keyOfSBPortBinding q"
  have c: "clean (sortedJoin (pb_NatAddresses p))" "clean (sortedJoin (pb_NatAddresses q))"
    using assms by (auto simp: pb_clean_def list_all_iff intro!: sortedJoin_clean)
  have "[pb_UUID p, pb_Type p, opt_string (pb_Chassis p), sortedJoin (pb_NatAddresses p)] =
      [pb_UUID q, pb_Type q, opt_string (pb_Chassis q), sortedJoin (pb_NatAddresses q)]"
    by (rule contentKey_inj [OF k [unfolded keyOfSBPortBinding_def]])
      (use assms c in \<open>auto simp: pb_clean_def clean_def\<close>)
  moreover from this have "mset (pb_NatAddresses p) = mset (pb_NatAddresses q)"
    using assms by (intro sortedJoin_inj) (auto simp: pb_clean_def list_all_iff)
  ultimately show "pb_critical p = pb_critical q" by (simp add: pb_critical_def)
next
  assume "pb_critical p = pb_critical q"
  then show "keyOfSBPortBinding p = keyOfSBPortBinding q"
    using sortedJoin_mset [of "pb_NatAddresses p" "pb_NatAddresses q"]
    by (simp add: pb_critical_def keyOfSBPortBinding_def)
qed

lemma image_key_critical:
  assumes eq: "key ` A = key ` B" and f: "\<And>x y. x \<in> A \<Longrightarrow> y \<in> B \<Longrightarrow> key x = key y \<Longrightarrow> f x = f y"
  shows "f ` A = f ` B"
proof
  show "f ` A \<subseteq> f ` B"
  proof
    fix z assume "z \<in> f ` A"
    then obtain x where x: "x \<in> A" "z = f x" by blast
    with eq obtain y where "y \<in> B" "key y = key x" by (metis imageE imageI)
    with f x show "z \<in> f ` B" by (metis imageI)
  qed
  show "f ` B \<subseteq> f ` A"
  proof
    fix z assume "z \<in> f ` B"
    then obtain y where y: "y \<in> B" "z = f y" by blast
    with eq obtain x where "x \<in> A" "key x = key y" by (metis imageE imageI)
    with f y show "z \<in> f ` A" by (metis imageI)
  qed
qed

text \<open>
  C8. Listing the port bindings is server-authoritative: whatever the monitor cache holds, if the
  server answers, the slice the agent acts on has exactly the server's rows as far as identity,
  type, owning chassis and NAT addresses go. A dropped insert, a dropped delete and a stale
  chassis column are all repaired.
\<close>

theorem listPortBindings_authoritative:
  assumes srv: "serves (e_sb_transact E) ''Port_Binding'' rows s" "accepts (e_check_results E)"
    and cache: "e_list_pb E s = (Inr cached, s)"
    and clean: "list_all pb_clean cached" "list_all pb_clean (map decodeSBPortBinding rows)"
  shows "\<exists>xs. outcome (listPortBindings E) s = Inr xs
      \<and> pb_critical ` set xs = pb_critical ` set (map decodeSBPortBinding rows)"
proof -
  obtain xs where xs: "outcome (listPortBindings E) s = Inr xs"
    "keyOfSBPortBinding ` set xs = keyOfSBPortBinding ` set (map decodeSBPortBinding rows)"
    "xs = cached \<or> xs = map decodeSBPortBinding rows"
    using pbCodec.cachedList_keys [OF srv, where lf = "e_list_pb E", OF cache, where t = "''Port_Binding''" and mk = EvSb]
    by (auto simp: listPortBindings_def sbTransact_call image_image)
  moreover have "list_all pb_clean xs" using xs(3) clean by blast
  ultimately show ?thesis
    using clean(2) pb_key_critical
    by (auto simp: list_all_iff intro!: image_key_critical [where key = keyOfSBPortBinding])
qed

definition reply_rows :: "opresult list \<Rightarrow> row list" where
  "reply_rows rs = (case rs of [] \<Rightarrow> [] | x # xs \<Rightarrow> res_rows x)"

lemma authoritative_cases:
  "outcome (authoritativeList (\<lambda>ops. call (mk ops) (f ops)) check table columns cached keyOf decode) s
     = cached \<or>
   (\<exists>rs s'. fst (f [OpSelect table None None] s') = Inr rs \<and> check rs [OpSelect table None None] = None
     \<and> outcome (authoritativeList (\<lambda>ops. call (mk ops) (f ops)) check table columns cached keyOf decode) s
         = map decode (reply_rows rs))"
proof -
  let ?T = "\<lambda>ops. call (mk ops) (f ops)"
  let ?s = "final (serverKeySet ?T check table columns keyOf decode) s"
  have ds: "\<exists>rs s'. fst (f [OpSelect table None None] s') = Inr rs
        \<and> check rs [OpSelect table None None] = None \<and> rows = reply_rows rs"
    if "outcome (directSelect ?T check table None) ?s = Inr rows" for rows
    using that
    by (intro exI [of _ "case fst (f [OpSelect table None None] ?s) of Inr rs \<Rightarrow> rs"] exI [of _ ?s])
      (simp add: directSelect_call reply_rows_def split: sum.splits option.splits list.splits)
  have eq: "outcome (authoritativeList ?T check table columns cached keyOf decode) s =
      (case outcome (serverKeySet ?T check table columns keyOf decode) s of
         Inl e \<Rightarrow> cached
       | Inr ks \<Rightarrow> if keySetsEqual (key_set (map keyOf cached)) ks then cached
           else case outcome (directSelect ?T check table None) ?s of
                  Inl e \<Rightarrow> cached | Inr rows \<Rightarrow> map decode rows)"
    by (simp add: authoritativeList_def Let_def run_bind emits_intros emits_serverKeySet
        split: sum.split)
  show ?thesis
  proof (cases "outcome (serverKeySet ?T check table columns keyOf decode) s")
    case (Inr ks)
    then show ?thesis
      using ds unfolding eq
      by (cases "outcome (directSelect ?T check table None) ?s") (simp, simp, metis)
  qed (simp add: eq)
qed

text \<open>
  C36. The guard never makes things worse: the listing fails only if the cache listing itself
  fails, every result is the cached slice or the decoded rows of an error-free full select of the
  server, and nothing but selects is ever sent.
\<close>

theorem cachedList_degrades:
  fixes E :: "'s ovnenv" and lf :: "'s \<Rightarrow> 'a list result \<times> 's" and keyOf :: "'a \<Rightarrow> string"
    and t table decode columns
  defines "m \<equiv> cachedList (listTable t lf) (nbTransact E) (e_check_results E) table columns keyOf decode"
  shows "(outcome m s = Inl e) = (fst (lf s) = Inl e)
    \<and> (outcome m s = fst (lf s) \<or>
        (\<exists>rs s'. fst (e_nb_transact E [OpSelect table None None] s') = Inr rs
           \<and> e_check_results E rs [OpSelect table None None] = None
           \<and> outcome m s = Inr (map decode (reply_rows rs))))
    \<and> emits read_only m"
proof -
  have "emits read_only m"
    unfolding m_def by (intro emits_cachedList emits_intros) (simp_all add: read_only_def)
  moreover have "outcome m s = fst (lf s) \<or>
      (\<exists>rs s'. fst (e_nb_transact E [OpSelect table None None] s') = Inr rs
         \<and> e_check_results E rs [OpSelect table None None] = None
         \<and> outcome m s = Inr (map decode (reply_rows rs)))"
  proof (cases "fst (lf s)")
    case (Inl e)
    then show ?thesis by (simp add: m_def cachedList_def listTable_def run_bind emits_intros)
  next
    case (Inr cached)
    then have "outcome m s = Inr (outcome (authoritativeList (nbTransact E) (e_check_results E) table
        columns cached keyOf decode) (snd (lf s)))"
      by (simp add: m_def cachedList_def listTable_def nbTransact_call run_bind emits_intros
          emits_authoritativeList)
    then show ?thesis
      using authoritative_cases [of EvNb "e_nb_transact E" "e_check_results E" table columns cached
          keyOf decode "snd (lf s)"]
      unfolding nbTransact_call [symmetric] by (auto simp: Inr)
  qed
  ultimately show ?thesis
    using cachedList_error [of t lf EvNb "e_nb_transact E" "e_check_results E" table columns keyOf decode s e]
    unfolding m_def nbTransact_call [of E] by simp
qed

section \<open>Instances\<close>

text \<open>A server whose binding moved to chassis c2 while the cache still says c1.\<close>

definition demo_pb_row :: row where
  "demo_pb_row = [(''_uuid'', VUUID ''u1''), (''type'', VStr ''chassisredirect''),
     (''logical_port'', VStr ''cr-lrp-1''), (''chassis'', VUUID ''c2''), (''nat_addresses'', VSet [])]"

definition demo_answer :: "row list \<Rightarrow> ovsop list \<Rightarrow> unit \<Rightarrow> opresult list result \<times> unit" where
  "demo_answer rows ops s =
     (case ops of
        [OpSelect t cols w] \<Rightarrow>
          (Inr [\<lparr>res_rows = (case cols of None \<Rightarrow> rows | Some cs \<Rightarrow> map (project cs) rows),
                 res_error = []\<rparr>], s)
      | _ \<Rightarrow> (Inr [], s))"

definition demo_cached :: SBPortBinding where
  "demo_cached = (decodeSBPortBinding demo_pb_row)\<lparr>pb_Chassis := Some ''c1''\<rparr>"

definition quiet_ovn :: "unit ovnenv" where
  "quiet_ovn = \<lparr>e_list_pb = \<lambda>s. (Inr [], s), e_list_ch = \<lambda>s. (Inr [], s),
     e_list_nat = \<lambda>s. (Inr [], s), e_list_lr = \<lambda>s. (Inr [], s), e_list_lrp = \<lambda>s. (Inr [], s),
     e_list_sr = \<lambda>s. (Inr [], s), e_list_mb = \<lambda>s. (Inr [], s), e_list_gc = \<lambda>s. (Inr [], s),
     e_nb_transact = demo_answer [], e_sb_transact = demo_answer [],
     e_check_results = \<lambda>rs ops. None, e_build_err = \<lambda>op. None, e_wait = \<lambda>s. ((), s)\<rparr>"

definition stale_ovn :: "unit ovnenv" where
  "stale_ovn = quiet_ovn\<lparr>e_list_pb := \<lambda>s. (Inr [demo_cached], s),
     e_sb_transact := demo_answer [demo_pb_row]\<rparr>"

lemma demo_serves: "serves (demo_answer rows) t rows s"
  by (simp add: serves_def demo_answer_def)

text \<open>The stale chassis of the cached binding is replaced by the server's.\<close>

theorem listPortBindings_authoritative_witness:
  "\<exists>xs. outcome (listPortBindings stale_ovn) () = Inr xs
     \<and> pb_critical ` set xs = {(''u1'', ''chassisredirect'', ''c2'', {#})}"
proof -
  have "pb_critical ` set (map decodeSBPortBinding [demo_pb_row]) =
      {(''u1'', ''chassisredirect'', ''c2'', {#})}"
    by (simp add: pb_critical_def decodeSBPortBinding_def demo_pb_row_def row_readers
        zeroPortBinding_def opt_string_def ovsSetToStrings_def map_filter_simps)
  moreover have "list_all pb_clean [demo_cached]" "list_all pb_clean (map decodeSBPortBinding [demo_pb_row])"
    by (simp_all add: pb_clean_def clean_def unit_sep_def demo_cached_def decodeSBPortBinding_def
        demo_pb_row_def row_readers zeroPortBinding_def opt_string_def ovsSetToStrings_def
        map_filter_simps)
  ultimately show ?thesis
    using listPortBindings_authoritative [of stale_ovn "[demo_pb_row]" "()" "[demo_cached]"]
    by (simp add: stale_ovn_def quiet_ovn_def demo_serves accepts_def)
qed

end
