(* ===== verification/Config.thy ===== *)
theory Config
  imports GoNet
begin

text \<open>
  The configuration of \<open>config.go\<close>: the structs, the three layers over the defaults
  (file, environment, flags), validation and the derivation of the operating mode.
  Parameters of the model: the parsed YAML file (\<open>gopkg.in/yaml.v3\<close>), the value of each
  explicitly set flag (package \<open>flag\<close>), the process environment and
  \<open>time.ParseDuration\<close> as a partial function from strings to nanoseconds. The flags and the
  durations are supplied in Flags.
\<close>

section \<open>Structs\<close>

record PortForwardRule =
  r_Proto :: string
  r_Port :: int
  r_DestAddr :: string
  r_DestAddrs :: "string list"
  r_DestPort :: int
  r_Masquerade :: "bool option"

record PortForwardVIP =
  v_VIP :: string
  v_ManageVIP :: bool
  v_Masquerade :: bool
  v_HairpinMasquerade :: bool
  v_RouterMasquerade :: bool
  v_Rules :: "PortForwardRule list"

record Config =
  c_OVNSBRemote :: string
  c_OVNNBRemote :: string
  c_BridgeDev :: string
  c_VRFName :: string
  c_VethNexthop :: string
  c_NetworkCIDRs :: "string list"
  c_NetworkFilters :: "ipnet list"
  c_GatewayPort :: string
  c_RouteTableID :: int
  c_BridgeIP :: string
  c_OVSWrapper :: string
  c_ReconcileInterval :: int
  c_LogLevel :: string
  c_DryRun :: bool
  c_CleanupOnShutdown :: bool
  c_DrainOnShutdown :: bool
  c_DrainTimeout :: int
  c_DrainSettleDelay :: int
  c_FRRPrefixList :: string
  c_StaleChassisGracePeriod :: int
  c_MetricsListen :: string
  c_VethLeakEnabled :: bool
  c_VethProviderIP :: string
  c_VethLeakTableID :: int
  c_VethLeakRulePriority :: int
  c_PortForwardOnly :: bool
  c_PortForwardEnabled :: bool
  c_PortForwardDev :: string
  c_PortForwardTableID :: int
  c_PortForwardL3mdevAccept :: bool
  c_PortForwardCTZone :: int
  c_PortForwards :: "PortForwardVIP list"

record configFile =
  f_OVNSBRemote :: string
  f_OVNNBRemote :: string
  f_BridgeDev :: string
  f_VRFName :: string
  f_VethNexthop :: string
  f_NetworkCIDR :: "string list"
  f_GatewayPort :: string
  f_RouteTableID :: "int option"
  f_BridgeIP :: string
  f_OVSWrapper :: string
  f_ReconcileInterval :: string
  f_LogLevel :: string
  f_DryRun :: "bool option"
  f_CleanupOnShutdown :: "bool option"
  f_DrainOnShutdown :: "bool option"
  f_DrainTimeout :: string
  f_DrainSettleDelay :: string
  f_FRRPrefixList :: string
  f_StaleChassisGracePeriod :: string
  f_MetricsListen :: string
  f_VethLeakEnabled :: "bool option"
  f_VethProviderIP :: string
  f_VethLeakTableID :: "int option"
  f_VethLeakRulePriority :: "int option"
  f_PortForwardDev :: string
  f_PortForwardTableID :: "int option"
  f_PortForwardL3mdevAccept :: "bool option"
  f_PortForwardCTZone :: "int option"
  f_PortForwards :: "PortForwardVIP list"

section \<open>Helpers\<close>

definition effectiveNetworkFilters :: "ipnet list \<Rightarrow> ipnet list \<Rightarrow> ipnet list" where
  "effectiveNetworkFilters manual discovered = (if manual \<noteq> [] then manual else discovered)"

fun containedInAny :: "ip \<Rightarrow> ipnet list \<Rightarrow> bool" where
  "containedInAny ip [] = False"
| "containedInAny ip (n # nets) = (if netContains n ip then True else containedInAny ip nets)"

definition splitAndTrim :: "string \<Rightarrow> char \<Rightarrow> string list" where
  "splitAndTrim s sep = filter (\<lambda>p. p \<noteq> []) (map TrimSpace (Split sep s))"

definition effectiveMasquerade :: "PortForwardRule \<Rightarrow> bool \<Rightarrow> bool" where
  "effectiveMasquerade r vipDefault =
     (case r_Masquerade r of Some b \<Rightarrow> b | None \<Rightarrow> vipDefault)"

definition destAddrs :: "PortForwardRule \<Rightarrow> string list" where
  "destAddrs r =
     (if r_DestAddrs r \<noteq> [] then r_DestAddrs r
      else if r_DestAddr r \<noteq> [] then [r_DestAddr r] else [])"

text \<open>
  \<open>nextIPInSubnet\<close>: the carry runs from the last byte to the first. The bytes are given
  last first.
\<close>

fun next_bytes :: "8 word list \<Rightarrow> 8 word list" where
  "next_bytes [] = []"
| "next_bytes (b # bs) = (if b + 1 \<noteq> 0 then (b + 1) # bs else (b + 1) # next_bytes bs)"

definition bytes_of_ip4 :: "ip4 \<Rightarrow> 8 word list" where
  "bytes_of_ip4 a = map (\<lambda>k. word_of_nat (unat a div 2 ^ k)) [24, 16, 8, 0]"

definition ip4_of_bytes :: "8 word list \<Rightarrow> ip4" where
  "ip4_of_bytes bs = foldl (\<lambda>a b. 256 * a + word_of_nat (unat b)) 0 bs"

definition nextIPInSubnet :: "ip \<Rightarrow> ip option" where
  "nextIPInSubnet x =
     (case To4 x of
        None \<Rightarrow> None
      | Some a \<Rightarrow> Some (IPv4 (ip4_of_bytes (rev (next_bytes (rev (bytes_of_ip4 a)))))))"

definition ident_char :: "char \<Rightarrow> bool" where
  "ident_char c \<longleftrightarrow> (let n = of_char c :: nat in
     (97 \<le> n \<and> n \<le> 122) \<or> (65 \<le> n \<and> n \<le> 90) \<or> (48 \<le> n \<and> n \<le> 57)
     \<or> c = CHR ''-'' \<or> c = CHR ''_'' \<or> c = CHR ''.'')"

definition isValidIdentifier :: "string \<Rightarrow> bool" where
  "isValidIdentifier s \<longleftrightarrow> list_all ident_char s \<and> length s > 0"

text \<open>Success of \<open>net.SplitHostPort\<close>.\<close>

definition splitHostPort_ok :: "string \<Rightarrow> bool" where
  "splitHostPort_ok s =
     (case s of
        [] \<Rightarrow> False
      | c # cs \<Rightarrow>
          if c = CHR ''['' then
            (case dropWhile (\<lambda>x. x \<noteq> CHR '']'') s of
               b # d # p \<Rightarrow> d = CHR '':'' \<and> CHR '':'' \<notin> set p \<and> CHR '']'' \<notin> set p
                          \<and> CHR ''['' \<notin> set cs
             | _ \<Rightarrow> False)
          else count_list s CHR '':'' = 1 \<and> CHR ''['' \<notin> set s \<and> CHR '']'' \<notin> set s)"

section \<open>Layers\<close>

definition seconds :: "int \<Rightarrow> int" where
  "seconds n = n * 10 ^ 9"

definition defaultConfig :: Config where
  "defaultConfig = \<lparr>c_OVNSBRemote = [], c_OVNNBRemote = [], c_BridgeDev = ''br-ex'',
     c_VRFName = ''vrf-provider'', c_VethNexthop = ''169.254.0.1'', c_NetworkCIDRs = [],
     c_NetworkFilters = [], c_GatewayPort = [], c_RouteTableID = 0,
     c_BridgeIP = ''169.254.169.254'', c_OVSWrapper = [], c_ReconcileInterval = seconds 60,
     c_LogLevel = ''info'', c_DryRun = False, c_CleanupOnShutdown = True,
     c_DrainOnShutdown = True, c_DrainTimeout = seconds 60, c_DrainSettleDelay = seconds 3,
     c_FRRPrefixList = ''ANNOUNCED-NETWORKS'', c_StaleChassisGracePeriod = seconds 300,
     c_MetricsListen = [], c_VethLeakEnabled = True, c_VethProviderIP = [],
     c_VethLeakTableID = 200, c_VethLeakRulePriority = 2000, c_PortForwardOnly = False,
     c_PortForwardEnabled = False, c_PortForwardDev = ''loopback1'',
     c_PortForwardTableID = 201, c_PortForwardL3mdevAccept = False,
     c_PortForwardCTZone = 64000, c_PortForwards = []\<rparr>"

text \<open>\<open>if new != "" { field = new }\<close>, the same for a pointer, and for a duration string
  that may not parse.\<close>

definition ovr :: "string \<Rightarrow> string \<Rightarrow> string" where
  "ovr new old = (if new \<noteq> [] then new else old)"

definition ovr_ptr :: "'a option \<Rightarrow> 'a \<Rightarrow> 'a" where
  "ovr_ptr new old = (case new of Some x \<Rightarrow> x | None \<Rightarrow> old)"

definition ovr_list :: "'a list \<Rightarrow> 'a list \<Rightarrow> 'a list" where
  "ovr_list new old = (if new \<noteq> [] then new else old)"

definition ovr_dur :: "(string \<Rightarrow> int option) \<Rightarrow> string \<Rightarrow> int \<Rightarrow> int" where
  "ovr_dur pd new old =
     (if new \<noteq> [] then (case pd new of Some d \<Rightarrow> d | None \<Rightarrow> old) else old)"

definition applyFileConfig :: "(string \<Rightarrow> int option) \<Rightarrow> configFile \<Rightarrow> Config \<Rightarrow> Config" where
  "applyFileConfig pd fc cfg = cfg
     \<lparr>c_OVNSBRemote := ovr (f_OVNSBRemote fc) (c_OVNSBRemote cfg),
      c_OVNNBRemote := ovr (f_OVNNBRemote fc) (c_OVNNBRemote cfg),
      c_BridgeDev := ovr (f_BridgeDev fc) (c_BridgeDev cfg),
      c_VRFName := ovr (f_VRFName fc) (c_VRFName cfg),
      c_VethNexthop := ovr (f_VethNexthop fc) (c_VethNexthop cfg),
      c_NetworkCIDRs := ovr_list (f_NetworkCIDR fc) (c_NetworkCIDRs cfg),
      c_GatewayPort := ovr (f_GatewayPort fc) (c_GatewayPort cfg),
      c_BridgeIP := ovr (f_BridgeIP fc) (c_BridgeIP cfg),
      c_OVSWrapper := ovr (f_OVSWrapper fc) (c_OVSWrapper cfg),
      c_RouteTableID := ovr_ptr (f_RouteTableID fc) (c_RouteTableID cfg),
      c_ReconcileInterval := ovr_dur pd (f_ReconcileInterval fc) (c_ReconcileInterval cfg),
      c_LogLevel := ovr (f_LogLevel fc) (c_LogLevel cfg),
      c_DryRun := ovr_ptr (f_DryRun fc) (c_DryRun cfg),
      c_CleanupOnShutdown := ovr_ptr (f_CleanupOnShutdown fc) (c_CleanupOnShutdown cfg),
      c_DrainOnShutdown := ovr_ptr (f_DrainOnShutdown fc) (c_DrainOnShutdown cfg),
      c_DrainTimeout := ovr_dur pd (f_DrainTimeout fc) (c_DrainTimeout cfg),
      c_DrainSettleDelay := ovr_dur pd (f_DrainSettleDelay fc) (c_DrainSettleDelay cfg),
      c_FRRPrefixList := ovr (f_FRRPrefixList fc) (c_FRRPrefixList cfg),
      c_StaleChassisGracePeriod :=
        ovr_dur pd (f_StaleChassisGracePeriod fc) (c_StaleChassisGracePeriod cfg),
      c_MetricsListen := ovr (f_MetricsListen fc) (c_MetricsListen cfg),
      c_VethLeakEnabled := ovr_ptr (f_VethLeakEnabled fc) (c_VethLeakEnabled cfg),
      c_VethProviderIP := ovr (f_VethProviderIP fc) (c_VethProviderIP cfg),
      c_VethLeakTableID := ovr_ptr (f_VethLeakTableID fc) (c_VethLeakTableID cfg),
      c_VethLeakRulePriority := ovr_ptr (f_VethLeakRulePriority fc) (c_VethLeakRulePriority cfg),
      c_PortForwardDev := ovr (f_PortForwardDev fc) (c_PortForwardDev cfg),
      c_PortForwardTableID := ovr_ptr (f_PortForwardTableID fc) (c_PortForwardTableID cfg),
      c_PortForwardL3mdevAccept :=
        ovr_ptr (f_PortForwardL3mdevAccept fc) (c_PortForwardL3mdevAccept cfg),
      c_PortForwardCTZone := ovr_ptr (f_PortForwardCTZone fc) (c_PortForwardCTZone cfg),
      c_PortForwards := ovr_list (f_PortForwards fc) (c_PortForwards cfg)\<rparr>"

text \<open>\<open>fmt.Sscanf(v, "%d", &id)\<close>: blanks, an optional sign, digits; what follows the
  number is ignored.\<close>

definition sscanf_d :: "string \<Rightarrow> int option" where
  "sscanf_d v =
     (let s = dropWhile (\<lambda>c. is_space c \<and> c \<noteq> CHR 0x0A) v;
          sg = takeWhile (\<lambda>c. c \<in> {CHR ''+'', CHR ''-''}) (take 1 s);
          ds = takeWhile is_digit (drop (length sg) s)
      in Atoi (sg @ ds))"

definition ovr_scan :: "string \<Rightarrow> int \<Rightarrow> int" where
  "ovr_scan v old = (if v \<noteq> [] then (case sscanf_d v of Some i \<Rightarrow> i | None \<Rightarrow> old) else old)"

definition env_true :: "string \<Rightarrow> bool \<Rightarrow> bool" where
  "env_true v old = (if v = ''1'' \<or> v = ''true'' then True else old)"

definition env_false :: "string \<Rightarrow> bool \<Rightarrow> bool" where
  "env_false v old = (if v = ''0'' \<or> v = ''false'' then False else old)"

definition applyEnvConfig :: "(string \<Rightarrow> int option) \<Rightarrow> (string \<Rightarrow> string) \<Rightarrow> Config \<Rightarrow> Config" where
  "applyEnvConfig pd getenv cfg = cfg
     \<lparr>c_OVNSBRemote := ovr (getenv ''OVN_NETWORK_OVN_SB_REMOTE'') (c_OVNSBRemote cfg),
      c_OVNNBRemote := ovr (getenv ''OVN_NETWORK_OVN_NB_REMOTE'') (c_OVNNBRemote cfg),
      c_BridgeDev := ovr (getenv ''OVN_NETWORK_BRIDGE_DEV'') (c_BridgeDev cfg),
      c_VRFName := ovr (getenv ''OVN_NETWORK_VRF_NAME'') (c_VRFName cfg),
      c_VethNexthop := ovr (getenv ''OVN_NETWORK_VETH_NEXTHOP'') (c_VethNexthop cfg),
      c_NetworkCIDRs := (let v = getenv ''OVN_NETWORK_NETWORK_CIDR'' in
         if v \<noteq> [] then splitAndTrim v CHR '','' else c_NetworkCIDRs cfg),
      c_GatewayPort := ovr (getenv ''OVN_NETWORK_GATEWAY_PORT'') (c_GatewayPort cfg),
      c_BridgeIP := ovr (getenv ''OVN_NETWORK_BRIDGE_IP'') (c_BridgeIP cfg),
      c_OVSWrapper := ovr (getenv ''OVN_NETWORK_OVS_WRAPPER'') (c_OVSWrapper cfg),
      c_RouteTableID := ovr_scan (getenv ''OVN_NETWORK_ROUTE_TABLE_ID'') (c_RouteTableID cfg),
      c_ReconcileInterval :=
        ovr_dur pd (getenv ''OVN_NETWORK_RECONCILE_INTERVAL'') (c_ReconcileInterval cfg),
      c_LogLevel := ovr (getenv ''OVN_NETWORK_LOG_LEVEL'') (c_LogLevel cfg),
      c_DryRun := env_true (getenv ''OVN_NETWORK_DRY_RUN'') (c_DryRun cfg),
      c_CleanupOnShutdown :=
        env_false (getenv ''OVN_NETWORK_CLEANUP_ON_SHUTDOWN'') (c_CleanupOnShutdown cfg),
      c_DrainOnShutdown :=
        env_false (getenv ''OVN_NETWORK_DRAIN_ON_SHUTDOWN'') (c_DrainOnShutdown cfg),
      c_DrainTimeout := ovr_dur pd (getenv ''OVN_NETWORK_DRAIN_TIMEOUT'') (c_DrainTimeout cfg),
      c_DrainSettleDelay :=
        ovr_dur pd (getenv ''OVN_NETWORK_DRAIN_SETTLE_DELAY'') (c_DrainSettleDelay cfg),
      c_FRRPrefixList := ovr (getenv ''OVN_NETWORK_FRR_PREFIX_LIST'') (c_FRRPrefixList cfg),
      c_StaleChassisGracePeriod := ovr_dur pd
        (getenv ''OVN_NETWORK_STALE_CHASSIS_GRACE_PERIOD'') (c_StaleChassisGracePeriod cfg),
      c_MetricsListen := ovr (getenv ''OVN_NETWORK_METRICS_LISTEN'') (c_MetricsListen cfg),
      c_VethLeakEnabled :=
        env_false (getenv ''OVN_NETWORK_VETH_LEAK_ENABLED'') (c_VethLeakEnabled cfg),
      c_VethProviderIP := ovr (getenv ''OVN_NETWORK_VETH_PROVIDER_IP'') (c_VethProviderIP cfg),
      c_VethLeakTableID :=
        ovr_scan (getenv ''OVN_NETWORK_VETH_LEAK_TABLE_ID'') (c_VethLeakTableID cfg),
      c_VethLeakRulePriority :=
        ovr_scan (getenv ''OVN_NETWORK_VETH_LEAK_RULE_PRIORITY'') (c_VethLeakRulePriority cfg),
      c_PortForwardDev := ovr (getenv ''OVN_NETWORK_PORT_FORWARD_DEV'') (c_PortForwardDev cfg),
      c_PortForwardTableID :=
        ovr_scan (getenv ''OVN_NETWORK_PORT_FORWARD_TABLE_ID'') (c_PortForwardTableID cfg),
      c_PortForwardL3mdevAccept :=
        env_true (getenv ''OVN_NETWORK_PORT_FORWARD_L3MDEV_ACCEPT'') (c_PortForwardL3mdevAccept cfg),
      c_PortForwardCTZone :=
        ovr_scan (getenv ''OVN_NETWORK_PORT_FORWARD_CT_ZONE'') (c_PortForwardCTZone cfg)\<rparr>"

text \<open>The flags that were explicitly set, by name.\<close>

datatype flagval = FStr string | FInt int | FBool bool

definition flag_str :: "(string \<Rightarrow> flagval option) \<Rightarrow> string \<Rightarrow> string \<Rightarrow> string" where
  "flag_str fl n old = (case fl n of Some (FStr s) \<Rightarrow> s | _ \<Rightarrow> old)"

definition flag_int :: "(string \<Rightarrow> flagval option) \<Rightarrow> string \<Rightarrow> int \<Rightarrow> int" where
  "flag_int fl n old = (case fl n of Some (FInt i) \<Rightarrow> i | _ \<Rightarrow> old)"

definition flag_bool :: "(string \<Rightarrow> flagval option) \<Rightarrow> string \<Rightarrow> bool \<Rightarrow> bool" where
  "flag_bool fl n old = (case fl n of Some (FBool b) \<Rightarrow> b | _ \<Rightarrow> old)"

definition flag_dur ::
  "(string \<Rightarrow> int option) \<Rightarrow> (string \<Rightarrow> flagval option) \<Rightarrow> string \<Rightarrow> int \<Rightarrow> int" where
  "flag_dur pd fl n old =
     (case fl n of Some (FStr s) \<Rightarrow> (case pd s of Some d \<Rightarrow> d | None \<Rightarrow> old) | _ \<Rightarrow> old)"

definition applyFlags ::
  "(string \<Rightarrow> int option) \<Rightarrow> (string \<Rightarrow> flagval option) \<Rightarrow> Config \<Rightarrow> Config" where
  "applyFlags pd fl cfg = cfg
     \<lparr>c_OVNSBRemote := flag_str fl ''ovn-sb-remote'' (c_OVNSBRemote cfg),
      c_OVNNBRemote := flag_str fl ''ovn-nb-remote'' (c_OVNNBRemote cfg),
      c_BridgeDev := flag_str fl ''bridge-dev'' (c_BridgeDev cfg),
      c_VRFName := flag_str fl ''vrf-name'' (c_VRFName cfg),
      c_VethNexthop := flag_str fl ''veth-nexthop'' (c_VethNexthop cfg),
      c_NetworkCIDRs := (case fl ''network-cidr'' of
         Some (FStr s) \<Rightarrow> splitAndTrim s CHR '','' | _ \<Rightarrow> c_NetworkCIDRs cfg),
      c_GatewayPort := flag_str fl ''gateway-port'' (c_GatewayPort cfg),
      c_RouteTableID := flag_int fl ''route-table-id'' (c_RouteTableID cfg),
      c_BridgeIP := flag_str fl ''bridge-ip'' (c_BridgeIP cfg),
      c_OVSWrapper := flag_str fl ''ovs-wrapper'' (c_OVSWrapper cfg),
      c_ReconcileInterval := flag_dur pd fl ''reconcile-interval'' (c_ReconcileInterval cfg),
      c_LogLevel := flag_str fl ''log-level'' (c_LogLevel cfg),
      c_DryRun := flag_bool fl ''dry-run'' (c_DryRun cfg),
      c_CleanupOnShutdown := flag_bool fl ''cleanup-on-shutdown'' (c_CleanupOnShutdown cfg),
      c_DrainOnShutdown := flag_bool fl ''drain-on-shutdown'' (c_DrainOnShutdown cfg),
      c_DrainTimeout := flag_dur pd fl ''drain-timeout'' (c_DrainTimeout cfg),
      c_DrainSettleDelay := flag_dur pd fl ''drain-settle-delay'' (c_DrainSettleDelay cfg),
      c_FRRPrefixList := flag_str fl ''frr-prefix-list'' (c_FRRPrefixList cfg),
      c_StaleChassisGracePeriod :=
        flag_dur pd fl ''stale-chassis-grace-period'' (c_StaleChassisGracePeriod cfg),
      c_MetricsListen := flag_str fl ''metrics-listen'' (c_MetricsListen cfg),
      c_VethLeakEnabled := flag_bool fl ''veth-leak-enabled'' (c_VethLeakEnabled cfg),
      c_VethProviderIP := flag_str fl ''veth-provider-ip'' (c_VethProviderIP cfg),
      c_VethLeakTableID := flag_int fl ''veth-leak-table-id'' (c_VethLeakTableID cfg),
      c_VethLeakRulePriority := flag_int fl ''veth-leak-rule-priority'' (c_VethLeakRulePriority cfg),
      c_PortForwardDev := flag_str fl ''port-forward-dev'' (c_PortForwardDev cfg),
      c_PortForwardTableID := flag_int fl ''port-forward-table-id'' (c_PortForwardTableID cfg),
      c_PortForwardL3mdevAccept :=
        flag_bool fl ''port-forward-l3mdev-accept'' (c_PortForwardL3mdevAccept cfg),
      c_PortForwardCTZone := flag_int fl ''port-forward-ct-zone'' (c_PortForwardCTZone cfg)\<rparr>"

section \<open>The fields of each layer\<close>

text \<open>What a layer makes of each field, one equation per field.\<close>

lemma file_fields:
  "c_OVNSBRemote (applyFileConfig pd fc cfg) = ovr (f_OVNSBRemote fc) (c_OVNSBRemote cfg)"
  "c_OVNNBRemote (applyFileConfig pd fc cfg) = ovr (f_OVNNBRemote fc) (c_OVNNBRemote cfg)"
  "c_BridgeDev (applyFileConfig pd fc cfg) = ovr (f_BridgeDev fc) (c_BridgeDev cfg)"
  "c_VRFName (applyFileConfig pd fc cfg) = ovr (f_VRFName fc) (c_VRFName cfg)"
  "c_VethNexthop (applyFileConfig pd fc cfg) = ovr (f_VethNexthop fc) (c_VethNexthop cfg)"
  "c_NetworkCIDRs (applyFileConfig pd fc cfg) = ovr_list (f_NetworkCIDR fc) (c_NetworkCIDRs cfg)"
  "c_GatewayPort (applyFileConfig pd fc cfg) = ovr (f_GatewayPort fc) (c_GatewayPort cfg)"
  "c_BridgeIP (applyFileConfig pd fc cfg) = ovr (f_BridgeIP fc) (c_BridgeIP cfg)"
  "c_OVSWrapper (applyFileConfig pd fc cfg) = ovr (f_OVSWrapper fc) (c_OVSWrapper cfg)"
  "c_RouteTableID (applyFileConfig pd fc cfg) = ovr_ptr (f_RouteTableID fc) (c_RouteTableID cfg)"
  "c_ReconcileInterval (applyFileConfig pd fc cfg) =
     ovr_dur pd (f_ReconcileInterval fc) (c_ReconcileInterval cfg)"
  "c_LogLevel (applyFileConfig pd fc cfg) = ovr (f_LogLevel fc) (c_LogLevel cfg)"
  "c_DryRun (applyFileConfig pd fc cfg) = ovr_ptr (f_DryRun fc) (c_DryRun cfg)"
  "c_CleanupOnShutdown (applyFileConfig pd fc cfg) = ovr_ptr (f_CleanupOnShutdown fc) (c_CleanupOnShutdown cfg)"
  "c_DrainOnShutdown (applyFileConfig pd fc cfg) = ovr_ptr (f_DrainOnShutdown fc) (c_DrainOnShutdown cfg)"
  "c_DrainTimeout (applyFileConfig pd fc cfg) = ovr_dur pd (f_DrainTimeout fc) (c_DrainTimeout cfg)"
  "c_DrainSettleDelay (applyFileConfig pd fc cfg) = ovr_dur pd (f_DrainSettleDelay fc) (c_DrainSettleDelay cfg)"
  "c_FRRPrefixList (applyFileConfig pd fc cfg) = ovr (f_FRRPrefixList fc) (c_FRRPrefixList cfg)"
  "c_StaleChassisGracePeriod (applyFileConfig pd fc cfg) =
     ovr_dur pd (f_StaleChassisGracePeriod fc) (c_StaleChassisGracePeriod cfg)"
  "c_MetricsListen (applyFileConfig pd fc cfg) = ovr (f_MetricsListen fc) (c_MetricsListen cfg)"
  "c_VethLeakEnabled (applyFileConfig pd fc cfg) = ovr_ptr (f_VethLeakEnabled fc) (c_VethLeakEnabled cfg)"
  "c_VethProviderIP (applyFileConfig pd fc cfg) = ovr (f_VethProviderIP fc) (c_VethProviderIP cfg)"
  "c_VethLeakTableID (applyFileConfig pd fc cfg) = ovr_ptr (f_VethLeakTableID fc) (c_VethLeakTableID cfg)"
  "c_VethLeakRulePriority (applyFileConfig pd fc cfg) =
     ovr_ptr (f_VethLeakRulePriority fc) (c_VethLeakRulePriority cfg)"
  "c_PortForwardDev (applyFileConfig pd fc cfg) = ovr (f_PortForwardDev fc) (c_PortForwardDev cfg)"
  "c_PortForwardTableID (applyFileConfig pd fc cfg) =
     ovr_ptr (f_PortForwardTableID fc) (c_PortForwardTableID cfg)"
  "c_PortForwardL3mdevAccept (applyFileConfig pd fc cfg) =
     ovr_ptr (f_PortForwardL3mdevAccept fc) (c_PortForwardL3mdevAccept cfg)"
  "c_PortForwardCTZone (applyFileConfig pd fc cfg) = ovr_ptr (f_PortForwardCTZone fc) (c_PortForwardCTZone cfg)"
  "c_PortForwards (applyFileConfig pd fc cfg) = ovr_list (f_PortForwards fc) (c_PortForwards cfg)"
  by (simp_all add: applyFileConfig_def)

lemma env_fields:
  "c_OVNSBRemote (applyEnvConfig pd getenv cfg) = ovr (getenv ''OVN_NETWORK_OVN_SB_REMOTE'') (c_OVNSBRemote cfg)"
  "c_OVNNBRemote (applyEnvConfig pd getenv cfg) = ovr (getenv ''OVN_NETWORK_OVN_NB_REMOTE'') (c_OVNNBRemote cfg)"
  "c_BridgeDev (applyEnvConfig pd getenv cfg) = ovr (getenv ''OVN_NETWORK_BRIDGE_DEV'') (c_BridgeDev cfg)"
  "c_VRFName (applyEnvConfig pd getenv cfg) = ovr (getenv ''OVN_NETWORK_VRF_NAME'') (c_VRFName cfg)"
  "c_VethNexthop (applyEnvConfig pd getenv cfg) = ovr (getenv ''OVN_NETWORK_VETH_NEXTHOP'') (c_VethNexthop cfg)"
  "c_NetworkCIDRs (applyEnvConfig pd getenv cfg) =
     (let v = getenv ''OVN_NETWORK_NETWORK_CIDR'' in if v \<noteq> [] then splitAndTrim v CHR '','' else c_NetworkCIDRs cfg)"
  "c_GatewayPort (applyEnvConfig pd getenv cfg) = ovr (getenv ''OVN_NETWORK_GATEWAY_PORT'') (c_GatewayPort cfg)"
  "c_BridgeIP (applyEnvConfig pd getenv cfg) = ovr (getenv ''OVN_NETWORK_BRIDGE_IP'') (c_BridgeIP cfg)"
  "c_OVSWrapper (applyEnvConfig pd getenv cfg) = ovr (getenv ''OVN_NETWORK_OVS_WRAPPER'') (c_OVSWrapper cfg)"
  "c_RouteTableID (applyEnvConfig pd getenv cfg) =
     ovr_scan (getenv ''OVN_NETWORK_ROUTE_TABLE_ID'') (c_RouteTableID cfg)"
  "c_ReconcileInterval (applyEnvConfig pd getenv cfg) =
     ovr_dur pd (getenv ''OVN_NETWORK_RECONCILE_INTERVAL'') (c_ReconcileInterval cfg)"
  "c_LogLevel (applyEnvConfig pd getenv cfg) = ovr (getenv ''OVN_NETWORK_LOG_LEVEL'') (c_LogLevel cfg)"
  "c_DryRun (applyEnvConfig pd getenv cfg) = env_true (getenv ''OVN_NETWORK_DRY_RUN'') (c_DryRun cfg)"
  "c_CleanupOnShutdown (applyEnvConfig pd getenv cfg) =
     env_false (getenv ''OVN_NETWORK_CLEANUP_ON_SHUTDOWN'') (c_CleanupOnShutdown cfg)"
  "c_DrainOnShutdown (applyEnvConfig pd getenv cfg) =
     env_false (getenv ''OVN_NETWORK_DRAIN_ON_SHUTDOWN'') (c_DrainOnShutdown cfg)"
  "c_DrainTimeout (applyEnvConfig pd getenv cfg) =
     ovr_dur pd (getenv ''OVN_NETWORK_DRAIN_TIMEOUT'') (c_DrainTimeout cfg)"
  "c_DrainSettleDelay (applyEnvConfig pd getenv cfg) =
     ovr_dur pd (getenv ''OVN_NETWORK_DRAIN_SETTLE_DELAY'') (c_DrainSettleDelay cfg)"
  "c_FRRPrefixList (applyEnvConfig pd getenv cfg) =
     ovr (getenv ''OVN_NETWORK_FRR_PREFIX_LIST'') (c_FRRPrefixList cfg)"
  "c_StaleChassisGracePeriod (applyEnvConfig pd getenv cfg) =
     ovr_dur pd (getenv ''OVN_NETWORK_STALE_CHASSIS_GRACE_PERIOD'') (c_StaleChassisGracePeriod cfg)"
  "c_MetricsListen (applyEnvConfig pd getenv cfg) =
     ovr (getenv ''OVN_NETWORK_METRICS_LISTEN'') (c_MetricsListen cfg)"
  "c_VethLeakEnabled (applyEnvConfig pd getenv cfg) =
     env_false (getenv ''OVN_NETWORK_VETH_LEAK_ENABLED'') (c_VethLeakEnabled cfg)"
  "c_VethProviderIP (applyEnvConfig pd getenv cfg) =
     ovr (getenv ''OVN_NETWORK_VETH_PROVIDER_IP'') (c_VethProviderIP cfg)"
  "c_VethLeakTableID (applyEnvConfig pd getenv cfg) =
     ovr_scan (getenv ''OVN_NETWORK_VETH_LEAK_TABLE_ID'') (c_VethLeakTableID cfg)"
  "c_VethLeakRulePriority (applyEnvConfig pd getenv cfg) =
     ovr_scan (getenv ''OVN_NETWORK_VETH_LEAK_RULE_PRIORITY'') (c_VethLeakRulePriority cfg)"
  "c_PortForwardDev (applyEnvConfig pd getenv cfg) =
     ovr (getenv ''OVN_NETWORK_PORT_FORWARD_DEV'') (c_PortForwardDev cfg)"
  "c_PortForwardTableID (applyEnvConfig pd getenv cfg) =
     ovr_scan (getenv ''OVN_NETWORK_PORT_FORWARD_TABLE_ID'') (c_PortForwardTableID cfg)"
  "c_PortForwardL3mdevAccept (applyEnvConfig pd getenv cfg) =
     env_true (getenv ''OVN_NETWORK_PORT_FORWARD_L3MDEV_ACCEPT'') (c_PortForwardL3mdevAccept cfg)"
  "c_PortForwardCTZone (applyEnvConfig pd getenv cfg) =
     ovr_scan (getenv ''OVN_NETWORK_PORT_FORWARD_CT_ZONE'') (c_PortForwardCTZone cfg)"
  by (simp_all add: applyEnvConfig_def)

lemma flag_fields:
  "c_OVNSBRemote (applyFlags pd fl cfg) = flag_str fl ''ovn-sb-remote'' (c_OVNSBRemote cfg)"
  "c_OVNNBRemote (applyFlags pd fl cfg) = flag_str fl ''ovn-nb-remote'' (c_OVNNBRemote cfg)"
  "c_BridgeDev (applyFlags pd fl cfg) = flag_str fl ''bridge-dev'' (c_BridgeDev cfg)"
  "c_VRFName (applyFlags pd fl cfg) = flag_str fl ''vrf-name'' (c_VRFName cfg)"
  "c_VethNexthop (applyFlags pd fl cfg) = flag_str fl ''veth-nexthop'' (c_VethNexthop cfg)"
  "c_NetworkCIDRs (applyFlags pd fl cfg) =
     (case fl ''network-cidr'' of Some (FStr s) \<Rightarrow> splitAndTrim s CHR '','' | _ \<Rightarrow> c_NetworkCIDRs cfg)"
  "c_GatewayPort (applyFlags pd fl cfg) = flag_str fl ''gateway-port'' (c_GatewayPort cfg)"
  "c_RouteTableID (applyFlags pd fl cfg) = flag_int fl ''route-table-id'' (c_RouteTableID cfg)"
  "c_BridgeIP (applyFlags pd fl cfg) = flag_str fl ''bridge-ip'' (c_BridgeIP cfg)"
  "c_OVSWrapper (applyFlags pd fl cfg) = flag_str fl ''ovs-wrapper'' (c_OVSWrapper cfg)"
  "c_ReconcileInterval (applyFlags pd fl cfg) =
     flag_dur pd fl ''reconcile-interval'' (c_ReconcileInterval cfg)"
  "c_LogLevel (applyFlags pd fl cfg) = flag_str fl ''log-level'' (c_LogLevel cfg)"
  "c_DryRun (applyFlags pd fl cfg) = flag_bool fl ''dry-run'' (c_DryRun cfg)"
  "c_CleanupOnShutdown (applyFlags pd fl cfg) =
     flag_bool fl ''cleanup-on-shutdown'' (c_CleanupOnShutdown cfg)"
  "c_DrainOnShutdown (applyFlags pd fl cfg) = flag_bool fl ''drain-on-shutdown'' (c_DrainOnShutdown cfg)"
  "c_DrainTimeout (applyFlags pd fl cfg) = flag_dur pd fl ''drain-timeout'' (c_DrainTimeout cfg)"
  "c_DrainSettleDelay (applyFlags pd fl cfg) =
     flag_dur pd fl ''drain-settle-delay'' (c_DrainSettleDelay cfg)"
  "c_FRRPrefixList (applyFlags pd fl cfg) = flag_str fl ''frr-prefix-list'' (c_FRRPrefixList cfg)"
  "c_StaleChassisGracePeriod (applyFlags pd fl cfg) =
     flag_dur pd fl ''stale-chassis-grace-period'' (c_StaleChassisGracePeriod cfg)"
  "c_MetricsListen (applyFlags pd fl cfg) = flag_str fl ''metrics-listen'' (c_MetricsListen cfg)"
  "c_VethLeakEnabled (applyFlags pd fl cfg) = flag_bool fl ''veth-leak-enabled'' (c_VethLeakEnabled cfg)"
  "c_VethProviderIP (applyFlags pd fl cfg) = flag_str fl ''veth-provider-ip'' (c_VethProviderIP cfg)"
  "c_VethLeakTableID (applyFlags pd fl cfg) = flag_int fl ''veth-leak-table-id'' (c_VethLeakTableID cfg)"
  "c_VethLeakRulePriority (applyFlags pd fl cfg) =
     flag_int fl ''veth-leak-rule-priority'' (c_VethLeakRulePriority cfg)"
  "c_PortForwardDev (applyFlags pd fl cfg) = flag_str fl ''port-forward-dev'' (c_PortForwardDev cfg)"
  "c_PortForwardTableID (applyFlags pd fl cfg) =
     flag_int fl ''port-forward-table-id'' (c_PortForwardTableID cfg)"
  "c_PortForwardL3mdevAccept (applyFlags pd fl cfg) =
     flag_bool fl ''port-forward-l3mdev-accept'' (c_PortForwardL3mdevAccept cfg)"
  "c_PortForwardCTZone (applyFlags pd fl cfg) =
     flag_int fl ''port-forward-ct-zone'' (c_PortForwardCTZone cfg)"
  by (simp_all add: applyFlags_def)

lemmas layer_fields = file_fields env_fields flag_fields

end
