(* ===== verification/OvnState.thy ===== *)
theory OvnState
  imports Cache Config
begin

text \<open>
  The agent's view of OVN (\<open>ovn.go\<close>): \<open>refreshState\<close> computes, from the five tables it
  lists, which routers are active on this chassis, their NAT addresses, the MAC behind each
  address and the networks of their gateway ports. The function is split at its listing
  calls and loops; \<open>computeState\<close> composes the pure stages, \<open>refreshState\<close> the listings.
\<close>

section \<open>State\<close>

record LocalRouterInfo =
  ri_RouterName :: string
  ri_RouterUUID :: string
  ri_LRPName :: string
  ri_LRPUUID :: string
  ri_LRPMAC :: string
  ri_LRPNetworks :: "string list"
  ri_CRPort :: string

record OVNState =
  s_LocalChassisName :: string
  s_LocalRouters :: "LocalRouterInfo list"
  s_HasLocalRouters :: bool
  s_FIPs :: "string list"
  s_SNATIPs :: "string list"
  s_NATIPToRouterMAC :: "(string, string) gomap"
  s_DiscoveredNetworks :: "ipnet list"
  s_AllChassisNames :: "string list"

definition newOVNState :: OVNState where
  "newOVNState = \<lparr>s_LocalChassisName = [], s_LocalRouters = [], s_HasLocalRouters = False,
     s_FIPs = [], s_SNATIPs = [], s_NATIPToRouterMAC = [], s_DiscoveredNetworks = [],
     s_AllChassisNames = []\<rparr>"

section \<open>Helpers\<close>

definition ovsdbEndpoints :: "string \<Rightarrow> string list" where
  "ovsdbEndpoints remote = filter (\<lambda>p. p \<noteq> []) (map TrimSpace (Split CHR '','' remote))"

definition uniqueNetworks :: "ipnet list \<Rightarrow> ipnet list" where
  "uniqueNetworks nets = sort_key netString (dedup_by netString [] nets)"

definition is_resident_marker :: "string \<Rightarrow> bool" where
  "is_resident_marker f = HasPrefix f ''is_chassis_resident''"

definition parseNatAddressIPs :: "string \<Rightarrow> string list" where
  "parseNatAddressIPs natAddr =
     (let fields = Fields natAddr in
      if length fields < 2 then []
      else filter (\<lambda>f. ParseIP f \<noteq> None) (takeWhile (\<lambda>f. \<not> is_resident_marker f) (tl fields)))"

definition getHostname :: "string result \<Rightarrow> string result" where
  "getHostname osHostname =
     (case osHostname of Inl e \<Rightarrow> Inl e | Inr h \<Rightarrow> Inr (takeWhile (\<lambda>c. c \<noteq> CHR ''.'') h))"

text \<open>Reading a Go map of strings: a missing key reads as the empty string.\<close>

definition str_at :: "(string, string) gomap \<Rightarrow> string \<Rightarrow> string" where
  "str_at m k = (case map_of m k of Some v \<Rightarrow> v | None \<Rightarrow> [])"

section \<open>The stages of refreshState\<close>

definition chassisHostnames :: "SBChassis list \<Rightarrow> (string, string) gomap" where
  "chassisHostnames chs =
     upd_all (concat (map (\<lambda>ch. [(ch_UUID ch, ch_Hostname ch), (ch_Name ch, ch_Hostname ch)]) chs)) []"

definition allChassisNames :: "SBChassis list \<Rightarrow> string list" where
  "allChassisNames chs = dedup_by (\<lambda>h. h) [] (map ch_Hostname chs)"

text \<open>The chassisredirect ports of this chassis: LRP name to logical port.\<close>

definition boundLocally :: "string \<Rightarrow> string \<Rightarrow> (string, string) gomap \<Rightarrow> SBPortBinding \<Rightarrow> bool" where
  "boundLocally gatewayPort local hostnames pb \<longleftrightarrow>
     pb_Type pb = ''chassisredirect''
     \<and> (case pb_Chassis pb of None \<Rightarrow> False | Some c \<Rightarrow>
          c \<noteq> [] \<and> (gatewayPort = [] \<or> pb_LogicalPort pb = gatewayPort) \<and> str_at hostnames c = local)"

definition localLRPNames ::
  "string \<Rightarrow> string \<Rightarrow> (string, string) gomap \<Rightarrow> SBPortBinding list \<Rightarrow> (string, string) gomap" where
  "localLRPNames gatewayPort local hostnames pbs =
     upd_all (map (\<lambda>pb. (TrimPrefix (pb_LogicalPort pb) ''cr-'', pb_LogicalPort pb))
       (filter (boundLocally gatewayPort local hostnames) pbs)) []"

definition lrpNameToUUID :: "NBLogicalRouterPort list \<Rightarrow> (string, string) gomap" where
  "lrpNameToUUID lrps = upd_all (map (\<lambda>p. (lrp_Name p, lrp_UUID p)) lrps) []"

definition lrpByUUID :: "NBLogicalRouterPort list \<Rightarrow> (string, NBLogicalRouterPort) gomap" where
  "lrpByUUID lrps = upd_all (map (\<lambda>p. (lrp_UUID p, p)) lrps) []"

definition lrpNameToMAC :: "NBLogicalRouterPort list \<Rightarrow> (string, string) gomap" where
  "lrpNameToMAC lrps = upd_all (map (\<lambda>p. (lrp_Name p, lrp_MAC p)) lrps) []"

definition localLRPUUIDs :: "(string, string) gomap \<Rightarrow> (string, string) gomap \<Rightarrow> string list" where
  "localLRPUUIDs names nameToUUID = List.map_filter (map_of nameToUUID) (map_keys names)"

definition zeroLRP :: NBLogicalRouterPort where
  "zeroLRP = \<lparr>lrp_UUID = [], lrp_Name = [], lrp_MAC = [], lrp_Networks = []\<rparr>"

text \<open>The first port of the router that is locally active.\<close>

definition matchedLRP ::
  "string list \<Rightarrow> (string, NBLogicalRouterPort) gomap \<Rightarrow> NBLogicalRouter \<Rightarrow> NBLogicalRouterPort option" where
  "matchedLRP uuids byUUID router =
     (case find (\<lambda>u. has uuids u) (lr_Ports router) of
        None \<Rightarrow> None
      | Some u \<Rightarrow> Some (case map_of byUUID u of Some p \<Rightarrow> p | None \<Rightarrow> zeroLRP))"

definition routerInfo ::
  "(string, string) gomap \<Rightarrow> NBLogicalRouter \<Rightarrow> NBLogicalRouterPort \<Rightarrow> LocalRouterInfo" where
  "routerInfo names router p = \<lparr>ri_RouterName = lr_Name router, ri_RouterUUID = lr_UUID router,
     ri_LRPName = lrp_Name p, ri_LRPUUID = lrp_UUID p, ri_LRPMAC = lrp_MAC p,
     ri_LRPNetworks = lrp_Networks p, ri_CRPort = str_at names (lrp_Name p)\<rparr>"

text \<open>The loop over the routers fills the list of local routers and the MAC of each NAT row.\<close>

fun scanRouters ::
  "(string, string) gomap \<Rightarrow> string list \<Rightarrow> (string, NBLogicalRouterPort) gomap \<Rightarrow>
   NBLogicalRouter list \<Rightarrow> LocalRouterInfo list \<times> (string, string) gomap \<Rightarrow>
   LocalRouterInfo list \<times> (string, string) gomap" where
  "scanRouters names uuids byUUID [] acc = acc"
| "scanRouters names uuids byUUID (router # routers) (infos, macs) =
     (case matchedLRP uuids byUUID router of
        None \<Rightarrow> scanRouters names uuids byUUID routers (infos, macs)
      | Some p \<Rightarrow> scanRouters names uuids byUUID routers
          (infos @ [routerInfo names router p],
           if lrp_MAC p \<noteq> [] then upd_all (map (\<lambda>n. (n, lrp_MAC p)) (lr_Nat router)) macs else macs))"

definition discoverNetworks :: "LocalRouterInfo list \<Rightarrow> ipnet list" where
  "discoverNetworks routers =
     uniqueNetworks (List.map_filter (\<lambda>ns. map_option snd (ParseCIDR ns))
       (concat (map ri_LRPNetworks routers)))"

text \<open>The filter on addresses: none, or containment of a parsable address.\<close>

definition passesFilters :: "ipnet list \<Rightarrow> string \<Rightarrow> bool" where
  "passesFilters filters s =
     (if filters \<noteq> []
      then (case ParseIP s of None \<Rightarrow> False | Some a \<Rightarrow> containedInAny a filters) else True)"

type_synonym natacc = "string list \<times> string list \<times> (string, string) gomap"

fun scanNATs :: "(string, string) gomap \<Rightarrow> ipnet list \<Rightarrow> NBNAT list \<Rightarrow> natacc \<Rightarrow> natacc" where
  "scanNATs macs filters [] acc = acc"
| "scanNATs macs filters (n # natrows) (fips, snats, ipmac) =
     (case map_of macs (nat_UUID n) of
        None \<Rightarrow> scanNATs macs filters natrows (fips, snats, ipmac)
      | Some mac \<Rightarrow>
          if \<not> passesFilters filters (nat_ExternalIP n)
          then scanNATs macs filters natrows (fips, snats, ipmac)
          else scanNATs macs filters natrows
            (if nat_Type n = ''dnat_and_snat'' then fips @ [nat_ExternalIP n] else fips,
             if nat_Type n = ''snat'' then snats @ [nat_ExternalIP n] else snats,
             AList.update (nat_ExternalIP n) mac ipmac))"

text \<open>Step 5b: the addresses a local gateway patch port announces.\<close>

definition gatewayPatch :: "(string, string) gomap \<Rightarrow> SBPortBinding \<Rightarrow> bool" where
  "gatewayPatch names pb \<longleftrightarrow>
     pb_Type pb = ''patch'' \<and> mget (pb_Options pb) ''peer'' \<noteq> []
     \<and> map_of names (mget (pb_Options pb) ''peer'') \<noteq> None
     \<and> mget (pb_ExternalIDs pb) ''neutron:device_owner'' = ''network:router_gateway''"

definition announcedIPs :: "ipnet list \<Rightarrow> SBPortBinding \<Rightarrow> string list" where
  "announcedIPs filters pb =
     filter (passesFilters filters) (concat (map parseNatAddressIPs (pb_NatAddresses pb)))"

fun scanPatchPorts ::
  "(string, string) gomap \<Rightarrow> (string, string) gomap \<Rightarrow> ipnet list \<Rightarrow> SBPortBinding list \<Rightarrow>
   string list \<times> (string, string) gomap \<Rightarrow> string list \<times> (string, string) gomap" where
  "scanPatchPorts names nameToMAC filters [] acc = acc"
| "scanPatchPorts names nameToMAC filters (pb # pbs) (snats, ipmac) =
     (if \<not> gatewayPatch names pb then scanPatchPorts names nameToMAC filters pbs (snats, ipmac)
      else
        let mac = str_at nameToMAC (mget (pb_Options pb) ''peer''); ips = announcedIPs filters pb
        in scanPatchPorts names nameToMAC filters pbs
             (snats @ ips, if mac \<noteq> [] then upd_all (map (\<lambda>i. (i, mac)) ips) ipmac else ipmac))"

definition computeState ::
  "Config \<Rightarrow> SBPortBinding list \<Rightarrow> SBChassis list \<Rightarrow> NBLogicalRouterPort list \<Rightarrow>
   NBLogicalRouter list \<Rightarrow> NBNAT list \<Rightarrow> OVNState \<Rightarrow> OVNState" where
  "computeState cfg pbs chs lrps routers natrows st =
     (let names = localLRPNames (c_GatewayPort cfg) (s_LocalChassisName st) (chassisHostnames chs) pbs;
          (infos, macs) = scanRouters names (localLRPUUIDs names (lrpNameToUUID lrps))
            (lrpByUUID lrps) routers ([], []);
          nets = discoverNetworks infos;
          filters = effectiveNetworkFilters (c_NetworkFilters cfg) nets;
          (fips, snats0, ipmac0) = scanNATs macs filters natrows ([], [], []);
          (snats, ipmac) = scanPatchPorts names (lrpNameToMAC lrps) filters pbs (snats0, ipmac0)
      in st\<lparr>s_LocalRouters := infos, s_HasLocalRouters := (length infos > 0), s_FIPs := fips,
            s_SNATIPs := snats, s_NATIPToRouterMAC := ipmac, s_DiscoveredNetworks := nets,
            s_AllChassisNames := allChassisNames chs\<rparr>)"

text \<open>The listings, in order; the first failure leaves the state as it is.\<close>

definition refreshState :: "Config \<Rightarrow> 's ovnenv \<Rightarrow> OVNState \<Rightarrow> ('s, OVNState) io" where
  "refreshState cfg E st =
     do { r1 \<leftarrow> listPortBindings E;
          case r1 of Inl e \<Rightarrow> ret st | Inr pbs \<Rightarrow>
     do { r2 \<leftarrow> listChassis E;
          case r2 of Inl e \<Rightarrow> ret st | Inr chs \<Rightarrow>
     do { r3 \<leftarrow> listRouterPorts E;
          case r3 of Inl e \<Rightarrow> ret st | Inr lrps \<Rightarrow>
     do { r4 \<leftarrow> listRouters E;
          case r4 of Inl e \<Rightarrow> ret st | Inr routers \<Rightarrow>
     do { r5 \<leftarrow> listNATs E;
          case r5 of Inl e \<Rightarrow> ret st | Inr natrows \<Rightarrow>
          ret (computeState cfg pbs chs lrps routers natrows st) } } } } }"

text \<open>A snapshot is a copy of every field.\<close>

definition GetState :: "OVNState \<Rightarrow> OVNState" where
  "GetState st = \<lparr>s_LocalChassisName = s_LocalChassisName st, s_LocalRouters = s_LocalRouters st,
     s_HasLocalRouters = s_HasLocalRouters st, s_FIPs = s_FIPs st, s_SNATIPs = s_SNATIPs st,
     s_NATIPToRouterMAC = s_NATIPToRouterMAC st, s_DiscoveredNetworks = s_DiscoveredNetworks st,
     s_AllChassisNames = s_AllChassisNames st\<rparr>"

section \<open>Closed forms of the loops\<close>

lemma map_of_upd_all_distinct:
  assumes "distinct (map fst kvs)"
  shows "map_of (upd_all kvs []) = map_of kvs"
proof -
  have d: "distinct (map fst (rev kvs))" using assms by (simp add: rev_map [symmetric])
  have "map_of (rev kvs) k = Some v \<longleftrightarrow> map_of kvs k = Some v" for k v
    using assms d by (auto intro: map_of_is_SomeI dest: map_of_SomeD)
  then have "map_of (rev kvs) = map_of kvs" by (metis map_of_eqI not_Some_eq ext)
  then show ?thesis by (simp add: map_of_upd_all)
qed

lemma map_of_upd_all_None: "map_of (upd_all kvs m) k = None \<longleftrightarrow> k \<notin> fst ` set kvs \<and> map_of m k = None"
  by (auto simp: map_of_eq_None_iff upd_all_keys)

lemma set_map_filter: "set (List.map_filter f xs) = {y. \<exists>x\<in>set xs. f x = Some y}"
  by (induction xs) (auto simp: map_filter_simps split: option.splits)

lemma scanRouters_infos:
  "fst (scanRouters names uuids byUUID rs acc) = fst acc @
     List.map_filter (\<lambda>r. map_option (routerInfo names r) (matchedLRP uuids byUUID r)) rs"
  by (induction names uuids byUUID rs acc rule: scanRouters.induct)
    (auto simp: map_filter_simps split: option.splits)

definition feeds :: "(NBLogicalRouter \<Rightarrow> NBLogicalRouterPort option) \<Rightarrow> NBLogicalRouter list \<Rightarrow> string \<Rightarrow> string \<Rightarrow> bool" where
  "feeds port rs n mac \<longleftrightarrow>
     (\<exists>r\<in>set rs. \<exists>p. port r = Some p \<and> lrp_MAC p = mac \<and> mac \<noteq> [] \<and> n \<in> set (lr_Nat r))"

lemma scanRouters_mac_None:
  "map_of (snd (scanRouters names uuids byUUID rs acc)) n = None \<longleftrightarrow>
     map_of (snd acc) n = None \<and> \<not> (\<exists>mac. feeds (matchedLRP uuids byUUID) rs n mac)"
  by (induction names uuids byUUID rs acc rule: scanRouters.induct)
    (auto simp: feeds_def map_of_upd_all_None image_iff split: option.splits)

lemma scanRouters_mac_Some:
  "map_of (snd (scanRouters names uuids byUUID rs acc)) n = Some mac \<Longrightarrow>
     map_of (snd acc) n = Some mac \<or> feeds (matchedLRP uuids byUUID) rs n mac"
proof (induction names uuids byUUID rs acc rule: scanRouters.induct)
  case (2 names uuids byUUID r rs infos macs)
  show ?case
  proof (cases "matchedLRP uuids byUUID r")
    case None
    with 2 show ?thesis by (auto simp: feeds_def)
  next
    case (Some p)
    with 2 show ?thesis
      by (auto simp: feeds_def split: if_splits dest!: map_of_upd_all_SomeD)
  qed
qed simp

definition keptNATs :: "(string, string) gomap \<Rightarrow> ipnet list \<Rightarrow> NBNAT list \<Rightarrow> NBNAT list" where
  "keptNATs macs filters ns =
     filter (\<lambda>n. map_of macs (nat_UUID n) \<noteq> None \<and> passesFilters filters (nat_ExternalIP n)) ns"

lemma scanNATs_eq:
  "scanNATs macs filters ns (fips, snats, ipmac) =
     (fips @ map nat_ExternalIP (filter (\<lambda>n. nat_Type n = ''dnat_and_snat'') (keptNATs macs filters ns)),
      snats @ map nat_ExternalIP (filter (\<lambda>n. nat_Type n = ''snat'') (keptNATs macs filters ns)),
      upd_all (map (\<lambda>n. (nat_ExternalIP n, the (map_of macs (nat_UUID n)))) (keptNATs macs filters ns)) ipmac)"
  by (induction ns arbitrary: fips snats ipmac) (auto simp: keptNATs_def split: option.splits)

lemma scanPatchPorts_ips:
  "fst (scanPatchPorts names macs filters pbs acc) =
     fst acc @ concat (map (announcedIPs filters) (filter (gatewayPatch names) pbs))"
  by (induction names macs filters pbs acc rule: scanPatchPorts.induct) (auto simp: Let_def)

lemma scanPatchPorts_mac_Some:
  "map_of (snd (scanPatchPorts names macs filters pbs acc)) ip = Some mac \<Longrightarrow>
     map_of (snd acc) ip = Some mac \<or>
     (mac \<noteq> [] \<and> (\<exists>peer. map_of names peer \<noteq> None \<and> str_at macs peer = mac))"
proof (induction names macs filters pbs acc rule: scanPatchPorts.induct)
  case (2 names macs filters pb pbs snats ipmac)
  show ?case
  proof (cases "gatewayPatch names pb")
    case False
    with 2 show ?thesis by simp
  next
    case True
    let ?mac = "str_at macs (mget (pb_Options pb) ''peer'')"
    have peer: "map_of names (mget (pb_Options pb) ''peer'') \<noteq> None"
      using True by (simp add: gatewayPatch_def)
    have "map_of (if ?mac \<noteq> [] then upd_all (map (\<lambda>i. (i, ?mac)) (announcedIPs filters pb)) ipmac
        else ipmac) ip = Some mac \<or> (mac \<noteq> [] \<and> (\<exists>peer. map_of names peer \<noteq> None \<and> str_at macs peer = mac))"
      using 2(2) [OF _ refl refl] 2(3) True by (simp add: Let_def)
    then show ?thesis
      using peer by (auto split: if_splits dest!: map_of_upd_all_SomeD)
  qed
qed simp

lemma scanPatchPorts_mac_keep:
  "map_of (snd acc) ip \<noteq> None \<Longrightarrow> map_of (snd (scanPatchPorts names macs filters pbs acc)) ip \<noteq> None"
proof (induction names macs filters pbs acc rule: scanPatchPorts.induct)
  case (2 names macs filters pb pbs snats ipmac)
  have "map_of (upd_all kvs ipmac) ip \<noteq> None" for kvs
    using 2(3) by (simp add: map_of_upd_all_None del: not_None_eq)
  with 2 show ?case by (simp add: Let_def del: not_None_eq)
qed simp

section \<open>Which routers are active here\<close>

definition activeNames :: "Config \<Rightarrow> OVNState \<Rightarrow> SBChassis list \<Rightarrow> SBPortBinding list \<Rightarrow> string set" where
  "activeNames cfg st chs pbs = (\<lambda>pb. TrimPrefix (pb_LogicalPort pb) ''cr-'') `
     {pb \<in> set pbs. boundLocally (c_GatewayPort cfg) (s_LocalChassisName st) (chassisHostnames chs) pb}"

lemma localLRPNames_keys:
  "fst ` set (localLRPNames (c_GatewayPort cfg) (s_LocalChassisName st) (chassisHostnames chs) pbs) =
     activeNames cfg st chs pbs"
  by (simp add: localLRPNames_def upd_all_keys activeNames_def image_image)

definition lrps_wf :: "NBLogicalRouterPort list \<Rightarrow> bool" where
  "lrps_wf lrps \<longleftrightarrow> distinct (map lrp_Name lrps) \<and> distinct (map lrp_UUID lrps)"

lemma lrp_maps:
  assumes "lrps_wf lrps"
  shows "map_of (lrpNameToUUID lrps) = map_of (map (\<lambda>p. (lrp_Name p, lrp_UUID p)) lrps)"
    and "map_of (lrpByUUID lrps) = map_of (map (\<lambda>p. (lrp_UUID p, p)) lrps)"
    and "map_of (lrpNameToMAC lrps) = map_of (map (\<lambda>p. (lrp_Name p, lrp_MAC p)) lrps)"
  using assms
  by (simp_all add: lrps_wf_def lrpNameToUUID_def lrpByUUID_def lrpNameToMAC_def
      map_of_upd_all_distinct comp_def)

lemma map_of_key:
  assumes "distinct (map k xs)" "x \<in> set xs"
  shows "map_of (map (\<lambda>x. (k x, f x)) xs) (k x) = Some (f x)"
  using assms by (intro map_of_is_SomeI) (auto simp: comp_def)

lemma map_of_keyD: "map_of (map (\<lambda>x. (k x, f x)) xs) c = Some v \<Longrightarrow> \<exists>x\<in>set xs. k x = c \<and> f x = v"
  by (auto dest!: map_of_SomeD)

text \<open>The port that makes a router active: the first of its ports whose name is active.\<close>

definition gatewayPortOf :: "NBLogicalRouterPort list \<Rightarrow> string set \<Rightarrow> NBLogicalRouter \<Rightarrow> NBLogicalRouterPort option" where
  "gatewayPortOf lrps names r =
     Option.bind (find (\<lambda>u. \<exists>p\<in>set lrps. lrp_UUID p = u \<and> lrp_Name p \<in> names) (lr_Ports r))
       (\<lambda>u. find (\<lambda>p. lrp_UUID p = u) lrps)"

lemma localLRPUUIDs_set:
  assumes "lrps_wf lrps"
  shows "u \<in> set (localLRPUUIDs names (lrpNameToUUID lrps)) \<longleftrightarrow>
    (\<exists>p\<in>set lrps. lrp_UUID p = u \<and> lrp_Name p \<in> fst ` set names)"
proof -
  have d: "distinct (map lrp_Name lrps)" using assms by (simp add: lrps_wf_def)
  have "map_of (map (\<lambda>p. (lrp_Name p, lrp_UUID p)) lrps) n = Some u \<longleftrightarrow>
      (\<exists>p\<in>set lrps. lrp_UUID p = u \<and> lrp_Name p = n)" for n
    using map_of_key [OF d, of _ lrp_UUID] by (auto dest: map_of_keyD)
  then show ?thesis
    unfolding localLRPUUIDs_def lrp_maps [OF assms] set_map_filter map_keys_def by auto
qed

lemma find_map_of: "map_of (map (\<lambda>p. (k p, p)) xs) u = find (\<lambda>p. k p = u) xs"
  by (induction xs) auto

lemma matchedLRP_spec:
  assumes "lrps_wf lrps"
  shows "matchedLRP (localLRPUUIDs names (lrpNameToUUID lrps)) (lrpByUUID lrps) r =
    gatewayPortOf lrps (fst ` set names) r"
proof -
  let ?act = "\<lambda>u. \<exists>p\<in>set lrps. lrp_UUID p = u \<and> lrp_Name p \<in> fst ` set names"
  have eq: "find (\<lambda>u. u \<in> set (localLRPUUIDs names (lrpNameToUUID lrps))) (lr_Ports r) = find ?act (lr_Ports r)"
    by (simp add: localLRPUUIDs_set [OF assms])
  show ?thesis
  proof (cases "find ?act (lr_Ports r)")
    case None
    then show ?thesis by (simp add: matchedLRP_def eq gatewayPortOf_def)
  next
    case (Some u)
    then have "?act u" by (auto simp: find_Some_iff)
    then obtain p where "find (\<lambda>p. lrp_UUID p = u) lrps = Some p"
      by (metis (mono_tags, lifting) find_None_iff not_None_eq)
    with Some show ?thesis
      by (simp add: matchedLRP_def eq gatewayPortOf_def lrp_maps [OF assms] find_map_of)
  qed
qed

lemma gatewayPortOf_SomeD:
  "gatewayPortOf lrps names r = Some p \<Longrightarrow> lrps_wf lrps \<Longrightarrow>
   p \<in> set lrps \<and> lrp_Name p \<in> names \<and> lrp_UUID p \<in> set (lr_Ports r)"
  by (auto simp: gatewayPortOf_def bind_eq_Some_conv find_Some_iff lrps_wf_def
      distinct_conv_nth) (metis in_set_conv_nth nth_map length_map)+

section \<open>What the computed state holds\<close>

text \<open>The MAC with which the NAT row of a router active here is reached, if there is one.\<close>

definition owned :: "NBLogicalRouterPort list \<Rightarrow> string set \<Rightarrow> NBLogicalRouter list \<Rightarrow> NBNAT \<Rightarrow> bool" where
  "owned lrps names routers n \<longleftrightarrow> (\<exists>mac. feeds (gatewayPortOf lrps names) routers (nat_UUID n) mac)"

definition filtersOf :: "Config \<Rightarrow> OVNState \<Rightarrow> ipnet list" where
  "filtersOf cfg st = effectiveNetworkFilters (c_NetworkFilters cfg) (s_DiscoveredNetworks st)"

lemma computeState_parts:
  fixes cfg pbs chs lrps routers natrows st
  defines "names \<equiv> localLRPNames (c_GatewayPort cfg) (s_LocalChassisName st) (chassisHostnames chs) pbs"
    and "st' \<equiv> computeState cfg pbs chs lrps routers natrows st"
  defines "scan \<equiv> scanRouters names (localLRPUUIDs names (lrpNameToUUID lrps)) (lrpByUUID lrps) routers ([], [])"
  defines "kept \<equiv> keptNATs (snd scan) (filtersOf cfg st') natrows"
  shows "s_LocalRouters st' = fst scan" "s_HasLocalRouters st' = (s_LocalRouters st' \<noteq> [])"
    "s_DiscoveredNetworks st' = discoverNetworks (s_LocalRouters st')"
    "s_FIPs st' = map nat_ExternalIP (filter (\<lambda>n. nat_Type n = ''dnat_and_snat'') kept)"
    "s_SNATIPs st' = map nat_ExternalIP (filter (\<lambda>n. nat_Type n = ''snat'') kept) @
       concat (map (announcedIPs (filtersOf cfg st')) (filter (gatewayPatch names) pbs))"
    "s_NATIPToRouterMAC st' = snd (scanPatchPorts names (lrpNameToMAC lrps) (filtersOf cfg st') pbs
       (map nat_ExternalIP (filter (\<lambda>n. nat_Type n = ''snat'') kept),
        upd_all (map (\<lambda>n. (nat_ExternalIP n, the (map_of (snd scan) (nat_UUID n)))) kept) []))"
    "s_AllChassisNames st' = allChassisNames chs" "s_LocalChassisName st' = s_LocalChassisName st"
  by (simp_all add: st'_def computeState_def names_def [symmetric] scan_def [symmetric] Let_def
      filtersOf_def scanNATs_eq kept_def case_prod_beta scanPatchPorts_ips)

lemma scan_owned:
  fixes cfg pbs chs lrps routers st n
  defines "names \<equiv> localLRPNames (c_GatewayPort cfg) (s_LocalChassisName st) (chassisHostnames chs) pbs"
  assumes "lrps_wf lrps"
  shows "map_of (snd (scanRouters names (localLRPUUIDs names (lrpNameToUUID lrps)) (lrpByUUID lrps)
      routers ([], []))) (nat_UUID n) \<noteq> None \<longleftrightarrow> owned lrps (activeNames cfg st chs pbs) routers n"
proof -
  have keys: "fst ` set names = activeNames cfg st chs pbs"
    by (simp add: names_def localLRPNames_keys)
  have m: "matchedLRP (localLRPUUIDs names (lrpNameToUUID lrps)) (lrpByUUID lrps) =
      gatewayPortOf lrps (activeNames cfg st chs pbs)"
    by (rule ext) (simp add: matchedLRP_spec [OF assms(2)] keys)
  show ?thesis
    by (simp add: scanRouters_mac_None [THEN arg_cong [where f = Not]] owned_def m del: not_None_eq)
qed

text \<open>
  C1. Router selection and the floating IPs. A router is taken as active on this chassis exactly
  when one of its ports is the port of a chassisredirect binding owned by this chassis (the first
  such port is its gateway port); and the floating IPs are exactly the external addresses of the
  dnat_and_snat rows of those routers that have a gateway MAC and that pass the effective network
  filters, in row order. So no floating IP of a router that moved away is kept and none of a
  router that arrived is missed.
\<close>

theorem computeState_desired:
  fixes cfg st chs pbs lrps routers natrows
  assumes "lrps_wf lrps"
  defines "names \<equiv> activeNames cfg st chs pbs"
    and "st' \<equiv> computeState cfg pbs chs lrps routers natrows st"
  shows "map (\<lambda>i. (ri_RouterUUID i, ri_LRPUUID i)) (s_LocalRouters st') =
      List.map_filter (\<lambda>r. map_option (\<lambda>p. (lr_UUID r, lrp_UUID p)) (gatewayPortOf lrps names r)) routers
    \<and> s_FIPs st' = map nat_ExternalIP (filter (\<lambda>n. nat_Type n = ''dnat_and_snat''
        \<and> owned lrps names routers n \<and> passesFilters (filtersOf cfg st') (nat_ExternalIP n)) natrows)"
proof
  let ?names = "localLRPNames (c_GatewayPort cfg) (s_LocalChassisName st) (chassisHostnames chs) pbs"
  have keys: "fst ` set ?names = names" unfolding names_def by (rule localLRPNames_keys)
  have m: "map (\<lambda>i. (ri_RouterUUID i, ri_LRPUUID i))
      (List.map_filter (\<lambda>r. map_option (routerInfo nm r) (f r)) rs) =
      List.map_filter (\<lambda>r. map_option (\<lambda>p. (lr_UUID r, lrp_UUID p)) (f r)) rs" for f nm rs
    by (induction rs) (auto simp: map_filter_simps routerInfo_def split: option.splits)
  show "map (\<lambda>i. (ri_RouterUUID i, ri_LRPUUID i)) (s_LocalRouters st') =
      List.map_filter (\<lambda>r. map_option (\<lambda>p. (lr_UUID r, lrp_UUID p)) (gatewayPortOf lrps names r)) routers"
    unfolding st'_def computeState_parts(1) scanRouters_infos
    by (simp add: m matchedLRP_spec [OF assms(1)] keys)
  show "s_FIPs st' = map nat_ExternalIP (filter (\<lambda>n. nat_Type n = ''dnat_and_snat''
        \<and> owned lrps names routers n \<and> passesFilters (filtersOf cfg st') (nat_ExternalIP n)) natrows)"
    unfolding st'_def computeState_parts(4) keptNATs_def scan_owned [OF assms(1)] names_def
    by (simp add: conj_commute conj_left_commute)
qed

text \<open>
  The MAC map is sound and complete for the floating IPs: every MAC in it is the non-empty MAC
  of a gateway port active on this chassis, and every floating IP has an entry, so a hairpin flow
  can be written for each of them.
\<close>

theorem computeState_macs:
  fixes cfg st chs pbs lrps routers natrows
  assumes wf: "lrps_wf lrps"
  defines "names \<equiv> activeNames cfg st chs pbs"
    and "st' \<equiv> computeState cfg pbs chs lrps routers natrows st"
  shows "(map_of (s_NATIPToRouterMAC st') ip = Some mac \<longrightarrow>
      mac \<noteq> [] \<and> (\<exists>p\<in>set lrps. lrp_Name p \<in> names \<and> lrp_MAC p = mac))
    \<and> (ip \<in> set (s_FIPs st') \<longrightarrow> map_of (s_NATIPToRouterMAC st') ip \<noteq> None)"
proof (intro conjI impI)
  let ?names = "localLRPNames (c_GatewayPort cfg) (s_LocalChassisName st) (chassisHostnames chs) pbs"
  let ?scan = "scanRouters ?names (localLRPUUIDs ?names (lrpNameToUUID lrps)) (lrpByUUID lrps) routers ([], [])"
  have keys: "fst ` set ?names = names" unfolding names_def by (rule localLRPNames_keys)
  have row: "mac \<noteq> [] \<and> (\<exists>p\<in>set lrps. lrp_Name p \<in> names \<and> lrp_MAC p = mac)"
    if "map_of (snd ?scan) u = Some mac" for u mac
    using scanRouters_mac_Some [OF that] gatewayPortOf_SomeD [OF _ wf]
    by (auto simp: feeds_def matchedLRP_spec [OF wf] keys)
  {
    assume "map_of (s_NATIPToRouterMAC st') ip = Some mac"
    from scanPatchPorts_mac_Some [OF this [unfolded st'_def computeState_parts(6)]]
    consider (nat) n where "n \<in> set (keptNATs (snd ?scan) (filtersOf cfg st') natrows)"
        "the (map_of (snd ?scan) (nat_UUID n)) = mac"
      | (patch) peer where "mac \<noteq> []" "map_of ?names peer \<noteq> None" "str_at (lrpNameToMAC lrps) peer = mac"
      unfolding st'_def by (auto dest!: map_of_upd_all_SomeD)
    then have "mac \<noteq> [] \<and> (\<exists>p\<in>set lrps. lrp_Name p \<in> names \<and> lrp_MAC p = mac)"
    proof cases
      case nat
      then have "map_of (snd ?scan) (nat_UUID n) = Some mac" by (auto simp: keptNATs_def)
      then show ?thesis by (rule row)
    next
      case patch
      from patch have "map_of (lrpNameToMAC lrps) peer = Some mac"
        by (auto simp: str_at_def split: option.splits)
      moreover from patch(2) have "peer \<in> names" by (auto simp: keys [symmetric] map_of_eq_None_iff)
      ultimately show ?thesis
        using patch(1) unfolding lrp_maps [OF wf] by (auto dest: map_of_keyD)
    qed
    then show "mac \<noteq> []" "\<exists>p\<in>set lrps. lrp_Name p \<in> names \<and> lrp_MAC p = mac" by blast+
  }
  assume "ip \<in> set (s_FIPs st')"
  then show "map_of (s_NATIPToRouterMAC st') ip \<noteq> None"
    unfolding st'_def computeState_parts(4,6)
    by (intro scanPatchPorts_mac_keep) (auto simp: map_of_upd_all_None image_image)
qed

text \<open>
  Every address the agent will announce lies inside the effective networks (the configured
  ones, else those discovered on the gateway ports of local routers): every floating IP and every
  SNAT address, from the northbound rows and from gateway patch ports alike, passes the filters.
\<close>

theorem computeState_filtered:
  "list_all (passesFilters (filtersOf cfg (computeState cfg pbs chs lrps routers natrows st)))
     (s_FIPs (computeState cfg pbs chs lrps routers natrows st) @
      s_SNATIPs (computeState cfg pbs chs lrps routers natrows st))"
  by (auto simp: list_all_iff computeState_parts(4,5) keptNATs_def announcedIPs_def)

section \<open>Networks and NAT addresses\<close>

lemma sort_key_strict:
  assumes "distinct (map f xs)"
  shows "sorted_wrt (<) (map f (sort_key f xs))"
proof -
  have "mset (map f (sort_key f xs)) = mset (map f xs)" by simp
  then have "distinct (map f (sort_key f xs))" using assms mset_eq_imp_distinct_iff by metis
  then show ?thesis by (simp add: strict_sorted_iff)
qed

text \<open>
  The discovered networks are printed in strictly increasing order, one network per printed
  form, and none is lost.
\<close>

theorem uniqueNetworks_canonical:
  "sorted_wrt (<) (map netString (uniqueNetworks nets))
   \<and> netString ` set (uniqueNetworks nets) = netString ` set nets \<and> set (uniqueNetworks nets) \<subseteq> set nets"
  using sort_key_strict [OF dedup_by_distinct] dedup_by_keys [of netString "[]" nets]
    dedup_by_subset [of netString "[]" nets]
  by (simp add: uniqueNetworks_def)

lemma fields_acc_word:
  "list_all (\<lambda>c. \<not> is_space c) w \<Longrightarrow> fields_acc acc (w @ rest) = fields_acc (rev w @ acc) rest"
  by (induction w arbitrary: acc) auto

lemma Fields_Join:
  "list_all (\<lambda>w. w \<noteq> [] \<and> list_all (\<lambda>c. \<not> is_space c) w) ws \<Longrightarrow> Fields (Join ws '' '') = ws"
proof (induction ws "'' ''" rule: Join.induct)
  case (2 x)
  then show ?case using fields_acc_word [of x "[]" "[]"] by (simp add: Fields_def)
next
  case (3 x y ys)
  then show ?case
    using fields_acc_word [of x "[]" "CHR '' '' # Join (y # ys) '' ''"]
    by (simp add: Fields_def is_space_def)
qed (simp add: Fields_def)

definition is_word :: "string \<Rightarrow> bool" where
  "is_word w \<longleftrightarrow> w \<noteq> [] \<and> list_all (\<lambda>c. \<not> is_space c) w"

definition natEntry :: "string \<Rightarrow> ip4 list \<Rightarrow> string list \<Rightarrow> string" where
  "natEntry mac ips rest =
     Join (mac # map dotted ips @ ''is_chassis_resident'' # rest) '' ''"

lemma is_digit_not_space: "is_digit c \<Longrightarrow> \<not> is_space c"
  by (auto simp: is_digit_def is_space_def)

lemma dotted_word: "is_word (dotted a)"
proof -
  have "dotted a \<noteq> []" by (simp add: dotted_def Let_def)
  moreover have "\<not> is_space c" if "c \<in> set (dotted a)" for c
    using dotted_chars [OF that] is_digit_not_space by (auto simp: is_space_def)
  ultimately show ?thesis by (simp add: is_word_def list_all_iff)
qed

lemma dotted_not_marker: "\<not> is_resident_marker (dotted a)"
proof
  assume "is_resident_marker (dotted a)"
  then obtain t where "dotted a = ''is_chassis_resident'' @ t"
    unfolding is_resident_marker_def HasPrefix_iff by blast
  then have "CHR ''s'' \<in> set (dotted a)" by simp
  then show False using dotted_chars [of "CHR ''s''" a] by (simp add: is_digit_def)
qed

lemma takeWhile_dotted:
  "takeWhile (\<lambda>f. \<not> is_resident_marker f) (map dotted ips @ ''is_chassis_resident'' # rest) = map dotted ips"
proof (induction ips)
  case Nil
  have "is_resident_marker ''is_chassis_resident''" by (simp add: is_resident_marker_def HasPrefix_def)
  then show ?case by simp
qed (simp add: dotted_not_marker)

text \<open>
  NAT address entries are read back: an entry "MAC IP1 ... IPn is_chassis_resident ...", with
  any words after the marker, yields exactly its addresses, for every list of IPv4 addresses.
\<close>

theorem parseNatAddressIPs_roundtrip:
  assumes "is_word mac" "list_all is_word rest"
  shows "parseNatAddressIPs (natEntry mac ips rest) = map dotted ips"
proof -
  have "is_word ''is_chassis_resident''" by (simp add: is_word_def is_space_def)
  then have "list_all is_word (mac # map dotted ips @ ''is_chassis_resident'' # rest)"
    using assms dotted_word by (auto simp: list_all_iff)
  then have "Fields (natEntry mac ips rest) = mac # map dotted ips @ ''is_chassis_resident'' # rest"
    unfolding natEntry_def is_word_def by (rule Fields_Join)
  moreover have "filter (\<lambda>f. ParseIP f \<noteq> None) (map dotted ips) = map dotted ips"
    by (simp add: filter_id_conv del: not_None_eq)
  ultimately show ?thesis by (simp add: parseNatAddressIPs_def takeWhile_dotted del: not_None_eq)
qed

theorem parseNatAddressIPs_roundtrip_witness:
  "parseNatAddressIPs (natEntry ''fa:16:3e:00:00:01'' [3405803786, 3405803787] [''x'']) =
     map dotted [3405803786, 3405803787]"
proof (rule parseNatAddressIPs_roundtrip)
  show "is_word ''fa:16:3e:00:00:01''" by (simp add: is_word_def is_space_def)
  show "list_all is_word [''x'']" by (simp add: is_word_def is_space_def)
qed

section \<open>Failing listings\<close>

definition fails :: "('s \<Rightarrow> 'a result \<times> 's) \<Rightarrow> bool" where
  "fails f \<longleftrightarrow> (\<forall>s. case fst (f s) of Inl e \<Rightarrow> True | Inr x \<Rightarrow> False)"

lemma cachedList_fails:
  "fails lf \<Longrightarrow> \<exists>e. outcome (cachedList (listTable t lf) (\<lambda>ops. call (mk ops) (f ops)) check table
     columns keyOf decode) s = Inl e"
  using cachedList_error [of t lf mk f check table columns keyOf decode s]
  by (cases "fst (lf s)") (auto simp: fails_def split: sum.splits)

text \<open>One listing of the chain, with the error branch that keeps the state.\<close>

lemma listing_fail:
  assumes "\<And>s. \<exists>e. outcome m s = Inl e" "pure_log m" "\<And>x. pure_log (f x)"
  shows "outcome (State_Monad.bind m (\<lambda>r. case r of Inl e \<Rightarrow> ret st | Inr x \<Rightarrow> f x)) s = st"
proof -
  obtain e where "outcome m s = Inl e" using assms(1) by blast
  then show ?thesis using assms(2) by (simp add: run_bind emits_ret)
qed

lemma listing_next:
  assumes "\<And>x s. outcome (f x) s = st" "pure_log m" "\<And>x. pure_log (f x)"
  shows "outcome (State_Monad.bind m (\<lambda>r. case r of Inl e \<Rightarrow> ret st | Inr x \<Rightarrow> f x)) s = st"
  using assms by (cases "outcome m s") (simp_all add: run_bind emits_ret)

text \<open>
  A refresh is all or nothing and never writes: as soon as one of the five tables cannot be
  listed, the previous state is kept entirely, whatever the other tables say.
\<close>

theorem refreshState_keeps_on_error:
  assumes "fails (e_list_pb E) \<or> fails (e_list_ch E) \<or> fails (e_list_lrp E) \<or> fails (e_list_lr E)
    \<or> fails (e_list_nat E)"
  shows "outcome (refreshState cfg E st) s = st \<and> emits read_only (refreshState cfg E st)"
proof
  show "emits read_only (refreshState cfg E st)"
    unfolding refreshState_def by (intro emits_intros) (simp_all add: read_only_def)
  note pure = emits_intros
  from assms consider "fails (e_list_pb E)" | "fails (e_list_ch E)" | "fails (e_list_lrp E)"
    | "fails (e_list_lr E)" | "fails (e_list_nat E)" by blast
  then show "outcome (refreshState cfg E st) s = st"
  proof cases
    case 1
    then have "\<exists>e. outcome (listPortBindings E) s = Inl e" for s
      unfolding list_defs sbTransact_call by (rule cachedList_fails)
    then show ?thesis unfolding refreshState_def by (rule listing_fail) (intro pure; simp)+
  next
    case 2
    then have "\<exists>e. outcome (listChassis E) s = Inl e" for s
      unfolding list_defs sbTransact_call by (rule cachedList_fails)
    then show ?thesis
      unfolding refreshState_def by (intro listing_next listing_fail) (assumption | intro pure; simp)+
  next
    case 3
    then have "\<exists>e. outcome (listRouterPorts E) s = Inl e" for s
      unfolding list_defs nbTransact_call by (rule cachedList_fails)
    then show ?thesis
      unfolding refreshState_def
      by (rule_tac listing_next [OF listing_next [OF listing_fail]]) (assumption | intro pure; simp)+
  next
    case 4
    then have "\<exists>e. outcome (listRouters E) s = Inl e" for s
      unfolding list_defs nbTransact_call by (rule cachedList_fails)
    then show ?thesis
      unfolding refreshState_def
      by (rule_tac listing_next [OF listing_next [OF listing_next [OF listing_fail]]])
        (assumption | intro pure; simp)+
  next
    case 5
    then have "\<exists>e. outcome (listNATs E) s = Inl e" for s
      unfolding list_defs nbTransact_call by (rule cachedList_fails)
    then show ?thesis
      unfolding refreshState_def
      by (rule_tac listing_next [OF listing_next [OF listing_next [OF listing_next [OF listing_fail]]]])
        (assumption | intro pure; simp)+
  qed
qed

section \<open>Instances\<close>

text \<open>
  Two routers on two chassis. Router r1's gateway port lrp-1 is bound to this chassis (n1), r2's to
  n2; each has a floating IP.
\<close>

definition demo_chassis :: "SBChassis list" where
  "demo_chassis =
    [\<lparr>ch_UUID = ''cu1'', ch_Name = ''sys1'', ch_Hostname = ''n1'', ch_ExternalIDs = None\<rparr>,
     \<lparr>ch_UUID = ''cu2'', ch_Name = ''sys2'', ch_Hostname = ''n2'', ch_ExternalIDs = None\<rparr>]"

definition demo_binding :: "string \<Rightarrow> string \<Rightarrow> SBPortBinding" where
  "demo_binding port chassis = zeroPortBinding\<lparr>pb_Type := ''chassisredirect'',
     pb_LogicalPort := port, pb_Chassis := Some chassis\<rparr>"

definition demo_lrps :: "NBLogicalRouterPort list" where
  "demo_lrps =
    [\<lparr>lrp_UUID = ''p1'', lrp_Name = ''lrp-1'', lrp_MAC = ''fa:16:3e:00:00:01'', lrp_Networks = []\<rparr>,
     \<lparr>lrp_UUID = ''p2'', lrp_Name = ''lrp-2'', lrp_MAC = ''fa:16:3e:00:00:02'', lrp_Networks = []\<rparr>]"

definition demo_router :: "string \<Rightarrow> string \<Rightarrow> string \<Rightarrow> NBLogicalRouter" where
  "demo_router u port natu = \<lparr>lr_UUID = u, lr_Name = u, lr_Ports = [port], lr_Nat = [natu],
     lr_StaticRoutes = [], lr_ExternalIDs = None\<rparr>"

definition demo_nat :: "string \<Rightarrow> string \<Rightarrow> NBNAT" where
  "demo_nat u ip = zeroNAT\<lparr>nat_UUID := u, nat_Type := ''dnat_and_snat'', nat_ExternalIP := ip\<rparr>"

definition demo_pbs :: "SBPortBinding list" where
  "demo_pbs = [demo_binding ''cr-lrp-1'' ''cu1'', demo_binding ''cr-lrp-2'' ''cu2'']"

definition demo_routers :: "NBLogicalRouter list" where
  "demo_routers = [demo_router ''r1'' ''p1'' ''a1'', demo_router ''r2'' ''p2'' ''a2'']"

definition demo_nats :: "NBNAT list" where
  "demo_nats = [demo_nat ''a1'' ''192.0.2.10'', demo_nat ''a2'' ''192.0.2.20'']"

definition demo_local :: OVNState where
  "demo_local = newOVNState\<lparr>s_LocalChassisName := ''n1''\<rparr>"

definition demo_state :: OVNState where
  "demo_state = computeState defaultConfig demo_pbs demo_chassis demo_lrps demo_routers demo_nats
     demo_local"

lemma demo_lrps_wf: "lrps_wf demo_lrps"
  by (simp add: lrps_wf_def demo_lrps_def)

lemma demo_state_fips: "s_FIPs demo_state = [''192.0.2.10''] \<and> map ri_RouterUUID (s_LocalRouters demo_state) = [''r1'']"
  by code_simp

theorem computeState_desired_witness:
  "map nat_ExternalIP (filter (\<lambda>n. nat_Type n = ''dnat_and_snat''
      \<and> owned demo_lrps (activeNames defaultConfig demo_local demo_chassis demo_pbs) demo_routers n
      \<and> passesFilters (filtersOf defaultConfig demo_state) (nat_ExternalIP n)) demo_nats) =
    [''192.0.2.10'']"
  using computeState_desired [OF demo_lrps_wf, of defaultConfig demo_pbs demo_chassis demo_routers
      demo_nats demo_local] demo_state_fips
  unfolding demo_state_def by simp

theorem computeState_macs_witness:
  "map_of (s_NATIPToRouterMAC demo_state) ''192.0.2.10'' \<noteq> None"
  using computeState_macs [OF demo_lrps_wf] demo_state_fips unfolding demo_state_def
  by (metis list.set_intros(1))

definition broken_ovn :: "unit ovnenv" where
  "broken_ovn = quiet_ovn\<lparr>e_list_nat := \<lambda>s. (Inl (ErrMsg ''connection closed''), s)\<rparr>"

theorem refreshState_keeps_on_error_witness:
  "outcome (refreshState defaultConfig broken_ovn demo_state) () = demo_state"
  using refreshState_keeps_on_error [of broken_ovn defaultConfig demo_state "()"]
  by (simp add: broken_ovn_def fails_def)

end
