(* ===== verification/Routing.thy ===== *)
theory Routing
  imports OvnState
begin

text \<open>
  FRR routes and the FRR prefix-list (\<open>routing.go\<close>). Every operation runs vtysh through the
  environment. The order in which Go visits a map is the argument \<open>ord\<close>; the JSON decoder is
  the argument \<open>unmarshal\<close>. Of an error message the part in front of the wrapped error is kept.
\<close>

section \<open>The route manager\<close>

definition vethDefaultName :: string where
  "vethDefaultName = ''veth-default''"

definition vethProviderName :: string where
  "vethProviderName = ''veth-provider''"

record RouteManager =
  rm_bridgeDev :: string
  rm_vrfName :: string
  rm_vethNexthop :: string
  rm_routeTableID :: int
  rm_ovsWrapper :: "string list"
  rm_dryRun :: bool
  rm_vethLeakEnabled :: bool
  rm_vethProviderIP :: string
  rm_vethLeakTableID :: int
  rm_vethLeakRulePriority :: int
  rm_networkFilters :: "ipnet list"
  rm_frrPrefixList :: string
  rm_portForwardEnabled :: bool
  rm_portForwardDev :: string
  rm_portForwardTableID :: int
  rm_portForwardL3mdevAccept :: bool
  rm_portForwardCTZone :: int
  rm_portForwards :: "PortForwardVIP list"
  rm_cachedPatchPort :: string
  rm_cachedOfport :: string
  rm_cachedBridgeMAC :: string

definition NewRouteManager :: "Config \<Rightarrow> RouteManager" where
  "NewRouteManager cfg = \<lparr>rm_bridgeDev = c_BridgeDev cfg, rm_vrfName = c_VRFName cfg,
     rm_vethNexthop = c_VethNexthop cfg, rm_routeTableID = c_RouteTableID cfg,
     rm_ovsWrapper = (if c_OVSWrapper cfg \<noteq> [] then Fields (c_OVSWrapper cfg) else []),
     rm_dryRun = c_DryRun cfg, rm_vethLeakEnabled = c_VethLeakEnabled cfg,
     rm_vethProviderIP = c_VethProviderIP cfg, rm_vethLeakTableID = c_VethLeakTableID cfg,
     rm_vethLeakRulePriority = c_VethLeakRulePriority cfg,
     rm_networkFilters = c_NetworkFilters cfg, rm_frrPrefixList = c_FRRPrefixList cfg,
     rm_portForwardEnabled = c_PortForwardEnabled cfg, rm_portForwardDev = c_PortForwardDev cfg,
     rm_portForwardTableID = c_PortForwardTableID cfg,
     rm_portForwardL3mdevAccept = c_PortForwardL3mdevAccept cfg,
     rm_portForwardCTZone = c_PortForwardCTZone cfg, rm_portForwards = c_PortForwards cfg,
     rm_cachedPatchPort = [], rm_cachedOfport = [], rm_cachedBridgeMAC = []\<rparr>"

definition validateIP :: "string \<Rightarrow> goerr option" where
  "validateIP s = (if ParseIP s = None then Some (ErrMsg (''invalid IP address: '' @ s)) else None)"

definition runVtysh :: "'s sysenv \<Rightarrow> string list \<Rightarrow> ('s, string \<times> goerr option) io" where
  "runVtysh E args = vtysh E args"

section \<open>Static routes\<close>

definition frrBatchSize :: nat where
  "frrBatchSize = 500"

text \<open>The loop \<open>for start := 0; start < len(ips); start += frrBatchSize\<close>.\<close>

function chunks :: "nat \<Rightarrow> 'a list \<Rightarrow> 'a list list" where
  "chunks n xs = (if xs = [] \<or> n = 0 then [] else take n xs # chunks n (drop n xs))"
  by auto
termination by (relation "measure (\<lambda>(n, xs). length xs)") auto

declare chunks.simps [simp del]

fun validateAll :: "string list \<Rightarrow> goerr option" where
  "validateAll [] = None"
| "validateAll (ip # ips) = (case validateIP ip of Some e \<Rightarrow> Some e | None \<Rightarrow> validateAll ips)"

definition routeCmd :: "RouteManager \<Rightarrow> string \<Rightarrow> string" where
  "routeCmd rm ip = ''ip route '' @ ip @ ''/32 '' @ rm_vethNexthop rm"

definition noRouteCmd :: "RouteManager \<Rightarrow> string \<Rightarrow> string" where
  "noRouteCmd rm ip = ''no ip route '' @ ip @ ''/32 '' @ rm_vethNexthop rm"

definition batchArgs :: "RouteManager \<Rightarrow> string list \<Rightarrow> string list" where
  "batchArgs rm cmds = [''-c'', ''conf t'', ''-c'', ''vrf '' @ rm_vrfName rm] @
     concat (map (\<lambda>c. [''-c'', c]) cmds) @ [''-c'', ''exit-vrf'', ''-c'', ''end'']"

definition addBatch :: "'s sysenv \<Rightarrow> RouteManager \<Rightarrow> string list \<Rightarrow> ('s, goerr option) io" where
  "addBatch E rm chunk =
     do { (out, e) \<leftarrow> runVtysh E (batchArgs rm (map (routeCmd rm) chunk));
          ret (map_option (ErrWrap (''vtysh batch add '' @ show_nat (length chunk) @ '' routes'')) e) }"

definition delBatch :: "'s sysenv \<Rightarrow> RouteManager \<Rightarrow> string list \<Rightarrow> ('s, goerr option) io" where
  "delBatch E rm chunk =
     do { (out, e) \<leftarrow> runVtysh E (batchArgs rm (map (noRouteCmd rm) chunk));
          ret (map_option (ErrWrap (''vtysh batch del '' @ show_nat (length chunk) @ '' routes'')) e) }"

definition AddFRRRoutes :: "'s sysenv \<Rightarrow> RouteManager \<Rightarrow> string list \<Rightarrow> ('s, goerr option) io" where
  "AddFRRRoutes E rm ips =
     (if ips = [] then ret None
      else case validateAll ips of
             Some e \<Rightarrow> ret (Some e)
           | None \<Rightarrow> if rm_dryRun rm then ret None
                     else for_err (addBatch E rm) (chunks frrBatchSize ips))"

definition AddFRRRoute :: "'s sysenv \<Rightarrow> RouteManager \<Rightarrow> string \<Rightarrow> ('s, goerr option) io" where
  "AddFRRRoute E rm ip = AddFRRRoutes E rm [ip]"

definition DelFRRRoutes :: "'s sysenv \<Rightarrow> RouteManager \<Rightarrow> string list \<Rightarrow> ('s, goerr option) io" where
  "DelFRRRoutes E rm ips =
     (if ips = [] then ret None
      else case validateAll ips of
             Some e \<Rightarrow> ret (Some e)
           | None \<Rightarrow> if rm_dryRun rm then ret None
                     else for_err (delBatch E rm) (chunks frrBatchSize ips))"

definition DelFRRRoute :: "'s sysenv \<Rightarrow> RouteManager \<Rightarrow> string \<Rightarrow> ('s, goerr option) io" where
  "DelFRRRoute E rm ip = DelFRRRoutes E rm [ip]"

definition HasFRRRoute :: "'s sysenv \<Rightarrow> RouteManager \<Rightarrow> string \<Rightarrow> ('s, bool) io" where
  "HasFRRRoute E rm ip =
     (if validateIP ip \<noteq> None then ret False
      else do { (out, e) \<leftarrow> runVtysh E [''-c'', ''show ip route vrf '' @ rm_vrfName rm @ '' '' @ ip @ ''/32''];
                ret (case e of Some err \<Rightarrow> False | None \<Rightarrow> Contains out ''static'') })"

definition newline :: char where
  "newline = CHR 0x0A"

definition parseRouteLine :: "string \<Rightarrow> string option" where
  "parseRouteLine line0 =
     (let line = TrimSpace line0 in
      if HasPrefix line ''S'' \<and> Contains line ''/32''
      then (case find (\<lambda>p. Contains p ''/32'') (Fields line) of
              None \<Rightarrow> None
            | Some p \<Rightarrow> map_option (\<lambda>(a, n). ipString a) (ParseCIDR p))
      else None)"

definition ListFRRRoutes :: "'s sysenv \<Rightarrow> RouteManager \<Rightarrow> ('s, string list result) io" where
  "ListFRRRoutes E rm =
     (if rm_dryRun rm then ret (Inr [])
      else do { (out, e) \<leftarrow> runVtysh E [''-c'', ''show ip route vrf '' @ rm_vrfName rm @ '' static''];
                ret (case e of
                       Some err \<Rightarrow> Inl (ErrWrap ''vtysh list routes'' err)
                     | None \<Rightarrow> Inr (List.map_filter parseRouteLine (Split newline out))) })"

record frrRouteEntry =
  fr_Selected :: bool
  fr_Installed :: bool

type_synonym frrTable = "(string, frrRouteEntry list) gomap"

definition isInactive :: "frrTable \<Rightarrow> string \<Rightarrow> bool" where
  "isInactive routes ip =
     (case map_of routes (ip @ ''/32'') of
        None \<Rightarrow> False
      | Some entries \<Rightarrow> \<not> list_ex (\<lambda>e. fr_Selected e \<and> fr_Installed e) entries)"

definition InactiveFRRRoutes ::
  "(string \<Rightarrow> frrTable result) \<Rightarrow> 's sysenv \<Rightarrow> RouteManager \<Rightarrow> string list \<Rightarrow> ('s, string list result) io" where
  "InactiveFRRRoutes unmarshal E rm ips =
     (if rm_dryRun rm \<or> ips = [] then ret (Inr [])
      else do { (out, e) \<leftarrow> runVtysh E [''-c'', ''show ip route vrf '' @ rm_vrfName rm @ '' static json''];
                ret (case e of
                       Some err \<Rightarrow> Inl (ErrWrap ''vtysh list routes json'' err)
                     | None \<Rightarrow>
                         (let trimmed = TrimSpace out in
                          if trimmed = [] then Inr []
                          else case unmarshal trimmed of
                                 Inl err \<Rightarrow> Inl (ErrWrap ''parse vtysh route json'' err)
                               | Inr routes \<Rightarrow> Inr (sort (filter (isInactive routes) ips)))) })"

definition RefreshBGP :: "'s sysenv \<Rightarrow> RouteManager \<Rightarrow> ('s, goerr option) io" where
  "RefreshBGP E rm =
     (if rm_dryRun rm then ret None
      else do { (out, e) \<leftarrow> runVtysh E [''-c'', ''clear ip bgp vrf '' @ rm_vrfName rm @ '' * soft out''];
                ret (map_option (ErrWrap ''BGP soft-refresh'') e) })"

section \<open>The prefix-list\<close>

record prefixListEntry =
  pl_Seq :: int
  pl_Network :: string

definition parsePrefixLine :: "string \<Rightarrow> prefixListEntry option" where
  "parsePrefixLine line =
     (case Fields (TrimSpace line) of
        f0 # f1 # f2 # f3 # f4 # f5 # f6 # f7 # _ \<Rightarrow>
          if f0 = ''seq'' \<and> f2 = ''permit'' \<and> f4 = ''ge'' \<and> f5 = ''32'' \<and> f6 = ''le'' \<and> f7 = ''32''
          then map_option (\<lambda>n. \<lparr>pl_Seq = n, pl_Network = f3\<rparr>) (Atoi f1) else None
      | _ \<Rightarrow> None)"

definition ListFRRPrefixListEntries :: "'s sysenv \<Rightarrow> RouteManager \<Rightarrow> ('s, prefixListEntry list result) io" where
  "ListFRRPrefixListEntries E rm =
     (if rm_frrPrefixList rm = [] then ret (Inr [])
      else do { (out, e) \<leftarrow> runVtysh E [''-c'', ''show ip prefix-list '' @ rm_frrPrefixList rm];
                ret (case e of
                       Some err \<Rightarrow> Inl (ErrWrap (''vtysh show prefix-list '' @ rm_frrPrefixList rm) err)
                     | None \<Rightarrow>
                         if Contains out (''Can'' @ [CHR 0x27] @ ''t find'') \<or> TrimSpace out = [] then Inr []
                         else Inr (List.map_filter parsePrefixLine (Split newline out))) })"

definition currentByNetwork :: "prefixListEntry list \<Rightarrow> (string, int) gomap" where
  "currentByNetwork es = upd_all (map (\<lambda>e. (pl_Network e, pl_Seq e)) es) []"

definition maxSeq :: "prefixListEntry list \<Rightarrow> int" where
  "maxSeq es = fold (\<lambda>e m. if pl_Seq e > m then pl_Seq e else m) es 0"

definition permitCmd :: "RouteManager \<Rightarrow> int \<Rightarrow> string \<Rightarrow> string" where
  "permitCmd rm seq network = ''ip prefix-list '' @ rm_frrPrefixList rm @ '' seq '' @ show_int seq @
     '' permit '' @ network @ '' ge 32 le 32''"

definition plArgs :: "string \<Rightarrow> string list" where
  "plArgs cmd = [''-c'', ''conf t'', ''-c'', cmd, ''-c'', ''end'']"

text \<open>The missing networks, each with its sequence number: five more than the last one.\<close>

fun planAdds :: "int \<Rightarrow> string list \<Rightarrow> (int \<times> string) list" where
  "planAdds m [] = []"
| "planAdds m (n # ns) = (m + 5, n) # planAdds (m + 5) ns"

definition addEntry :: "'s sysenv \<Rightarrow> RouteManager \<Rightarrow> int \<times> string \<Rightarrow> ('s, goerr option) io" where
  "addEntry E rm sn =
     do { (out, e) \<leftarrow> runVtysh E (plArgs (permitCmd rm (fst sn) (snd sn)));
          ret (map_option (ErrWrap (''add prefix-list entry '' @ snd sn @ '' seq '' @ show_int (fst sn))) e) }"

definition delEntry :: "'s sysenv \<Rightarrow> RouteManager \<Rightarrow> int \<times> string \<Rightarrow> ('s, goerr option) io" where
  "delEntry E rm sn =
     do { (out, e) \<leftarrow> runVtysh E (plArgs (''no '' @ permitCmd rm (fst sn) (snd sn)));
          ret (map_option (ErrWrap (''remove prefix-list entry '' @ snd sn @ '' seq '' @ show_int (fst sn))) e) }"

definition prefixAdds :: "(string list \<Rightarrow> string list) \<Rightarrow> ipnet list \<Rightarrow> prefixListEntry list \<Rightarrow> (int \<times> string) list" where
  "prefixAdds ord networks current =
     planAdds (maxSeq current)
       (filter (\<lambda>n. map_of (currentByNetwork current) n = None)
         (ord (dedup_by (\<lambda>n. n) [] (map netString networks))))"

definition prefixDels :: "(string list \<Rightarrow> string list) \<Rightarrow> ipnet list \<Rightarrow> prefixListEntry list \<Rightarrow> (int \<times> string) list" where
  "prefixDels ord networks current =
     map (\<lambda>n. (the (map_of (currentByNetwork current) n), n))
       (filter (\<lambda>n. \<not> has (map netString networks) n) (ord (map_keys (currentByNetwork current))))"

definition ReconcileFRRPrefixList ::
  "(string list \<Rightarrow> string list) \<Rightarrow> 's sysenv \<Rightarrow> RouteManager \<Rightarrow> ipnet list \<Rightarrow> ('s, goerr option) io" where
  "ReconcileFRRPrefixList ord E rm networks =
     (if rm_frrPrefixList rm = [] then ret None
      else if rm_dryRun rm then ret None
      else do { r \<leftarrow> ListFRRPrefixListEntries E rm;
                case r of Inl e \<Rightarrow> ret (Some (ErrWrap ''list prefix-list entries'' e)) | Inr current \<Rightarrow>
           do { e \<leftarrow> for_err (addEntry E rm) (prefixAdds ord networks current);
                case e of Some err \<Rightarrow> ret (Some err) | None \<Rightarrow>
                for_err (delEntry E rm) (prefixDels ord networks current) } })"

section \<open>Errors of netlink\<close>

definition isNoSuchRoute :: "goerr \<Rightarrow> bool" where
  "isNoSuchRoute e = Contains (errText e) ''no such process''"

definition isNoSuchRule :: "goerr \<Rightarrow> bool" where
  "isNoSuchRule e = Contains (errText e) ''no such file or directory''"

section \<open>Batches\<close>

lemma chunks_concat: "0 < n \<Longrightarrow> concat (chunks n xs) = xs"
proof (induction n xs rule: chunks.induct)
  case (1 n xs)
  then show ?case by (subst chunks.simps) auto
qed

lemma chunks_length: "c \<in> set (chunks n xs) \<Longrightarrow> length c \<le> n"
proof (induction n xs rule: chunks.induct)
  case (1 n xs)
  then show ?case by (subst (asm) (2) chunks.simps) (auto split: if_splits)
qed

lemma for_err_trace_on:
  assumes pure: "\<And>x. pure_log (f x)" and tr: "\<And>x s. x \<in> set xs \<Longrightarrow> trace (f x) s = [ev x]"
  shows "prefix (trace (for_err f xs) s) (map ev xs)
    \<and> ((\<exists>e. outcome (for_err f xs) s = Some e) \<or> trace (for_err f xs) s = map ev xs)"
  using tr
proof (induction xs arbitrary: s)
  case (Cons x xs)
  have pf: "pure_log (case e of Some err \<Rightarrow> ret (Some err) | None \<Rightarrow> for_err f xs)" for e
    by (intro emits_intros pure)
  have x: "trace (f x) s = [ev x]" using Cons.prems by simp
  show ?case
  proof (cases "outcome (f x) s")
    case None
    then show ?thesis
      using Cons.IH [OF Cons.prems, of "final (f x) s"] by (auto simp: run_bind [OF pure pf] x)
  next
    case (Some e)
    then show ?thesis by (auto simp: run_bind [OF pure pf] x)
  qed
qed simp

lemma for_err_trace:
  assumes "\<And>x. pure_log (f x)" "\<And>x s. trace (f x) s = [ev x]"
  shows "prefix (trace (for_err f xs) s) (map ev xs)
    \<and> ((\<exists>e. outcome (for_err f xs) s = Some e) \<or> trace (for_err f xs) s = map ev xs)"
  by (rule for_err_trace_on) (rule assms)+

lemma for_err_success:
  assumes pure: "\<And>x. pure_log (f x)" and ok: "\<And>x s. outcome (f x) s = None"
  shows "outcome (for_err f xs) s = None"
proof (induction xs arbitrary: s)
  case (Cons x xs)
  have pf: "pure_log (case e of Some err \<Rightarrow> ret (Some err) | None \<Rightarrow> for_err f xs)" for e
    by (intro emits_intros pure)
  show ?case by (simp add: run_bind [OF pure pf] ok Cons)
qed simp

lemma validateAll_iff: "validateAll ips = None \<longleftrightarrow> list_all (\<lambda>ip. ParseIP ip \<noteq> None) ips"
  by (induction ips) (auto simp: validateIP_def)

text \<open>
  Adding and deleting routes share a contract: check every address, then send the commands in
  batches and stop at the first error.
\<close>

locale frr_batch =
  fixes run :: "'s sysenv \<Rightarrow> RouteManager \<Rightarrow> string list \<Rightarrow> ('s, goerr option) io"
    and batch :: "'s sysenv \<Rightarrow> RouteManager \<Rightarrow> string list \<Rightarrow> ('s, goerr option) io"
    and cmd :: "RouteManager \<Rightarrow> string \<Rightarrow> string"
  assumes run_eq: "run E rm ips = (if ips = [] then ret None else case validateAll ips of
      Some e \<Rightarrow> ret (Some e)
    | None \<Rightarrow> if rm_dryRun rm then ret None else for_err (batch E rm) (chunks frrBatchSize ips))"
    and batch_pure: "P (EvVtysh (batchArgs rm (map (cmd rm) c))) \<Longrightarrow> emits P (batch E rm c)"
    and batch_trace: "trace (batch E rm c) s = [EvVtysh (batchArgs rm (map (cmd rm) c))]"
begin

lemma silent:
  "ips = [] \<or> validateAll ips \<noteq> None \<or> rm_dryRun rm \<Longrightarrow> trace (run E rm ips) s = []"
  by (auto simp: run_eq split: option.split)

lemma behaves:
  "if \<not> list_all (\<lambda>ip. ParseIP ip \<noteq> None) ips
   then (\<exists>e. outcome (run E rm ips) s = Some e) \<and> trace (run E rm ips) s = []
   else if rm_dryRun rm then outcome (run E rm ips) s = None \<and> trace (run E rm ips) s = []
   else \<exists>batches. concat batches = ips \<and> list_all (\<lambda>b. length b \<le> 500) batches
     \<and> prefix (trace (run E rm ips) s) (map (\<lambda>b. EvVtysh (batchArgs rm (map (cmd rm) b))) batches)
     \<and> ((\<exists>e. outcome (run E rm ips) s = Some e)
        \<or> trace (run E rm ips) s = map (\<lambda>b. EvVtysh (batchArgs rm (map (cmd rm) b))) batches)"
proof (cases "validateAll ips")
  case (Some e)
  then have "ips \<noteq> []" "\<not> list_all (\<lambda>ip. ParseIP ip \<noteq> None) ips"
    unfolding validateAll_iff [symmetric] by auto
  with Some show ?thesis by (simp add: run_eq del: not_None_eq)
next
  case None
  have bl: "list_all (\<lambda>b. length b \<le> 500) (chunks 500 ips)" "concat (chunks 500 ips) = ips"
    using chunks_length by (auto simp: list_all_iff chunks_concat)
  show ?thesis
  proof (cases "ips = [] \<or> rm_dryRun rm")
    case True
    with None show ?thesis
      unfolding validateAll_iff [symmetric] by (auto simp: run_eq intro: exI [of _ "[]"])
  next
    case False
    with None have "run E rm ips = for_err (batch E rm) (chunks 500 ips)"
      by (simp add: run_eq frrBatchSize_def)
    with for_err_trace [of "batch E rm", OF batch_pure batch_trace, of "chunks 500 ips" s] None False bl
    show ?thesis unfolding validateAll_iff [symmetric] by (auto intro!: exI [of _ "chunks 500 ips"])
  qed
qed

lemma emits_run:
  "(\<And>c. P (EvVtysh (batchArgs rm (map (cmd rm) c)))) \<Longrightarrow> emits P (run E rm ips)"
  unfolding run_eq by (auto intro!: emits_intros batch_pure split: option.split)

lemma no_errors:
  assumes "\<And>args s. snd (fst (e_vtysh E args s)) = None" "validateAll ips = None"
    and "\<And>c s. outcome (batch E rm c) s = None"
  shows "outcome (run E rm ips) s = None"
  using assms by (auto simp: run_eq intro!: for_err_success batch_pure)

end

interpretation frrAdd: frr_batch AddFRRRoutes addBatch routeCmd
  by unfold_locales
    (auto simp: AddFRRRoutes_def addBatch_def runVtysh_def vtysh_def run_bind case_prod_unfold emits_intros
      intro!: emits_intros)

interpretation frrDel: frr_batch DelFRRRoutes delBatch noRouteCmd
  by unfold_locales
    (auto simp: DelFRRRoutes_def delBatch_def runVtysh_def vtysh_def run_bind case_prod_unfold emits_intros
      intro!: emits_intros)

text \<open>
  Announcing routes: if one address does not parse, nothing at all is sent and an error is
  returned; in dry-run nothing is sent; otherwise the addresses are sent in order, each exactly
  once, in vtysh calls of at most 500 commands, and either all calls are made or an error is
  returned after a leading part of them.
\<close>

theorem AddFRRRoutes_batches:
  "if \<not> list_all (\<lambda>ip. ParseIP ip \<noteq> None) ips
   then (\<exists>e. outcome (AddFRRRoutes E rm ips) s = Some e) \<and> trace (AddFRRRoutes E rm ips) s = []
   else if rm_dryRun rm then outcome (AddFRRRoutes E rm ips) s = None \<and> trace (AddFRRRoutes E rm ips) s = []
   else \<exists>batches. concat batches = ips \<and> list_all (\<lambda>b. length b \<le> 500) batches
     \<and> prefix (trace (AddFRRRoutes E rm ips) s) (map (\<lambda>b. EvVtysh (batchArgs rm (map (routeCmd rm) b))) batches)
     \<and> ((\<exists>e. outcome (AddFRRRoutes E rm ips) s = Some e)
        \<or> trace (AddFRRRoutes E rm ips) s = map (\<lambda>b. EvVtysh (batchArgs rm (map (routeCmd rm) b))) batches)"
  by (rule frrAdd.behaves)

section \<open>Reading routes back\<close>

text \<open>A line of \<open>show ip route\<close> for a static route: protocol, prefix and further words.\<close>

definition routeLine :: "ip4 \<Rightarrow> string list \<Rightarrow> string" where
  "routeLine a ws = Join (''S>*'' # (dotted a @ ''/32'') # ws) '' ''"

lemma TrimSpace_words:
  assumes "ws \<noteq> []" "list_all is_word ws"
  shows "TrimSpace (Join ws '' '') = Join ws '' ''"
proof -
  have h: "Join ws '' '' \<noteq> [] \<and> \<not> is_space (hd (Join ws '' '')) \<and> \<not> is_space (last (Join ws '' ''))"
    using assms
  proof (induction ws "'' ''" rule: Join.induct)
    case (2 x)
    then show ?case by (auto simp: is_word_def list_all_iff)
  next
    case (3 x y ys)
    then show ?case by (auto simp: is_word_def list_all_iff hd_append)
  qed simp
  have "dropWhile is_space s = s" if "s \<noteq> []" "\<not> is_space (hd s)" for s
    using that by (cases s) auto
  with h show ?thesis by (simp add: TrimSpace_def hd_rev)
qed

lemma prefix32: "show_nat 32 = ''32''"
  by (simp add: show_base_big show_base_small digit_char_def char_of_def bit_Suc_0_iff)

lemma dotted32_word: "is_word (dotted a @ ''/32'')"
  using dotted_word [of a] by (auto simp: is_word_def is_space_def)

lemma parseRouteLine_routeLine:
  assumes "list_all is_word ws"
  shows "parseRouteLine (routeLine a ws) = Some (dotted a)"
proof -
  let ?ws = "''S>*'' # (dotted a @ ''/32'') # ws"
  have words: "list_all is_word ?ws"
    using assms dotted32_word by (simp add: is_word_def is_space_def)
  then have f: "Fields (routeLine a ws) = ?ws"
    unfolding routeLine_def is_word_def by (rule Fields_Join)
  have t: "TrimSpace (routeLine a ws) = routeLine a ws"
    unfolding routeLine_def by (rule TrimSpace_words [OF _ words]) simp
  have "\<exists>r. routeLine a ws = ''S'' @ r" by (cases ws) (simp_all add: routeLine_def)
  then have p: "HasPrefix (routeLine a ws) ''S''" unfolding HasPrefix_iff by blast
  have "\<exists>r. routeLine a ws = (''S>* '' @ dotted a) @ ''/32'' @ r" by (cases ws) (simp_all add: routeLine_def)
  then have c: "Contains (routeLine a ws) ''/32''" using Contains_append by metis
  have "\<not> Contains ''S>*'' ''/32''" by (simp add: HasPrefix_def)
  moreover have "Contains (dotted a @ ''/32'') ''/32''" using Contains_append [of "dotted a" "''/32''" "[]"] by simp
  moreover have "ParseCIDR (dotted a @ ''/32'') =
      Some (IPv4 a, \<lparr>net_ip = mask_ip 32 32 (IPv4 a), net_ones = 32, net_bits = 32\<rparr>)"
    using ParseCIDR_dotted [of 32 a] by (simp add: prefix32)
  ultimately show ?thesis
    by (simp add: parseRouteLine_def Let_def t p c f ipString_def)
qed

lemma word_no_newline: "is_word w \<Longrightarrow> newline \<notin> set w"
  by (auto simp: is_word_def list_all_iff is_space_def newline_def)

lemma routeLine_no_newline: "list_all is_word ws \<Longrightarrow> newline \<notin> set (routeLine a ws)"
  using word_no_newline [OF dotted32_word [of a]] word_no_newline
  by (fastforce simp: routeLine_def list_all_iff newline_def dest!: Join_chars)

text \<open>
  C35. The announced routes are read back: if FRR prints one static line per route, with any
  further words, \<open>ListFRRRoutes\<close> returns exactly the addresses, in order.
\<close>

theorem ListFRRRoutes_roundtrip:
  assumes "\<not> rm_dryRun rm" "list_all (\<lambda>(a, ws). list_all is_word ws) routes" "routes \<noteq> []"
    and "fst (e_vtysh E [''-c'', ''show ip route vrf '' @ rm_vrfName rm @ '' static''] s) =
      (Join (map (\<lambda>(a, ws). routeLine a ws) routes) [newline], None)"
  shows "outcome (ListFRRRoutes E rm) s = Inr (map (dotted \<circ> fst) routes)"
proof -
  have "Split newline (Join (map (\<lambda>(a, ws). routeLine a ws) routes) [newline]) =
      map (\<lambda>(a, ws). routeLine a ws) routes"
    using assms(2,3) by (intro Split_Join) (auto simp: list_all_iff routeLine_no_newline)
  moreover have "List.map_filter parseRouteLine (map (\<lambda>(a, ws). routeLine a ws) rs) = map (dotted \<circ> fst) rs"
    if "list_all (\<lambda>(a, ws). list_all is_word ws) rs" for rs
    using that by (induction rs) (auto simp: map_filter_simps parseRouteLine_routeLine)
  ultimately show ?thesis
    using assms(1,2,4)
    by (simp add: ListFRRRoutes_def runVtysh_def vtysh_def run_bind case_prod_unfold emits_intros)
qed

section \<open>Planning a difference\<close>

text \<open>
  The reconcilers of the agent share a shape: add what is desired and missing, then delete what is
  there and not desired.
\<close>

locale diff_plan =
  fixes wanted :: "'d \<Rightarrow> 'k set" and present :: "'c \<Rightarrow> 'k set"
    and adds dels :: "('k list \<Rightarrow> 'k list) \<Rightarrow> 'd \<Rightarrow> 'c \<Rightarrow> 'k list"
  assumes adds_set: "visit_order ord \<Longrightarrow> set (adds ord d c) = wanted d - present c"
    and dels_set: "visit_order ord \<Longrightarrow> set (dels ord d c) = present c - wanted d"
begin

lemma converges:
  "visit_order ord \<Longrightarrow> (present c \<union> set (adds ord d c)) - set (dels ord d c) = wanted d"
  by (auto simp: adds_set dels_set)

lemma keeps: "visit_order ord \<Longrightarrow> x \<in> wanted d \<Longrightarrow> x \<notin> set (dels ord d c)"
  by (simp add: dels_set)

lemma settled:
  "visit_order ord \<Longrightarrow> present c = wanted d \<Longrightarrow> adds ord d c = [] \<and> dels ord d c = []"
  using adds_set [of ord d c] dels_set [of ord d c] by simp

end

section \<open>The prefix-list converges\<close>

lemma planAdds_networks: "map snd (planAdds m ns) = ns"
  by (induction m ns rule: planAdds.induct) auto

lemma planAdds_above: "q \<in> set (map fst (planAdds m ns)) \<Longrightarrow> m < q"
proof (induction ns arbitrary: m)
  case (Cons n ns)
  then have "q = m + 5 \<or> q \<in> set (map fst (planAdds (m + 5) ns))" by simp
  then show ?case using Cons.IH [of "m + 5"] by linarith
qed simp

lemma planAdds_seqs: "sorted_wrt (<) (map fst (planAdds m ns))"
  by (induction ns arbitrary: m) (simp_all add: planAdds_above del: set_map)

lemma fold_max: "fold (\<lambda>e m. if pl_Seq e > m then pl_Seq e else m) es m = fold max (map pl_Seq es) m"
  by (induction es arbitrary: m) (simp_all add: max_def not_less)

lemma maxSeq_bound: "e \<in> set es \<Longrightarrow> pl_Seq e \<le> maxSeq es"
  unfolding maxSeq_def fold_max Max.set_eq_fold [symmetric] by (simp add: Max.set_eq_fold [symmetric] del: fold_map)

text \<open>The entries of the list, as pairs of sequence number and network.\<close>

definition entriesOf :: "prefixListEntry list \<Rightarrow> (int \<times> string) set" where
  "entriesOf es = (\<lambda>e. (pl_Seq e, pl_Network e)) ` set es"

lemma map_of_currentByNetwork:
  "map_of (currentByNetwork es) = map_of (rev (map (\<lambda>e. (pl_Network e, pl_Seq e)) es))"
  by (simp add: currentByNetwork_def map_of_upd_all)

lemma currentByNetwork_keys:
  "set (map_keys (currentByNetwork es)) = pl_Network ` set es"
  "distinct (map_keys (currentByNetwork es))"
  by (force simp: currentByNetwork_def map_keys_def upd_all_keys)
    (simp add: currentByNetwork_def map_keys_def upd_all_distinct)

lemma currentByNetwork_None: "map_of (currentByNetwork es) n = None \<longleftrightarrow> n \<notin> pl_Network ` set es"
  using currentByNetwork_keys(1) [of es] by (auto simp: map_of_eq_None_iff map_keys_def)

lemma currentByNetwork_Some:
  "map_of (currentByNetwork es) n = Some q \<Longrightarrow> (q, n) \<in> entriesOf es"
  unfolding map_of_currentByNetwork entriesOf_def by (drule map_of_SomeD) auto

lemma prefixAdds_networks:
  "visit_order ord \<Longrightarrow> set (map snd (prefixAdds ord nets es)) = netString ` set nets - pl_Network ` set es"
  by (auto simp: prefixAdds_def planAdds_networks visit_order_set dedup_id_set currentByNetwork_None
      simp del: set_map) (auto simp: dedup_id_set)

lemma prefixAdds_distinct: "visit_order ord \<Longrightarrow> distinct (map snd (prefixAdds ord nets es))"
  by (simp add: prefixAdds_def planAdds_networks visit_order_distinct dedup_id_distinct)

lemma prefixDels_networks:
  "visit_order ord \<Longrightarrow> set (map snd (prefixDels ord nets es)) = pl_Network ` set es - netString ` set nets"
  by (auto simp: prefixDels_def visit_order_set currentByNetwork_keys)

lemma prefixDels_present:
  assumes "visit_order ord"
  shows "set (prefixDels ord nets es) \<subseteq> entriesOf es"
proof
  fix x assume "x \<in> set (prefixDels ord nets es)"
  then obtain n where n: "x = (the (map_of (currentByNetwork es) n), n)" "n \<in> pl_Network ` set es"
    by (auto simp: prefixDels_def visit_order_set [OF assms] currentByNetwork_keys)
  then obtain q where "map_of (currentByNetwork es) n = Some q"
    using currentByNetwork_None [of es n] by blast
  with n currentByNetwork_Some [of es n q] show "x \<in> entriesOf es" by simp
qed

interpretation prefix_plan: diff_plan "\<lambda>nets. netString ` set nets" "\<lambda>es. pl_Network ` set es"
  "\<lambda>ord nets es. map snd (prefixAdds ord nets es)" "\<lambda>ord nets es. map snd (prefixDels ord nets es)"
  by unfold_locales (rule prefixAdds_networks prefixDels_networks, assumption)+

lemma prefixAdds_seq_fresh:
  assumes "a \<in> set (prefixAdds ord nets es)" "x \<in> entriesOf es"
  shows "fst x < fst a"
proof -
  from assms(2) obtain e where e: "e \<in> set es" "x = (pl_Seq e, pl_Network e)" by (auto simp: entriesOf_def)
  from e(1) have "pl_Seq e \<le> maxSeq es" by (rule maxSeq_bound)
  moreover have "maxSeq es < fst a"
    using assms(1) by (intro planAdds_above) (auto simp: prefixAdds_def)
  ultimately show ?thesis using e(2) by simp
qed

lemma snd_entriesOf: "snd ` entriesOf es = pl_Network ` set es"
  by (force simp: entriesOf_def)

lemma entriesOf_unique:
  "distinct (map pl_Network es) \<Longrightarrow> (q, n) \<in> entriesOf es \<Longrightarrow> (q', n) \<in> entriesOf es \<Longrightarrow> q = q'"
  by (auto simp: entriesOf_def distinct_map dest: inj_onD)

lemma distinct_snd_unique:
  "distinct (map snd xs) \<Longrightarrow> (q, n) \<in> set xs \<Longrightarrow> (q', n) \<in> set xs \<Longrightarrow> q = q'"
  by (induction xs) force+

lemma prefixAdds_unique:
  "visit_order ord \<Longrightarrow> (q, n) \<in> set (prefixAdds ord nets es) \<Longrightarrow> (q', n) \<in> set (prefixAdds ord nets es) \<Longrightarrow> q = q'"
  by (rule distinct_snd_unique [OF prefixAdds_distinct])

text \<open>What the list holds after the planned commands.\<close>

definition plannedEntries :: "(string list \<Rightarrow> string list) \<Rightarrow> ipnet list \<Rightarrow> prefixListEntry list \<Rightarrow> (int \<times> string) set" where
  "plannedEntries ord nets es =
     (entriesOf es \<union> set (prefixAdds ord nets es)) - set (prefixDels ord nets es)"

lemma planned_unique:
  assumes "visit_order ord" "distinct (map pl_Network es)"
    and "(q, n) \<in> plannedEntries ord nets es" "(q', n) \<in> plannedEntries ord nets es"
  shows "q = q'"
proof (cases "n \<in> pl_Network ` set es")
  case True
  then have "n \<notin> snd ` set (prefixAdds ord nets es)"
    using prefixAdds_networks [OF assms(1), of nets es] by auto
  with assms(3,4) have "(q, n) \<in> entriesOf es" "(q', n) \<in> entriesOf es"
    by (force simp: plannedEntries_def)+
  with assms(2) show ?thesis by (rule entriesOf_unique)
next
  case False
  then have "(q, n) \<in> set (prefixAdds ord nets es)" "(q', n) \<in> set (prefixAdds ord nets es)"
    using assms(3,4) snd_entriesOf [of es] by (force simp: plannedEntries_def)+
  with assms(1) show ?thesis by (rule prefixAdds_unique)
qed

lemma planned_networks:
  assumes "visit_order ord" "distinct (map pl_Network es)"
  shows "snd ` plannedEntries ord nets es = netString ` set nets"
proof
  let ?A = "set (prefixAdds ord nets es)" and ?D = "set (prefixDels ord nets es)"
  have a: "snd ` ?A = netString ` set nets - pl_Network ` set es"
    using prefixAdds_networks [OF assms(1), of nets es] by simp
  have d: "snd ` ?D = pl_Network ` set es - netString ` set nets"
    using prefixDels_networks [OF assms(1), of nets es] by simp
  show "netString ` set nets \<subseteq> snd ` plannedEntries ord nets es"
  proof
    fix n assume n: "n \<in> netString ` set nets"
    then have "n \<notin> snd ` ?D" using d by auto
    moreover have "n \<in> snd ` (entriesOf es \<union> ?A)"
      using n a snd_entriesOf [of es] by (auto simp: image_Un)
    ultimately show "n \<in> snd ` plannedEntries ord nets es"
      by (force simp: plannedEntries_def)
  qed
  show "snd ` plannedEntries ord nets es \<subseteq> netString ` set nets"
  proof
    fix n assume "n \<in> snd ` plannedEntries ord nets es"
    then obtain q where "(q, n) \<in> plannedEntries ord nets es" by auto
    then have q: "(q, n) \<in> entriesOf es \<union> ?A" "(q, n) \<notin> ?D"
      unfolding plannedEntries_def by blast+
    show "n \<in> netString ` set nets"
    proof (rule ccontr)
      assume n: "n \<notin> netString ` set nets"
      then have "n \<notin> snd ` ?A" using a by auto
      with q have e: "(q, n) \<in> entriesOf es" by force
      then have "n \<in> snd ` entriesOf es" by force
      then have "n \<in> snd ` ?D" using n d snd_entriesOf [of es] by auto
      then obtain q' where q': "(q', n) \<in> ?D" by auto
      then have "(q', n) \<in> entriesOf es" using prefixDels_present [OF assms(1)] by blast
      with assms(2) e have "q = q'" by (rule entriesOf_unique)
      with q' q(2) show False by simp
    qed
  qed
qed


section \<open>Carrying out the plan\<close>

lemma entry_run:
  "P (EvVtysh (plArgs (permitCmd rm (fst a) (snd a)))) \<Longrightarrow> emits P (addEntry E rm a)"
  "P (EvVtysh (plArgs (''no '' @ permitCmd rm (fst a) (snd a)))) \<Longrightarrow> emits P (delEntry E rm a)"
  "trace (addEntry E rm a) s = [EvVtysh (plArgs (permitCmd rm (fst a) (snd a)))]"
  "trace (delEntry E rm a) s = [EvVtysh (plArgs (''no '' @ permitCmd rm (fst a) (snd a)))]"
  by (auto simp: addEntry_def delEntry_def runVtysh_def vtysh_def run_bind case_prod_unfold emits_intros
      intro!: emits_intros)

lemma for_err_then:
  fixes f :: "'a \<Rightarrow> ('s, goerr option) io" and g :: "'b \<Rightarrow> ('s, goerr option) io" and xs ys
  assumes "\<And>x. pure_log (f x)" "\<And>x s. trace (f x) s = [ev x]"
    and "\<And>y. pure_log (g y)" "\<And>y s. trace (g y) s = [ev' y]"
  defines "m \<equiv> State_Monad.bind (for_err f xs) (\<lambda>e. case e of Some err \<Rightarrow> ret (Some err) | None \<Rightarrow> for_err g ys)"
  shows "prefix (trace m s) (map ev xs @ map ev' ys)
    \<and> ((\<exists>e. outcome m s = Some e) \<or> trace m s = map ev xs @ map ev' ys)"
proof -
  have p1: "pure_log (for_err f xs)" by (intro emits_intros assms)
  have p2: "pure_log (case e of Some err \<Rightarrow> ret (Some err) | None \<Rightarrow> for_err g ys)" for e
    by (intro emits_intros assms)
  note f = for_err_trace [of f ev, OF assms(1,2), of xs s]
  note g = for_err_trace [of g ev', OF assms(3,4), of ys "final (for_err f xs) s"]
  show ?thesis
  proof (cases "outcome (for_err f xs) s")
    case None
    with f g show ?thesis by (auto simp: m_def run_bind [OF p1 p2])
  next
    case (Some e)
    with f show ?thesis by (auto simp: m_def run_bind [OF p1 p2] intro: prefix_prefix)
  qed
qed

lemma emits_ListFRRPrefixListEntries [emits_intros]:
  "P (EvVtysh [''-c'', ''show ip prefix-list '' @ rm_frrPrefixList rm]) \<Longrightarrow>
   emits P (ListFRRPrefixListEntries E rm)"
  by (auto simp: ListFRRPrefixListEntries_def runVtysh_def intro!: emits_intros)

lemma trace_ListFRRPrefixListEntries:
  "rm_frrPrefixList rm \<noteq> [] \<Longrightarrow> trace (ListFRRPrefixListEntries E rm) s =
     [EvVtysh [''-c'', ''show ip prefix-list '' @ rm_frrPrefixList rm]]"
  by (simp add: ListFRRPrefixListEntries_def runVtysh_def vtysh_def run_bind case_prod_unfold emits_intros)

definition prefixCmds :: "RouteManager \<Rightarrow> (int \<times> string) list \<Rightarrow> (int \<times> string) list \<Rightarrow> ev list" where
  "prefixCmds rm as ds = EvVtysh [''-c'', ''show ip prefix-list '' @ rm_frrPrefixList rm] #
     map (\<lambda>a. EvVtysh (plArgs (permitCmd rm (fst a) (snd a)))) as @
     map (\<lambda>a. EvVtysh (plArgs (''no '' @ permitCmd rm (fst a) (snd a)))) ds"

lemma ReconcileFRRPrefixList_run:
  fixes ord E and s :: 's and nets cur
  assumes "rm_frrPrefixList rm \<noteq> []" "\<not> rm_dryRun rm"
    and "outcome (ListFRRPrefixListEntries E rm) s = Inr cur"
  defines "cmds \<equiv> prefixCmds rm (prefixAdds ord nets cur) (prefixDels ord nets cur)"
    and "run \<equiv> ReconcileFRRPrefixList ord E rm nets"
  shows "prefix (trace run s) cmds \<and> ((\<exists>e. outcome run s = Some e) \<or> trace run s = cmds)"
proof -
  let ?rest = "\<lambda>cur. State_Monad.bind (for_err (addEntry E rm) (prefixAdds ord nets cur))
    (\<lambda>e. case e of Some err \<Rightarrow> ret (Some err) | None \<Rightarrow> for_err (delEntry E rm) (prefixDels ord nets cur))"
  have p: "pure_log (case r of Inl e \<Rightarrow> ret (Some (ErrWrap ''list prefix-list entries'' e)) | Inr c \<Rightarrow> ?rest c)" for r
    by (intro emits_intros entry_run) simp_all
  have l: "pure_log (ListFRRPrefixListEntries E rm)" by (intro emits_intros) simp
  note rest = for_err_then [where f = "addEntry E rm" and g = "delEntry E rm" and xs = "prefixAdds ord nets cur"
      and ys = "prefixDels ord nets cur" and s = "final (ListFRRPrefixListEntries E rm) s",
      OF entry_run(1) entry_run(3) entry_run(2) entry_run(4), simplified]
  then show ?thesis
    using assms(1,2,3)
    by (simp add: cmds_def run_def prefixCmds_def ReconcileFRRPrefixList_def run_bind [OF l p]
        trace_ListFRRPrefixListEntries)
qed

text \<open>
  C27. Reconciling the prefix-list: after reading it, every missing network gets an entry with a
  sequence number above all existing ones, so that no entry is overwritten; only then stale
  entries are removed; an error stops the run after a leading part of these commands. If each
  network had at most one entry before, it holds exactly one entry for every desired network
  and nothing else afterwards.
\<close>

theorem ReconcileFRRPrefixList_exact:
  assumes "visit_order ord" "rm_frrPrefixList rm \<noteq> []" "\<not> rm_dryRun rm"
    and "outcome (ListFRRPrefixListEntries E rm) s = Inr cur"
    and "distinct (map pl_Network cur)"
  shows "(let cmds = prefixCmds rm (prefixAdds ord nets cur) (prefixDels ord nets cur);
              run = ReconcileFRRPrefixList ord E rm nets
          in prefix (trace run s) cmds \<and> ((\<exists>e. outcome run s = Some e) \<or> trace run s = cmds))
    \<and> (\<forall>a\<in>set (prefixAdds ord nets cur). \<forall>e\<in>set cur. pl_Seq e < fst a)
    \<and> snd ` plannedEntries ord nets cur = netString ` set nets
    \<and> (\<forall>n. (\<exists>!q. (q, n) \<in> plannedEntries ord nets cur) \<longleftrightarrow> n \<in> netString ` set nets)"
proof (intro conjI allI ballI)
  show "let cmds = prefixCmds rm (prefixAdds ord nets cur) (prefixDels ord nets cur);
            run = ReconcileFRRPrefixList ord E rm nets
        in prefix (trace run s) cmds \<and> ((\<exists>e. outcome run s = Some e) \<or> trace run s = cmds)"
    using ReconcileFRRPrefixList_run [OF assms(2,3,4)] by simp
  show "pl_Seq e < fst a" if "a \<in> set (prefixAdds ord nets cur)" "e \<in> set cur" for a e
    using prefixAdds_seq_fresh [OF that(1), of "(pl_Seq e, pl_Network e)"] that(2)
    by (auto simp: entriesOf_def)
  show im: "snd ` plannedEntries ord nets cur = netString ` set nets"
    by (rule planned_networks [OF assms(1,5)])
  show "(\<exists>!q. (q, n) \<in> plannedEntries ord nets cur) \<longleftrightarrow> n \<in> netString ` set nets" for n
  proof
    assume "\<exists>!q. (q, n) \<in> plannedEntries ord nets cur"
    then obtain q where "(q, n) \<in> plannedEntries ord nets cur" by blast
    then have "snd (q, n) \<in> snd ` plannedEntries ord nets cur" by (rule imageI)
    then show "n \<in> netString ` set nets" by (simp add: im)
  next
    assume "n \<in> netString ` set nets"
    then obtain q where "(q, n) \<in> plannedEntries ord nets cur" by (auto simp: im [symmetric])
    then show "\<exists>!q. (q, n) \<in> plannedEntries ord nets cur"
      using planned_unique [OF assms(1,5)] by (intro ex1I)
  qed
qed

text \<open>If the list holds a network twice, only the last of its entries is removed.\<close>

lemma prefix_duplicate_survives:
  "(10, ''192.0.2.0/24'') \<in> plannedEntries (\<lambda>x. x) []
     [\<lparr>pl_Seq = 10, pl_Network = ''192.0.2.0/24''\<rparr>, \<lparr>pl_Seq = 20, pl_Network = ''192.0.2.0/24''\<rparr>]"
  by (simp add: plannedEntries_def entriesOf_def prefixDels_def currentByNetwork_def map_keys_def)

section \<open>Inactive routes\<close>

text \<open>
  An announced address is reported as inactive exactly when FRR has the route and none of
  its entries is both selected and installed; the report is sorted, holds only addresses that
  were asked for, and nothing is written.
\<close>

theorem InactiveFRRRoutes_exact:
  assumes "\<not> rm_dryRun rm" "ips \<noteq> []"
    and "fst (e_vtysh E [''-c'', ''show ip route vrf '' @ rm_vrfName rm @ '' static json''] s) = (out, None)"
    and "TrimSpace out \<noteq> []" "unmarshal (TrimSpace out) = Inr routes"
  shows "\<exists>r. outcome (InactiveFRRRoutes unmarshal E rm ips) s = Inr r \<and> sorted r
    \<and> mset r = {#ip \<in># mset ips. \<exists>es. map_of routes (ip @ ''/32'') = Some es
         \<and> (\<forall>e\<in>set es. \<not> (fr_Selected e \<and> fr_Installed e))#}"
proof -
  have i: "isInactive routes ip \<longleftrightarrow> (\<exists>es. map_of routes (ip @ ''/32'') = Some es
         \<and> (\<forall>e\<in>set es. \<not> (fr_Selected e \<and> fr_Installed e)))" for ip
    by (auto simp: isInactive_def list_ex_iff split: option.split)
  have "outcome (InactiveFRRRoutes unmarshal E rm ips) s = Inr (sort (filter (isInactive routes) ips))"
    using assms
    by (simp add: InactiveFRRRoutes_def runVtysh_def vtysh_def run_bind case_prod_unfold emits_intros)
  then show ?thesis by (simp add: i)
qed


section \<open>Examples\<close>

text \<open>An environment whose vtysh answers every command with one text and whose netlink is silent.\<close>

definition textEnv :: "string \<Rightarrow> unit sysenv" where
  "textEnv out = \<lparr>e_vtysh = (\<lambda>args s. ((out, None), s)), e_ovs = (\<lambda>argv s. (([], None), s)),
     e_nft = (\<lambda>args i s. (([], None), s)), e_lookpath = (\<lambda>n s. (None, s)), e_euid = (\<lambda>s. (0, s)),
     e_link = (\<lambda>n s. (Inl (ErrMsg ''Link not found''), s)), e_addrs = (\<lambda>l s. (Inr [], s)),
     e_routes = (\<lambda>f s. (Inr [], s)), e_rules = (\<lambda>s. (Inr [], s)), e_netlink = (\<lambda>r s. (None, s)),
     e_write = (\<lambda>p c s. (None, s)), e_now = (\<lambda>s. (0, s))\<rparr>"

definition demo_rm :: RouteManager where
  "demo_rm = (NewRouteManager defaultConfig)\<lparr>rm_frrPrefixList := ''ANNOUNCED''\<rparr>"

lemma demo_rm_simps [simp]:
  "rm_frrPrefixList demo_rm = ''ANNOUNCED''" "\<not> rm_dryRun demo_rm"
  by (simp_all add: demo_rm_def NewRouteManager_def defaultConfig_def)

lemma textEnv_vtysh [simp]: "e_vtysh (textEnv out) args s = ((out, None), s)"
  by (simp add: textEnv_def)

definition demo_listing :: string where
  "demo_listing = ''ZEBRA: ip prefix-list ANNOUNCED: 1 entries'' @ [newline] @
     ''   seq 5 permit 198.51.100.0/24 ge 32 le 32'' @ [newline]"

lemma demo_listing_parsed:
  "outcome (ListFRRPrefixListEntries (textEnv demo_listing) demo_rm) () =
     Inr [\<lparr>pl_Seq = 5, pl_Network = ''198.51.100.0/24''\<rparr>]"
proof -
  have "\<not> Contains demo_listing (''Can'' @ [CHR 0x27] @ ''t find'') \<and> TrimSpace demo_listing \<noteq> []
    \<and> List.map_filter parsePrefixLine (Split newline demo_listing) = [\<lparr>pl_Seq = 5, pl_Network = ''198.51.100.0/24''\<rparr>]"
    by code_simp
  then show ?thesis
    by (simp add: ListFRRPrefixListEntries_def runVtysh_def vtysh_def run_bind case_prod_unfold emits_intros)
qed

theorem ReconcileFRRPrefixList_exact_witness:
  "snd ` plannedEntries rev [] [\<lparr>pl_Seq = 5, pl_Network = ''198.51.100.0/24''\<rparr>] = {}"
  using ReconcileFRRPrefixList_exact [where ord = rev and rm = demo_rm and E = "textEnv demo_listing" and s = "()"
      and cur = "[\<lparr>pl_Seq = 5, pl_Network = ''198.51.100.0/24''\<rparr>]" and nets = "[]",
      OF visit_order_rev _ _ demo_listing_parsed] by simp

theorem InactiveFRRRoutes_exact_witness:
  "\<exists>r. outcome (InactiveFRRRoutes
        (\<lambda>_. Inr [(''192.0.2.1/32'', [\<lparr>fr_Selected = True, fr_Installed = False\<rparr>])])
        (textEnv ''{}'') demo_rm [''192.0.2.1'', ''192.0.2.2'']) () = Inr r
    \<and> mset r = {#''192.0.2.1''#}"
proof -
  have t: "TrimSpace ''{}'' \<noteq> []" by code_simp
  show ?thesis
    using InactiveFRRRoutes_exact [where rm = demo_rm and E = "textEnv ''{}''" and s = "()" and out = "''{}''"
        and ips = "[''192.0.2.1'', ''192.0.2.2'']"
        and unmarshal = "\<lambda>_. Inr [(''192.0.2.1/32'', [\<lparr>fr_Selected = True, fr_Installed = False\<rparr>])]"
        and routes = "[(''192.0.2.1/32'', [\<lparr>fr_Selected = True, fr_Installed = False\<rparr>])]", OF _ _ _ t]
    by auto
qed

theorem ListFRRRoutes_roundtrip_witness:
  "outcome (ListFRRRoutes (textEnv (Join [routeLine 1 [''via''], routeLine 2 []] [newline])) demo_rm) () =
     Inr [dotted 1, dotted 2]"
  using ListFRRRoutes_roundtrip [where rm = demo_rm and routes = "[(1, [''via'']), (2, [])]" and s = "()"
      and E = "textEnv (Join [routeLine 1 [''via''], routeLine 2 []] [newline])"]
  by (simp add: is_word_def is_space_def)

end
