(* ===== verification/Kernel.thy ===== *)
theory Kernel
  imports Routing
begin

text \<open>
  Bridge device, kernel host routes and their policy rules (\<open>routing_linux.go\<close>), over netlink requests
  and sysctl writes of the environment.
\<close>

section \<open>The bridge device\<close>

definition rtProtoOVNNetworkAgent :: int where
  "rtProtoOVNNetworkAgent = 44"

definition CheckBridgeDevice :: "'s sysenv \<Rightarrow> RouteManager \<Rightarrow> ('s, goerr option) io" where
  "CheckBridgeDevice E rm =
     (if rm_dryRun rm then ret None
      else do { uid \<leftarrow> Geteuid E;
        if uid \<noteq> 0
        then do { uid \<leftarrow> Geteuid E;
                  ret (Some (ErrMsg (''agent must run as root (current euid: '' @ show_int uid @ '')''))) }
        else fetch (''bridge device '' @ rm_bridgeDev rm @ '' not found'') (LinkByName E (rm_bridgeDev rm))
          (\<lambda>link. if \<not> l_up link
                  then attempt (''failed to bring up bridge device '' @ rm_bridgeDev rm)
                         (netlink E (LinkSetUp link)) (ret None)
                  else ret None) })"

definition EnsureBridgeIP :: "'s sysenv \<Rightarrow> RouteManager \<Rightarrow> string \<Rightarrow> ('s, goerr option) io" where
  "EnsureBridgeIP E rm ip =
     (if rm_dryRun rm then ret None
      else case ParseIP ip of None \<Rightarrow> ret (Some (ErrMsg (''invalid IP: '' @ ip))) | Some parsed \<Rightarrow>
        fetch (''find bridge '' @ rm_bridgeDev rm) (LinkByName E (rm_bridgeDev rm)) (\<lambda>link.
        fetch (''list addrs on '' @ rm_bridgeDev rm) (AddrList E link) (\<lambda>addrs.
          if has addrs parsed then ret None
          else attempt (''add IP '' @ ip @ ''/32 to '' @ rm_bridgeDev rm)
                 (netlink E (AddrAdd link (Some parsed, 32))) (ret None))))"

definition RemoveBridgeIP :: "'s sysenv \<Rightarrow> RouteManager \<Rightarrow> string \<Rightarrow> ('s, goerr option) io" where
  "RemoveBridgeIP E rm ip =
     (if rm_dryRun rm then ret None
      else case ParseIP ip of None \<Rightarrow> ret (Some (ErrMsg (''invalid IP: '' @ ip))) | Some parsed \<Rightarrow>
        fetch (''find bridge '' @ rm_bridgeDev rm) (LinkByName E (rm_bridgeDev rm)) (\<lambda>link.
          attempt (''remove IP '' @ ip @ ''/32 from '' @ rm_bridgeDev rm)
            (netlink E (AddrDel link (Some parsed, 32))) (ret None)))"

text \<open>
  \<open>filepath.Join\<close> below a rooted path: empty elements are dropped and the result is cleaned
  of \<open>"."\<close>, \<open>".."\<close> and empty components.
\<close>

fun cleanParts :: "string list \<Rightarrow> string list \<Rightarrow> string list" where
  "cleanParts acc [] = rev acc"
| "cleanParts acc (p # ps) =
     (if p = [] \<or> p = ''.'' then cleanParts acc ps
      else if p = ''..'' then cleanParts (tl acc) ps
      else cleanParts (p # acc) ps)"

definition rootedJoin :: "string list \<Rightarrow> string" where
  "rootedJoin elems =
     ''/'' @ Join (cleanParts [] (Split CHR ''/'' (Join (filter (\<lambda>e. e \<noteq> []) elems) ''/''))) ''/''"

definition confPath :: "string \<Rightarrow> string \<Rightarrow> string" where
  "confPath dev leaf = rootedJoin [''/proc/sys/net/ipv4/conf'', dev, leaf]"

definition EnableProxyARP :: "'s sysenv \<Rightarrow> RouteManager \<Rightarrow> ('s, goerr option) io" where
  "EnableProxyARP E rm =
     (if rm_dryRun rm then ret None
      else attempt (''enable proxy ARP on '' @ rm_bridgeDev rm)
             (WriteFile E (confPath (rm_bridgeDev rm) ''proxy_arp'') (''1'' @ [newline])) (ret None))"

definition GetBridgeMAC :: "'s sysenv \<Rightarrow> RouteManager \<Rightarrow> ('s, string result) io" where
  "GetBridgeMAC E rm =
     do { r \<leftarrow> LinkByName E (rm_bridgeDev rm);
          ret (case r of Inl err \<Rightarrow> Inl (ErrWrap (''find bridge '' @ rm_bridgeDev rm) err)
               | Inr link \<Rightarrow> Inr (l_mac link)) }"

section \<open>Policy rules\<close>

text \<open>\<open>netlink.NewRule\<close> leaves every other field unset.\<close>

definition NewRule :: nlrule where
  "NewRule = \<lparr>ru_dst = None, ru_src = None, ru_mark = 0, ru_mask = None, ru_table = 0, ru_prio = -1\<rparr>"

definition isFileExists :: "goerr \<Rightarrow> bool" where
  "isFileExists e = errIs 17 e"

definition ipRule :: "RouteManager \<Rightarrow> ipnet \<Rightarrow> nlrule" where
  "ipRule rm dst = NewRule\<lparr>ru_dst := Some dst, ru_table := rm_routeTableID rm, ru_prio := 1000\<rparr>"

definition ensureIPRule :: "'s sysenv \<Rightarrow> RouteManager \<Rightarrow> ipnet \<Rightarrow> ('s, goerr option) io" where
  "ensureIPRule E rm dst =
     do { e \<leftarrow> netlink E (RuleAdd (ipRule rm dst));
          ret (case e of None \<Rightarrow> None | Some err \<Rightarrow> if isFileExists err then None else Some err) }"

definition removeIPRule :: "'s sysenv \<Rightarrow> RouteManager \<Rightarrow> ipnet \<Rightarrow> ('s, unit) io" where
  "removeIPRule E rm dst = do { e \<leftarrow> netlink E (RuleDel (ipRule rm dst)); ret () }"

section \<open>Kernel routes\<close>

definition emptyRoute :: nlroute where
  "emptyRoute = \<lparr>rt_link = 0, rt_dst = None, rt_gw = None, rt_table = 0, rt_scope_link = False, rt_proto = 0\<rparr>"

definition hostRoute :: "RouteManager \<Rightarrow> lnk \<Rightarrow> ip \<Rightarrow> nlroute" where
  "hostRoute rm link a =
     (let route = emptyRoute\<lparr>rt_link := l_index link, rt_dst := Some (host32 a), rt_scope_link := True\<rparr>
      in if rm_routeTableID rm > 0 then route\<lparr>rt_table := rm_routeTableID rm\<rparr> else route)"

definition AddKernelRoute :: "'s sysenv \<Rightarrow> RouteManager \<Rightarrow> string \<Rightarrow> ('s, goerr option) io" where
  "AddKernelRoute E rm ip =
     (if rm_dryRun rm then ret None
      else fetch (''find bridge '' @ rm_bridgeDev rm) (LinkByName E (rm_bridgeDev rm)) (\<lambda>link.
        case ParseIP ip of None \<Rightarrow> ret (Some (ErrMsg (''invalid IP: '' @ ip))) | Some a \<Rightarrow>
        attempt (''add kernel route '' @ ip @ ''/32 dev '' @ rm_bridgeDev rm)
          (netlink E (RouteReplace (hostRoute rm link a)))
          (if rm_routeTableID rm > 0
           then do { e \<leftarrow> ensureIPRule E rm (host32 a);
                     case e of None \<Rightarrow> ret None | Some err \<Rightarrow>
                     do { _ \<leftarrow> netlink E (RouteDel (hostRoute rm link a));
                          ret (Some (ErrWrap (''add ip rule for '' @ ip @ '' (route rolled back)'') err)) } }
           else ret None)))"

definition DelKernelRoute :: "'s sysenv \<Rightarrow> RouteManager \<Rightarrow> string \<Rightarrow> ('s, goerr option) io" where
  "DelKernelRoute E rm ip =
     (if rm_dryRun rm then ret None
      else fetch (''find bridge '' @ rm_bridgeDev rm) (LinkByName E (rm_bridgeDev rm)) (\<lambda>link.
        case ParseIP ip of None \<Rightarrow> ret (Some (ErrMsg (''invalid IP: '' @ ip))) | Some a \<Rightarrow>
        do { _ \<leftarrow> (if rm_routeTableID rm > 0 then removeIPRule E rm (host32 a) else ret ());
             e \<leftarrow> netlink E (RouteDel (hostRoute rm link a));
             ret (case e of None \<Rightarrow> None | Some err \<Rightarrow>
               if isNoSuchRoute err then None
               else Some (ErrWrap (''del kernel route '' @ ip @ ''/32 dev '' @ rm_bridgeDev rm) err)) }))"

definition bridgeFilter :: "RouteManager \<Rightarrow> lnk \<Rightarrow> rtfilter" where
  "bridgeFilter rm link =
     \<lparr>fl_link = Some (l_index link),
      fl_table = (if rm_routeTableID rm > 0 then Some (rm_routeTableID rm) else None), fl_proto = None\<rparr>"

definition hostRoutes :: "nlroute list \<Rightarrow> string list" where
  "hostRoutes routes = List.map_filter (\<lambda>r. case rt_dst r of None \<Rightarrow> None
     | Some d \<Rightarrow> if net_ones d = 32 then Some (ipString (net_ip d)) else None) routes"

definition ListKernelRoutes :: "'s sysenv \<Rightarrow> RouteManager \<Rightarrow> ('s, string list result) io" where
  "ListKernelRoutes E rm =
     (if rm_dryRun rm then ret (Inr [])
      else do { l \<leftarrow> LinkByName E (rm_bridgeDev rm);
                case l of Inl err \<Rightarrow> ret (Inl (ErrWrap (''find bridge '' @ rm_bridgeDev rm) err)) | Inr link \<Rightarrow>
           do { r \<leftarrow> RouteListFiltered E (bridgeFilter rm link);
                ret (case r of Inl err \<Rightarrow> Inl (ErrWrap (''list routes on '' @ rm_bridgeDev rm) err)
                     | Inr routes \<Rightarrow> Inr (hostRoutes routes)) } })"

definition ignoring :: "('w, goerr option) state \<Rightarrow> ('w, unit) state" where
  "ignoring m = do { e \<leftarrow> m; ret () }"

definition CleanupRoutingTable :: "'s sysenv \<Rightarrow> RouteManager \<Rightarrow> ('s, goerr option) io" where
  "CleanupRoutingTable E rm =
     (if rm_routeTableID rm = 0 then ret None
      else if rm_dryRun rm then ret None
      else fetch ''list ip rules'' (RuleList E) (\<lambda>rules.
        do { _ \<leftarrow> for_each (\<lambda>r. ignoring (netlink E (RuleDel r)))
                    (filter (\<lambda>r. ru_table r = rm_routeTableID rm) rules);
             fetch (''list routes in table '' @ show_int (rm_routeTableID rm))
               (RouteListFiltered E \<lparr>fl_link = None, fl_table = Some (rm_routeTableID rm), fl_proto = None\<rparr>)
               (\<lambda>routes. do { _ \<leftarrow> for_each (\<lambda>r. ignoring (netlink E (RouteDel r))) routes; ret None }) }))"

section \<open>What the operations do\<close>

lemmas run_prims = prim_defs run_bind run_attempt run_fetch emits_intros

lemma emits_GetBridgeMAC [emits_intros]:
  "(\<And>n. P (EvQuery [''link'', n])) \<Longrightarrow> emits P (GetBridgeMAC E rm)"
  by (auto simp: GetBridgeMAC_def intro!: emits_intros)

lemma emits_ensureIPRule:
  "P (EvNl (RuleAdd (ipRule rm d))) \<Longrightarrow> emits P (ensureIPRule E rm d)"
  by (auto simp: ensureIPRule_def intro!: emits_intros)

lemma emits_removeIPRule:
  "P (EvNl (RuleDel (ipRule rm d))) \<Longrightarrow> emits P (removeIPRule E rm d)"
  by (auto simp: removeIPRule_def intro!: emits_intros)

lemma emits_ListKernelRoutes:
  "(\<And>q. P (EvQuery q)) \<Longrightarrow> emits P (ListKernelRoutes E rm)"
  by (auto simp: ListKernelRoutes_def intro!: emits_intros)

lemma emits_AddKernelRoute:
  assumes "\<And>q. P (EvQuery q)"
    and "\<And>l a. ParseIP ip = Some a \<Longrightarrow> P (EvNl (RouteReplace (hostRoute rm l a)))"
    and "\<And>l a. ParseIP ip = Some a \<Longrightarrow> P (EvNl (RouteDel (hostRoute rm l a)))"
    and "\<And>a. ParseIP ip = Some a \<Longrightarrow> P (EvNl (RuleAdd (ipRule rm (host32 a))))"
  shows "emits P (AddKernelRoute E rm ip)"
  unfolding AddKernelRoute_def by (intro emits_intros emits_ensureIPRule assms)

lemma emits_DelKernelRoute:
  assumes "\<And>q. P (EvQuery q)"
    and "\<And>l a. ParseIP ip = Some a \<Longrightarrow> P (EvNl (RouteDel (hostRoute rm l a)))"
    and "\<And>a. ParseIP ip = Some a \<Longrightarrow> P (EvNl (RuleDel (ipRule rm (host32 a))))"
  shows "emits P (DelKernelRoute E rm ip)"
  unfolding DelKernelRoute_def by (intro emits_intros emits_removeIPRule assms)

lemma emits_ignoring [emits_intros]: "emits P m \<Longrightarrow> emits P (ignoring m)"
  unfolding ignoring_def by (intro emits_intros)

text \<open>
  Installing a kernel route in a dedicated table is all or nothing: either the route and its
  policy rule were both accepted and nothing is undone, or an error is returned and the kernel
  got nothing, a route it refused, or a route and rule attempt followed by the removal of that
  very route.
\<close>

theorem AddKernelRoute_all_or_nothing:
  assumes "\<not> rm_dryRun rm" "0 < rm_routeTableID rm"
  shows "\<exists>link a. let r = hostRoute rm link a; q = ipRule rm (host32 a);
      w = filter writes (trace (AddKernelRoute E rm ip) s)
    in if outcome (AddKernelRoute E rm ip) s = None
       then w = [EvNl (RouteReplace r), EvNl (RuleAdd q)]
       else w = [] \<or> w = [EvNl (RouteReplace r)]
         \<or> w = [EvNl (RouteReplace r), EvNl (RuleAdd q), EvNl (RouteDel r)]"
  using assms
  by (auto simp: AddKernelRoute_def ensureIPRule_def run_prims Let_def split: sum.split option.split)


text \<open>A listed route is one the agent installed: the address is read back.\<close>

lemma rt_dst_hostRoute [simp]: "rt_dst (hostRoute rm link a) = Some (host32 a)"
  by (simp add: hostRoute_def Let_def)

lemma hostRoutes_hostRoute: "hostRoutes (map (hostRoute rm link) as) = map ipString as"
  by (induction as) (simp_all add: hostRoutes_def map_filter_simps host32_def)

lemma CleanupRoutingTable_own:
  "emits (\<lambda>e. \<forall>r. e = EvNl (RuleDel r) \<longrightarrow> ru_table r = rm_routeTableID rm) (CleanupRoutingTable E rm)"
  unfolding CleanupRoutingTable_def by (intro emits_intros) auto

lemma kernel_dry_run:
  assumes "rm_dryRun rm"
  shows "CheckBridgeDevice E rm = ret None" "EnsureBridgeIP E rm ip = ret None"
    "RemoveBridgeIP E rm ip = ret None" "EnableProxyARP E rm = ret None"
    "AddKernelRoute E rm ip = ret None" "DelKernelRoute E rm ip = ret None"
    "ListKernelRoutes E rm = ret (Inr [])" "CleanupRoutingTable E rm = ret None"
  using assms
  by (simp_all add: CheckBridgeDevice_def EnsureBridgeIP_def RemoveBridgeIP_def EnableProxyARP_def
      AddKernelRoute_def DelKernelRoute_def ListKernelRoutes_def CleanupRoutingTable_def)

section \<open>Examples\<close>

definition demo_link :: lnk where
  "demo_link = \<lparr>l_name = ''br-ex'', l_index = 7, l_up = True, l_mac = ''0a:00:00:00:00:01'', l_vrf = Some 10\<rparr>"

definition linkEnv :: "unit sysenv" where
  "linkEnv = (textEnv [])\<lparr>e_link := \<lambda>n s. (Inr demo_link, s)\<rparr>"

definition table_rm :: RouteManager where
  "table_rm = demo_rm\<lparr>rm_routeTableID := 200\<rparr>"

theorem AddKernelRoute_all_or_nothing_witness:
  "\<exists>link a. filter writes (trace (AddKernelRoute linkEnv table_rm ''192.0.2.1'') ()) =
     [EvNl (RouteReplace (hostRoute table_rm link a)), EvNl (RuleAdd (ipRule table_rm (host32 a)))]"
proof -
  have "outcome (AddKernelRoute linkEnv table_rm ''192.0.2.1'') () = None"
    by (simp add: AddKernelRoute_def ensureIPRule_def run_prims linkEnv_def textEnv_def table_rm_def
        demo_rm_def NewRouteManager_def defaultConfig_def net_eval char_of_def bit_Suc_0_iff)
  then show ?thesis
    using AddKernelRoute_all_or_nothing [of table_rm linkEnv "''192.0.2.1''" "()"]
    by (auto simp: table_rm_def Let_def)
qed

end
