(* ===== verification/Ovs.thy ===== *)
theory Ovs
  imports Kernel
begin

text \<open>
  OpenFlow flows on the provider bridge (\<open>ovs.go\<close>): discovery of the patch port, whose result is
  cached in the route manager, the MAC-tweak flows and the hairpin flows of the local addresses.
  An operation that changes the cache returns the new route manager.
\<close>

section \<open>Flows\<close>

definition ovsCookieMACTweak :: string where
  "ovsCookieMACTweak = ''0x999''"

definition ovsCookieHairpin :: string where
  "ovsCookieHairpin = ''0x998''"

definition MACTweakFlow :: "string \<Rightarrow> string \<Rightarrow> string \<Rightarrow> bool \<Rightarrow> string" where
  "MACTweakFlow cookie ofport mac ipv6 =
     ''cookie='' @ cookie @ '',priority=900,'' @ (if ipv6 then ''ipv6'' else ''ip'') @ '',in_port='' @ ofport @
     '',actions=mod_dl_dst:'' @ mac @ '',NORMAL''"

definition HairpinFlow :: "string \<Rightarrow> string \<Rightarrow> string \<Rightarrow> string \<Rightarrow> string \<Rightarrow> bool \<Rightarrow> string" where
  "HairpinFlow cookie ofport ip bridgeMAC routerMAC ipv6 =
     (if ipv6
      then ''cookie='' @ cookie @ '',priority=910,ipv6,in_port='' @ ofport @ '',ipv6_dst='' @ ip @
        ''/128,actions=mod_dl_src:'' @ bridgeMAC @ '',mod_dl_dst:'' @ routerMAC @ '',output:in_port''
      else ''cookie='' @ cookie @ '',priority=910,ip,in_port='' @ ofport @ '',ip_dst='' @ ip @
        ''/32,actions=mod_dl_src:'' @ bridgeMAC @ '',mod_dl_dst:'' @ routerMAC @ '',output:in_port'')"

definition ovsCmd :: "RouteManager \<Rightarrow> string \<Rightarrow> string list \<Rightarrow> string list" where
  "ovsCmd rm binary args =
     (case rm_ovsWrapper rm of [] \<Rightarrow> binary # args | w # ws \<Rightarrow> w # (ws @ [binary]) @ args)"

definition runOVS :: "'s sysenv \<Rightarrow> RouteManager \<Rightarrow> string \<Rightarrow> string list \<Rightarrow> ('s, string \<times> goerr option) io" where
  "runOVS E rm binary args = ovs_exec E (ovsCmd rm binary args)"

definition addFlowCmd :: "RouteManager \<Rightarrow> string \<Rightarrow> string list" where
  "addFlowCmd rm flow = ovsCmd rm ''ovs-ofctl'' [''add-flow'', rm_bridgeDev rm, flow]"

definition addOVSFlow :: "'s sysenv \<Rightarrow> RouteManager \<Rightarrow> string \<Rightarrow> ('s, goerr option) io" where
  "addOVSFlow E rm flow =
     do { (out, e) \<leftarrow> runOVS E rm ''ovs-ofctl'' [''add-flow'', rm_bridgeDev rm, flow];
          ret (map_option (ErrWrap (''ovs-ofctl add-flow '' @ rm_bridgeDev rm @ '' '' @ flow)) e) }"

definition delFlows :: "'s sysenv \<Rightarrow> RouteManager \<Rightarrow> string \<Rightarrow> ('s, string \<times> goerr option) io" where
  "delFlows E rm cookie =
     runOVS E rm ''ovs-ofctl'' [''del-flows'', rm_bridgeDev rm, ''cookie='' @ cookie @ ''/-1'']"

section \<open>Discovery\<close>

definition getOFPort :: "'s sysenv \<Rightarrow> RouteManager \<Rightarrow> string \<Rightarrow> ('s, string result) io" where
  "getOFPort E rm port =
     do { (out, e) \<leftarrow> runOVS E rm ''ovs-vsctl'' [''get'', ''Interface'', port, ''ofport''];
          ret (case e of Some err \<Rightarrow> Inl (ErrWrap (''get ofport for '' @ port) err)
               | None \<Rightarrow> (let ofport = TrimSpace out in
                   if ofport = [] \<or> ofport = ''-1''
                   then Inl (ErrMsg (''invalid ofport '' @ ofport @ '' for '' @ port)) else Inr ofport)) }"

fun firstPatch :: "'s sysenv \<Rightarrow> RouteManager \<Rightarrow> string list \<Rightarrow> ('s, string option) io" where
  "firstPatch E rm [] = ret None"
| "firstPatch E rm (port # ports) =
     do { (out, e) \<leftarrow> runOVS E rm ''ovs-vsctl'' [''--if-exists'', ''get'', ''Interface'', port, ''type''];
          case e of Some err \<Rightarrow> firstPatch E rm ports
          | None \<Rightarrow> if TrimSpace out = ''patch'' then ret (Some port) else firstPatch E rm ports }"

definition discoverPatchPort :: "'s sysenv \<Rightarrow> RouteManager \<Rightarrow> ('s, string result) io" where
  "discoverPatchPort E rm =
     do { (out, e) \<leftarrow> runOVS E rm ''ovs-vsctl'' [''list-ports'', rm_bridgeDev rm];
          case e of Some err \<Rightarrow> ret (Inl (ErrWrap (''list-ports '' @ rm_bridgeDev rm) err))
          | None \<Rightarrow> do { p \<leftarrow> firstPatch E rm (Fields (TrimSpace out));
              ret (case p of Some port \<Rightarrow> Inr port
                   | None \<Rightarrow> Inl (ErrMsg (''no patch port found on bridge '' @ rm_bridgeDev rm))) } }"

text \<open>Discovery from scratch: the cache is written only when every step succeeded.\<close>

definition rediscover :: "'s sysenv \<Rightarrow> RouteManager \<Rightarrow> ('s, goerr option \<times> RouteManager) io" where
  "rediscover E rm =
     do { p \<leftarrow> discoverPatchPort E rm;
          case p of Inl err \<Rightarrow> ret (Some (ErrWrap (''discover patch port on '' @ rm_bridgeDev rm) err), rm)
          | Inr patchPort \<Rightarrow>
     do { o' \<leftarrow> getOFPort E rm patchPort;
          case o' of Inl err \<Rightarrow> ret (Some (ErrWrap (''get ofport for '' @ patchPort) err), rm)
          | Inr ofport \<Rightarrow>
     do { m \<leftarrow> GetBridgeMAC E rm;
          ret (case m of Inl err \<Rightarrow> (Some (ErrWrap ''get bridge MAC'' err), rm)
               | Inr mac \<Rightarrow> (None, rm\<lparr>rm_cachedPatchPort := patchPort, rm_cachedOfport := ofport,
                                       rm_cachedBridgeMAC := mac\<rparr>)) } } }"

definition refreshOVSDiscovery :: "'s sysenv \<Rightarrow> RouteManager \<Rightarrow> ('s, goerr option \<times> RouteManager) io" where
  "refreshOVSDiscovery E rm =
     (if rm_cachedPatchPort rm \<noteq> []
      then do { o' \<leftarrow> getOFPort E rm (rm_cachedPatchPort rm);
                if o' = Inr (rm_cachedOfport rm) then ret (None, rm)
                else rediscover E (rm\<lparr>rm_cachedPatchPort := [], rm_cachedOfport := []\<rparr>) }
      else rediscover E rm)"

section \<open>Operations\<close>

definition EnsureOVSFlows :: "'s sysenv \<Rightarrow> RouteManager \<Rightarrow> ('s, goerr option \<times> RouteManager) io" where
  "EnsureOVSFlows E rm0 =
     (if rm_dryRun rm0 then ret (None, rm0)
      else do { (e, rm) \<leftarrow> refreshOVSDiscovery E rm0;
                case e of Some err \<Rightarrow> ret (Some err, rm) | None \<Rightarrow>
           do { _ \<leftarrow> delFlows E rm ovsCookieMACTweak;
                e \<leftarrow> attempt ''add IPv4 MAC-tweak flow''
                       (addOVSFlow E rm (MACTweakFlow ovsCookieMACTweak (rm_cachedOfport rm) (rm_cachedBridgeMAC rm) False))
                    (attempt ''add IPv6 MAC-tweak flow''
                       (addOVSFlow E rm (MACTweakFlow ovsCookieMACTweak (rm_cachedOfport rm) (rm_cachedBridgeMAC rm) True))
                    (ret None));
                ret (e, rm) } })"

definition hairpinFor :: "RouteManager \<Rightarrow> string \<times> string \<Rightarrow> ip \<Rightarrow> string" where
  "hairpinFor rm im a =
     HairpinFlow ovsCookieHairpin (rm_cachedOfport rm) (fst im) (rm_cachedBridgeMAC rm) (snd im) (To4 a = None)"

definition addHairpin :: "'s sysenv \<Rightarrow> RouteManager \<Rightarrow> string \<times> string \<Rightarrow> ('s, goerr option) io" where
  "addHairpin E rm im =
     (case ParseIP (fst im) of
        None \<Rightarrow> ret (Some (ErrMsg (''invalid IP '' @ fst im)))
      | Some a \<Rightarrow> attempt (''add hairpin flow for '' @ fst im) (addOVSFlow E rm (hairpinFor rm im a)) (ret None))"

definition ReconcileOVSHairpinFlows ::
  "((string \<times> string) list \<Rightarrow> (string \<times> string) list) \<Rightarrow> 's sysenv \<Rightarrow> RouteManager \<Rightarrow> (string, string) gomap \<Rightarrow>
   ('s, goerr option) io" where
  "ReconcileOVSHairpinFlows ord E rm ipToRouterMAC =
     (if rm_dryRun rm then ret None
      else if rm_cachedOfport rm = [] then ret None
      else do { (out, e) \<leftarrow> delFlows E rm ovsCookieHairpin;
                case e of Some err \<Rightarrow> ret (Some (ErrWrap (''del hairpin OVS flows on '' @ rm_bridgeDev rm) err))
                | None \<Rightarrow> for_err (addHairpin E rm) (ord ipToRouterMAC) })"

definition RemoveOVSFlows :: "'s sysenv \<Rightarrow> RouteManager \<Rightarrow> ('s, goerr option) io" where
  "RemoveOVSFlows E rm =
     (if rm_dryRun rm then ret None
      else do { (out, e) \<leftarrow> delFlows E rm ovsCookieMACTweak;
                case e of Some err \<Rightarrow> ret (Some (ErrWrap (''del OVS flows on '' @ rm_bridgeDev rm) err))
                | None \<Rightarrow>
           do { (hout, herr) \<leftarrow> delFlows E rm ovsCookieHairpin;
                ret (map_option (ErrWrap (''del hairpin OVS flows on '' @ rm_bridgeDev rm)) herr) } })"

section \<open>What the operations do\<close>

lemma emits_runOVS [emits_intros]: "P (EvOVS (ovsCmd rm b args)) \<Longrightarrow> emits P (runOVS E rm b args)"
  unfolding runOVS_def by (intro emits_intros)

lemma emits_getOFPort [emits_intros]:
  "P (EvOVS (ovsCmd rm ''ovs-vsctl'' [''get'', ''Interface'', port, ''ofport''])) \<Longrightarrow> emits P (getOFPort E rm port)"
  unfolding getOFPort_def by (intro emits_intros)

lemma emits_firstPatch:
  "(\<And>port. P (EvOVS (ovsCmd rm ''ovs-vsctl'' [''--if-exists'', ''get'', ''Interface'', port, ''type'']))) \<Longrightarrow>
   emits P (firstPatch E rm ports)"
  by (induction ports) (auto intro!: emits_intros)

lemma emits_rediscover:
  assumes "\<And>args. P (EvOVS (ovsCmd rm ''ovs-vsctl'' args))" "\<And>n. P (EvQuery [''link'', n])"
  shows "emits P (rediscover E rm)"
  unfolding rediscover_def discoverPatchPort_def
  by (intro emits_intros emits_firstPatch assms)

lemma ovsCmd_cache [simp]:
  "ovsCmd (rm\<lparr>rm_cachedPatchPort := p\<rparr>) = ovsCmd rm" "ovsCmd (rm\<lparr>rm_cachedOfport := q\<rparr>) = ovsCmd rm"
  "ovsCmd (rm\<lparr>rm_cachedBridgeMAC := m\<rparr>) = ovsCmd rm"
  by (simp_all add: ovsCmd_def fun_eq_iff)

lemma emits_refreshOVSDiscovery:
  assumes "\<And>args. P (EvOVS (ovsCmd rm ''ovs-vsctl'' args))" "\<And>n. P (EvQuery [''link'', n])"
  shows "emits P (refreshOVSDiscovery E rm)"
  unfolding refreshOVSDiscovery_def
  by (intro emits_intros emits_rediscover assms) (simp_all add: assms)

lemma getOFPort_valid: "outcome (getOFPort E rm port) s = Inr p \<Longrightarrow> p \<noteq> [] \<and> p \<noteq> ''-1''"
  by (auto simp: getOFPort_def runOVS_def run_prims case_prod_unfold Let_def split: option.splits if_splits)

section \<open>The cached discovery\<close>

lemma fields_acc_words: "w \<in> set (fields_acc acc s) \<Longrightarrow> w \<noteq> []"
  by (induction acc s rule: fields_acc.induct) (auto split: if_splits)

lemma Fields_words: "w \<in> set (Fields s) \<Longrightarrow> w \<noteq> []"
  unfolding Fields_def by (rule fields_acc_words)

lemma firstPatch_mem: "outcome (firstPatch E rm ports) s = Some p \<Longrightarrow> p \<in> set ports"
proof (induction ports arbitrary: s)
  case (Cons q ports)
  let ?c = "runOVS E rm ''ovs-vsctl'' [''--if-exists'', ''get'', ''Interface'', q, ''type'']"
  have p: "pure_log (case r of (out, e) \<Rightarrow> case e of Some err \<Rightarrow> firstPatch E rm ports
      | None \<Rightarrow> if TrimSpace out = ''patch'' then ret (Some q) else firstPatch E rm ports)" for r
    by (intro emits_intros emits_firstPatch) simp_all
  have c: "pure_log ?c" by (intro emits_intros) simp
  from Cons.prems show ?case
    by (auto simp: run_bind [OF c p] split: prod.splits option.splits if_splits dest: Cons.IH)
qed simp

lemma discoverPatchPort_ne: "outcome (discoverPatchPort E rm) s = Inr p \<Longrightarrow> p \<noteq> []"
proof -
  assume a: "outcome (discoverPatchPort E rm) s = Inr p"
  let ?c = "runOVS E rm ''ovs-vsctl'' [''list-ports'', rm_bridgeDev rm]"
  have f: "pure_log (firstPatch E rm ports)" for ports by (intro emits_firstPatch) simp
  have k: "pure_log (case r of (out, e) \<Rightarrow> case e of
      Some err \<Rightarrow> ret (Inl (ErrWrap (''list-ports '' @ rm_bridgeDev rm) err))
    | None \<Rightarrow> State_Monad.bind (firstPatch E rm (Fields (TrimSpace out)))
        (\<lambda>p. ret (case p of Some port \<Rightarrow> Inr port
          | None \<Rightarrow> Inl (ErrMsg (''no patch port found on bridge '' @ rm_bridgeDev rm)))))" for r
    by (intro emits_intros f)
  have c: "pure_log ?c" by (intro emits_intros) simp
  obtain out e where r: "outcome ?c s = (out, e)" by fastforce
  have e: "e = None"
    using a r by (cases e) (simp_all add: discoverPatchPort_def run_bind [OF c k])
  have "outcome (firstPatch E rm (Fields (TrimSpace out))) (final ?c s) = Some p"
    using a by (auto simp: discoverPatchPort_def run_bind [OF c k] r e run_bind [OF f emits_ret]
        split: option.splits)
  then show "p \<noteq> []" by (rule Fields_words [OF firstPatch_mem])
qed

text \<open>
  The cache is consistent when a patch port is cached exactly with an OpenFlow port number, and
  that number is not the one Open vSwitch reports for a port it could not create.
\<close>

definition ovs_cache_ok :: "RouteManager \<Rightarrow> bool" where
  "ovs_cache_ok rm \<longleftrightarrow> (rm_cachedPatchPort rm = [] \<longleftrightarrow> rm_cachedOfport rm = []) \<and> rm_cachedOfport rm \<noteq> ''-1''"

lemma NewRouteManager_cache: "ovs_cache_ok (NewRouteManager cfg)"
  by (simp add: ovs_cache_ok_def NewRouteManager_def)

lemma pure_discovery:
  "pure_log (discoverPatchPort E rm)" "pure_log (getOFPort E rm port)" "pure_log (GetBridgeMAC E rm)"
  "pure_log (rediscover E rm)" "pure_log (refreshOVSDiscovery E rm)"
  unfolding discoverPatchPort_def
  by (intro emits_intros emits_firstPatch emits_rediscover emits_refreshOVSDiscovery; simp)+

lemma run_result_bind:
  assumes "pure_log m" "\<And>x. pure_log (k x)"
  shows "outcome (State_Monad.bind m (\<lambda>r. case r of Inl err \<Rightarrow> ret (f err) | Inr x \<Rightarrow> k x)) s =
    (case outcome m s of Inl err \<Rightarrow> f err | Inr x \<Rightarrow> outcome (k x) (final m s))"
proof -
  have p: "pure_log (case r of Inl err \<Rightarrow> ret (f err) | Inr x \<Rightarrow> k x)" for r
    by (intro emits_intros assms)
  show ?thesis by (simp add: run_bind [OF assms(1) p] split: sum.split)
qed

lemma rediscover_result:
  assumes "outcome (rediscover E rm) s = (e, rm')"
  shows "(e \<noteq> None \<and> rm' = rm) \<or>
    (e = None \<and> (\<exists>p q m s'. rm' = rm\<lparr>rm_cachedPatchPort := p, rm_cachedOfport := q, rm_cachedBridgeMAC := m\<rparr>
       \<and> p \<noteq> [] \<and> outcome (getOFPort E rm p) s' = Inr q))"
proof -
  define last_step where "last_step = (\<lambda>patchPort ofport. State_Monad.bind (GetBridgeMAC E rm) (\<lambda>m.
    ret (case m of Inl err \<Rightarrow> (Some (ErrWrap ''get bridge MAC'' err), rm)
      | Inr mac \<Rightarrow> (None, rm\<lparr>rm_cachedPatchPort := patchPort, rm_cachedOfport := ofport,
                              rm_cachedBridgeMAC := mac\<rparr>))))"
  define mid where "mid = (\<lambda>patchPort. State_Monad.bind (getOFPort E rm patchPort) (\<lambda>r. case r of
      Inl err \<Rightarrow> ret (Some (ErrWrap (''get ofport for '' @ patchPort) err), rm)
    | Inr ofport \<Rightarrow> last_step patchPort ofport))"
  have l: "pure_log (last_step a b)" for a b
    unfolding last_step_def by (intro emits_intros pure_discovery)
  have m: "pure_log (mid a)" for a
    unfolding mid_def by (intro emits_intros pure_discovery l)
  have r: "rediscover E rm = State_Monad.bind (discoverPatchPort E rm) (\<lambda>r. case r of
      Inl err \<Rightarrow> ret (Some (ErrWrap (''discover patch port on '' @ rm_bridgeDev rm) err), rm)
    | Inr p \<Rightarrow> mid p)"
    unfolding rediscover_def mid_def last_step_def ..
  show ?thesis
  proof (cases "outcome (discoverPatchPort E rm) s")
    case (Inl err)
    with assms show ?thesis by (simp add: r run_result_bind pure_discovery m) auto
  next
    case (Inr p)
    let ?s = "final (discoverPatchPort E rm) s"
    have a: "outcome (mid p) ?s = (e, rm')"
      using assms Inr by (simp add: r run_result_bind pure_discovery m)
    show ?thesis
    proof (cases "outcome (getOFPort E rm p) ?s")
      case (Inl err)
      with a show ?thesis by (simp add: mid_def run_result_bind pure_discovery l) auto
    next
      case q: (Inr q)
      with a have "outcome (last_step p q) (final (getOFPort E rm p) ?s) = (e, rm')"
        by (simp add: mid_def run_result_bind pure_discovery l)
      then have "(e \<noteq> None \<and> rm' = rm) \<or> (e = None \<and>
          (\<exists>m. rm' = rm\<lparr>rm_cachedPatchPort := p, rm_cachedOfport := q, rm_cachedBridgeMAC := m\<rparr>))"
        by (auto simp: last_step_def run_bind [OF pure_discovery(3) emits_ret] split: sum.splits)
      with q discoverPatchPort_ne [OF Inr] show ?thesis by blast
    qed
  qed
qed

lemma getOFPort_cache [simp]:
  "getOFPort E (rm\<lparr>rm_cachedPatchPort := p\<rparr>) = getOFPort E rm"
  "getOFPort E (rm\<lparr>rm_cachedOfport := q\<rparr>) = getOFPort E rm"
  "getOFPort E (rm\<lparr>rm_cachedBridgeMAC := m\<rparr>) = getOFPort E rm"
  by (simp_all add: getOFPort_def runOVS_def fun_eq_iff)

text \<open>
  C29. The discovery cache stays consistent: a refresh keeps it well formed whatever Open vSwitch
  answers; on success it holds a port number that Open vSwitch reported for the cached patch port
  during this very call; on failure both entries are empty, so that no flow is built on a stale
  port number. Nothing else of the route manager changes.
\<close>

theorem refreshOVSDiscovery_cache:
  assumes "ovs_cache_ok rm"
  shows "case outcome (refreshOVSDiscovery E rm) s of (e, rm') \<Rightarrow>
    ovs_cache_ok rm'
    \<and> (if e = None then rm_cachedOfport rm' \<noteq> []
         \<and> (\<exists>s'. outcome (getOFPort E rm (rm_cachedPatchPort rm')) s' = Inr (rm_cachedOfport rm'))
       else rm_cachedPatchPort rm' = [] \<and> rm_cachedOfport rm' = [])
    \<and> rm'\<lparr>rm_cachedPatchPort := [], rm_cachedOfport := [], rm_cachedBridgeMAC := []\<rparr> =
      rm\<lparr>rm_cachedPatchPort := [], rm_cachedOfport := [], rm_cachedBridgeMAC := []\<rparr>"
proof -
  obtain e rm' where r: "outcome (refreshOVSDiscovery E rm) s = (e, rm')" by fastforce
  let ?rm0 = "rm\<lparr>rm_cachedPatchPort := [], rm_cachedOfport := []\<rparr>"
  have empty: "rm_cachedPatchPort rm = [] \<Longrightarrow> rm = ?rm0"
    using assms by (cases rm) (simp add: ovs_cache_ok_def)
  have red: ?thesis if out: "outcome (rediscover E ?rm0) s' = (e, rm')" for s'
    using rediscover_result [OF out]
  proof
    assume "e = None \<and> (\<exists>p q m s'. rm' = ?rm0\<lparr>rm_cachedPatchPort := p, rm_cachedOfport := q,
        rm_cachedBridgeMAC := m\<rparr> \<and> p \<noteq> [] \<and> outcome (getOFPort E ?rm0 p) s' = Inr q)"
    then obtain p q m s' where q: "e = None" "rm' = rm\<lparr>rm_cachedPatchPort := p, rm_cachedOfport := q,
        rm_cachedBridgeMAC := m\<rparr>" "p \<noteq> []" "outcome (getOFPort E rm p) s' = Inr q" by auto
    with getOFPort_valid [OF q(4)] show ?thesis by (auto simp: r ovs_cache_ok_def)
  qed (auto simp: r ovs_cache_ok_def)
  show ?thesis
  proof (cases "rm_cachedPatchPort rm = []")
    case True
    then have "refreshOVSDiscovery E rm = rediscover E ?rm0"
      using arg_cong [OF empty [OF True], of "rediscover E"] by (simp add: refreshOVSDiscovery_def)
    then have "outcome (rediscover E ?rm0) s = (e, rm')" using r by simp
    then show ?thesis by (rule red)
  next
    case False
    let ?m = "getOFPort E rm (rm_cachedPatchPort rm)"
    have o': "outcome (refreshOVSDiscovery E rm) s = (if outcome ?m s = Inr (rm_cachedOfport rm) then (None, rm)
        else outcome (rediscover E ?rm0) (final ?m s))"
      using False by (simp add: refreshOVSDiscovery_def run_bind pure_discovery emits_intros)
    show ?thesis
    proof (cases "outcome ?m s = Inr (rm_cachedOfport rm)")
      case True
      with o' r have "e = None" "rm' = rm" by auto
      with True assms False show ?thesis by (auto simp: r ovs_cache_ok_def)
    next
      case False
      with o' r have "outcome (rediscover E ?rm0) (final ?m s) = (e, rm')" by simp
      then show ?thesis by (rule red)
    qed
  qed
qed

section \<open>Hairpin flows\<close>

definition delHairpinCmd :: "RouteManager \<Rightarrow> string list" where
  "delHairpinCmd rm = ovsCmd rm ''ovs-ofctl'' [''del-flows'', rm_bridgeDev rm, ''cookie='' @ ovsCookieHairpin @ ''/-1'']"

lemma addOVSFlow_run:
  "P (EvOVS (addFlowCmd rm flow)) \<Longrightarrow> emits P (addOVSFlow E rm flow)"
  "trace (addOVSFlow E rm flow) s = [EvOVS (addFlowCmd rm flow)]"
  by (auto simp: addOVSFlow_def addFlowCmd_def runOVS_def run_prims case_prod_unfold intro!: emits_intros)

lemma delFlows_run:
  "P (EvOVS (ovsCmd rm ''ovs-ofctl'' [''del-flows'', rm_bridgeDev rm, ''cookie='' @ c @ ''/-1''])) \<Longrightarrow>
     emits P (delFlows E rm c)"
  "trace (delFlows E rm c) s = [EvOVS (ovsCmd rm ''ovs-ofctl'' [''del-flows'', rm_bridgeDev rm, ''cookie='' @ c @ ''/-1''])]"
  by (auto simp: delFlows_def runOVS_def run_prims intro!: emits_intros)

lemma addHairpin_run:
  "(\<And>a. ParseIP (fst im) = Some a \<Longrightarrow> P (EvOVS (addFlowCmd rm (hairpinFor rm im a)))) \<Longrightarrow>
     emits P (addHairpin E rm im)"
  "ParseIP (fst im) = Some a \<Longrightarrow> trace (addHairpin E rm im) s = [EvOVS (addFlowCmd rm (hairpinFor rm im a))]"
  by (auto simp: addHairpin_def run_attempt addOVSFlow_run emits_intros intro!: emits_intros addOVSFlow_run
      split: option.splits)

text \<open>The flow of one address, as \<open>HairpinFlow\<close> prints it for the parsed address.\<close>

definition hairpinCmd :: "RouteManager \<Rightarrow> string \<times> string \<Rightarrow> string list" where
  "hairpinCmd rm im = addFlowCmd rm (hairpinFor rm im (the (ParseIP (fst im))))"


lemma pure_EnsureOVSFlows: "pure_log (EnsureOVSFlows E rm)"
  unfolding EnsureOVSFlows_def
  by (intro emits_intros pure_discovery delFlows_run addOVSFlow_run) simp_all

lemma ovs_dry_run:
  assumes "rm_dryRun rm"
  shows "EnsureOVSFlows E rm = ret (None, rm)" "ReconcileOVSHairpinFlows ord E rm m = ret None"
    "RemoveOVSFlows E rm = ret None"
  using assms by (simp_all add: EnsureOVSFlows_def ReconcileOVSHairpinFlows_def RemoveOVSFlows_def)

section \<open>Examples\<close>

definition ovs_rm :: RouteManager where
  "ovs_rm = demo_rm\<lparr>rm_cachedPatchPort := ''patch'', rm_cachedOfport := ''3''\<rparr>"

theorem refreshOVSDiscovery_cache_witness:
  "ovs_cache_ok (snd (outcome (refreshOVSDiscovery linkEnv ovs_rm) ()))"
  using refreshOVSDiscovery_cache [of ovs_rm linkEnv "()"]
  by (simp add: ovs_cache_ok_def ovs_rm_def split: prod.splits)

lemma demo_parses: "ParseIP ''192.0.2.1'' \<noteq> None" "ParseIP ''192.0.2.2'' \<noteq> None"
  by (simp_all add: net_eval char_of_def bit_Suc_0_iff)


end
