(* ===== verification/Validate.thy ===== *)
theory Validate
  imports Config
begin

text \<open>
  Validation of the configuration and the loading of its layers (\<open>config.go\<close>,
  \<open>validateConfig\<close>, \<open>validateMode\<close>, \<open>loadConfig\<close>). Each error message of the source is a
  constructor of \<open>config_error\<close>. The loops keep the source's "seen" maps as lists; the
  specification \<open>config_ok\<close> says the same without loops.
\<close>

datatype config_error =
    ConfigFile goerr
  | BadNexthop string | BadVRF string | BadRouteTable int | BadCIDR string
  | BadPrefixList string | NegDrainTimeout | DrainNeedsTimeout | NegSettleDelay | NegStaleGrace
  | BadMetricsListen string
  | BadLeakTable int | LeakTableIsRouteTable int | BadProviderIP string
  | BadForwardTable int | ForwardTableIsRouteTable int | BadCTZone int
  | ForwardTableIsLeakTable int | BadForwardDev string | ForwardNeedsVethLeak
  | BadVIP nat string | VIPNotIPv4 nat string | DupVIP nat string | NoRules nat string
  | BadProto nat nat string | BadPort nat nat int | DupRule nat nat string int
  | DestExclusive nat nat | DestMissing nat nat | TooManyDests nat nat nat
  | BadDest nat nat nat string | DestNotIPv4 nat nat string | DupDest nat nat string
  | BadDestPort nat nat int
  | NothingToDo | IncompleteOVN | RouterMasqNeedsOVN nat string | HairpinNeedsCIDR nat string

section \<open>validateConfig\<close>

fun parse_cidrs :: "string list \<Rightarrow> config_error + ipnet list" where
  "parse_cidrs [] = Inr []"
| "parse_cidrs (s # ss) =
     (case ParseCIDR s of
        None \<Rightarrow> Inl (BadCIDR s)
      | Some (a, n) \<Rightarrow> (case parse_cidrs ss of Inl e \<Rightarrow> Inl e | Inr ns \<Rightarrow> Inr (n # ns)))"

definition validateBase :: "Config \<Rightarrow> config_error + Config" where
  "validateBase cfg =
     (if ParseIP (c_VethNexthop cfg) = None then Inl (BadNexthop (c_VethNexthop cfg))
      else if c_VRFName cfg \<noteq> [] \<and> \<not> isValidIdentifier (c_VRFName cfg)
        then Inl (BadVRF (c_VRFName cfg))
      else if c_RouteTableID cfg < 0 \<or> c_RouteTableID cfg > 252
        then Inl (BadRouteTable (c_RouteTableID cfg))
      else if c_NetworkCIDRs cfg \<noteq> [] then
        (case parse_cidrs (c_NetworkCIDRs cfg) of
           Inl e \<Rightarrow> Inl e | Inr ns \<Rightarrow> Inr (cfg\<lparr>c_NetworkFilters := ns\<rparr>))
      else Inr cfg)"

definition validateTimers :: "Config \<Rightarrow> config_error + Config" where
  "validateTimers cfg =
     (if c_FRRPrefixList cfg \<noteq> [] \<and> \<not> isValidIdentifier (c_FRRPrefixList cfg)
        then Inl (BadPrefixList (c_FRRPrefixList cfg))
      else if c_DrainTimeout cfg < 0 then Inl NegDrainTimeout
      else if c_DrainOnShutdown cfg \<and> c_DrainTimeout cfg = 0 then Inl DrainNeedsTimeout
      else if c_DrainSettleDelay cfg < 0 then Inl NegSettleDelay
      else if c_StaleChassisGracePeriod cfg < 0 then Inl NegStaleGrace
      else if c_MetricsListen cfg \<noteq> [] \<and> \<not> splitHostPort_ok (c_MetricsListen cfg)
        then Inl (BadMetricsListen (c_MetricsListen cfg))
      else Inr cfg)"

text \<open>The provider address: the configured one, else the successor of the nexthop. A nil
  address prints as \<open><nil>\<close>.\<close>

definition providerIP :: "Config \<Rightarrow> string" where
  "providerIP cfg =
     (if c_VethProviderIP cfg \<noteq> [] then c_VethProviderIP cfg
      else case Option.bind (ParseIP (c_VethNexthop cfg)) nextIPInSubnet of
             Some a \<Rightarrow> ipString a | None \<Rightarrow> ''<nil>'')"

definition validateLeak :: "Config \<Rightarrow> config_error + Config" where
  "validateLeak cfg =
     (if \<not> c_VethLeakEnabled cfg then Inr cfg
      else if c_VethLeakTableID cfg < 1 \<or> c_VethLeakTableID cfg > 252
        then Inl (BadLeakTable (c_VethLeakTableID cfg))
      else if c_VethLeakTableID cfg = c_RouteTableID cfg \<and> c_RouteTableID cfg \<noteq> 0
        then Inl (LeakTableIsRouteTable (c_VethLeakTableID cfg))
      else if ParseIP (providerIP cfg) = None then Inl (BadProviderIP (providerIP cfg))
      else Inr (cfg\<lparr>c_VethProviderIP := providerIP cfg\<rparr>))"

text \<open>The three nested loops over \<open>port_forwards\<close>; each returns its first error.\<close>

fun check_addrs :: "nat \<Rightarrow> nat \<Rightarrow> nat \<Rightarrow> string list \<Rightarrow> string list \<Rightarrow> config_error option" where
  "check_addrs i j k seen [] = None"
| "check_addrs i j k seen (addr # addrs) =
     (case ParseIP addr of
        None \<Rightarrow> Some (BadDest i j k addr)
      | Some a \<Rightarrow>
          if To4 a = None then Some (DestNotIPv4 i j addr)
          else if has seen addr then Some (DupDest i j addr)
          else check_addrs i j (Suc k) (addr # seen) addrs)"

definition maxBackends :: nat where
  "maxBackends = 256"

definition ruleKey :: "PortForwardRule \<Rightarrow> string" where
  "ruleKey r = r_Proto r @ ''/'' @ show_int (r_Port r)"

fun check_rules :: "nat \<Rightarrow> nat \<Rightarrow> string list \<Rightarrow> PortForwardRule list \<Rightarrow> config_error option" where
  "check_rules i j seen [] = None"
| "check_rules i j seen (r # rs) =
     (if r_Proto r \<noteq> ''tcp'' \<and> r_Proto r \<noteq> ''udp'' then Some (BadProto i j (r_Proto r))
      else if r_Port r < 1 \<or> r_Port r > 65535 then Some (BadPort i j (r_Port r))
      else if has seen (ruleKey r) then Some (DupRule i j (r_Proto r) (r_Port r))
      else if r_DestAddr r \<noteq> [] \<and> length (r_DestAddrs r) > 0 then Some (DestExclusive i j)
      else if destAddrs r = [] then Some (DestMissing i j)
      else if length (destAddrs r) > maxBackends
        then Some (TooManyDests i j (length (destAddrs r)))
      else case check_addrs i j 0 [] (destAddrs r) of
             Some e \<Rightarrow> Some e
           | None \<Rightarrow>
               if r_DestPort r < 0 \<or> r_DestPort r > 65535
               then Some (BadDestPort i j (r_DestPort r))
               else check_rules i (Suc j) (ruleKey r # seen) rs)"

fun check_forwards :: "nat \<Rightarrow> string list \<Rightarrow> PortForwardVIP list \<Rightarrow> config_error option" where
  "check_forwards i seen [] = None"
| "check_forwards i seen (pf # pfs) =
     (case ParseIP (v_VIP pf) of
        None \<Rightarrow> Some (BadVIP i (v_VIP pf))
      | Some a \<Rightarrow>
          if To4 a = None then Some (VIPNotIPv4 i (v_VIP pf))
          else if has seen (v_VIP pf) then Some (DupVIP i (v_VIP pf))
          else if length (v_Rules pf) = 0 then Some (NoRules i (v_VIP pf))
          else case check_rules i 0 [] (v_Rules pf) of
                 Some e \<Rightarrow> Some e
               | None \<Rightarrow> check_forwards (Suc i) (v_VIP pf # seen) pfs)"

definition validateForwards :: "Config \<Rightarrow> config_error + Config" where
  "validateForwards cfg0 =
     (let cfg = cfg0\<lparr>c_PortForwardEnabled := (c_PortForwards cfg0 \<noteq> [])\<rparr> in
      if \<not> c_PortForwardEnabled cfg then Inr cfg
      else if c_PortForwardTableID cfg < 1 \<or> c_PortForwardTableID cfg > 252
        then Inl (BadForwardTable (c_PortForwardTableID cfg))
      else if c_PortForwardTableID cfg = c_RouteTableID cfg \<and> c_RouteTableID cfg \<noteq> 0
        then Inl (ForwardTableIsRouteTable (c_PortForwardTableID cfg))
      else if c_PortForwardCTZone cfg < 1 \<or> c_PortForwardCTZone cfg > 65535
        then Inl (BadCTZone (c_PortForwardCTZone cfg))
      else if c_PortForwardTableID cfg = c_VethLeakTableID cfg
        then Inl (ForwardTableIsLeakTable (c_PortForwardTableID cfg))
      else if \<not> isValidIdentifier (c_PortForwardDev cfg)
        then Inl (BadForwardDev (c_PortForwardDev cfg))
      else if \<not> c_VethLeakEnabled cfg then Inl ForwardNeedsVethLeak
      else case check_forwards 0 [] (c_PortForwards cfg) of
             Some e \<Rightarrow> Inl e | None \<Rightarrow> Inr cfg)"

definition andThen :: "'e + 'a \<Rightarrow> ('a \<Rightarrow> 'e + 'b) \<Rightarrow> 'e + 'b" where
  "andThen r f = (case r of Inl e \<Rightarrow> Inl e | Inr x \<Rightarrow> f x)"

lemma andThen_Inr_iff [simp]: "andThen r f = Inr y \<longleftrightarrow> (\<exists>x. r = Inr x \<and> f x = Inr y)"
  by (cases r) (auto simp: andThen_def)

lemma andThen_simps [simp]: "andThen (Inl e) f = Inl e" "andThen (Inr x) f = f x"
  by (simp_all add: andThen_def)

definition validateConfig :: "Config \<Rightarrow> config_error + Config" where
  "validateConfig cfg =
     andThen (validateBase cfg) (\<lambda>c. andThen (validateTimers c)
       (\<lambda>c. andThen (validateLeak c) validateForwards))"

section \<open>validateMode and loadConfig\<close>

fun check_modes :: "nat \<Rightarrow> string list \<Rightarrow> PortForwardVIP list \<Rightarrow> config_error option" where
  "check_modes i cidrs [] = None"
| "check_modes i cidrs (pf # pfs) =
     (if v_RouterMasquerade pf then Some (RouterMasqNeedsOVN i (v_VIP pf))
      else if v_HairpinMasquerade pf \<and> cidrs = [] then Some (HairpinNeedsCIDR i (v_VIP pf))
      else check_modes (Suc i) cidrs pfs)"

definition validateMode :: "Config \<Rightarrow> config_error + Config" where
  "validateMode cfg =
     (let sbSet = (c_OVNSBRemote cfg \<noteq> []); nbSet = (c_OVNNBRemote cfg \<noteq> []) in
      if sbSet \<and> nbSet then Inr (cfg\<lparr>c_PortForwardOnly := False\<rparr>)
      else if \<not> sbSet \<and> \<not> nbSet then
        (if c_PortForwards cfg = [] then Inl NothingToDo
         else case check_modes 0 (c_NetworkCIDRs cfg) (c_PortForwards cfg) of
                Some e \<Rightarrow> Inl e | None \<Rightarrow> Inr (cfg\<lparr>c_PortForwardOnly := True\<rparr>))
      else Inl IncompleteOVN)"

text \<open>\<open>fileres\<close>: \<open>None\<close> without \<open>--config\<close>, else what \<open>readConfigFile\<close> returned.\<close>

definition loadLayers ::
  "(string \<Rightarrow> int option) \<Rightarrow> configFile option \<Rightarrow> (string \<Rightarrow> string) \<Rightarrow> (string \<Rightarrow> flagval option) \<Rightarrow> Config" where
  "loadLayers pd file getenv fl =
     (let cfg1 = (case file of None \<Rightarrow> defaultConfig | Some fc \<Rightarrow> applyFileConfig pd fc defaultConfig);
          cfg2 = applyEnvConfig pd getenv cfg1
      in applyFlags pd fl cfg2)"

definition loadConfig ::
  "(string \<Rightarrow> int option) \<Rightarrow> configFile result option \<Rightarrow> (string \<Rightarrow> string) \<Rightarrow>
   (string \<Rightarrow> flagval option) \<Rightarrow> config_error + Config" where
  "loadConfig pd fileres getenv fl =
     (case fileres of
        Some (Inl e) \<Rightarrow> Inl (ConfigFile e)
      | Some (Inr fc) \<Rightarrow>
          andThen (validateConfig (loadLayers pd (Some fc) getenv fl)) validateMode
      | None \<Rightarrow> andThen (validateConfig (loadLayers pd None getenv fl)) validateMode)"

section \<open>The successor of an address\<close>

fun le_val :: "8 word list \<Rightarrow> nat" where
  "le_val [] = 0"
| "le_val (b # bs) = unat b + 256 * le_val bs"

lemma le_val_bound: "le_val bs < 256 ^ length bs"
proof (induction bs)
  case (Cons b bs)
  have "unat b < 256" using unsigned_less [of b] by simp
  with Cons show ?case by simp
qed simp

lemma next_bytes_length [simp]: "length (next_bytes bs) = length bs"
  by (induction bs) auto

lemma next_bytes_val: "le_val (next_bytes bs) = (le_val bs + 1) mod 256 ^ length bs"
proof (induction bs)
  case (Cons b bs)
  have b: "unat b < 256" using unsigned_less [of b] by simp
  show ?case
  proof (cases "b + 1 = 0")
    case True
    then have "b = - 1" by (simp add: eq_neg_iff_add_eq_0)
    then have "unat b = 255" by (simp add: unsigned_minus_1_eq_mask mask_eq_exp_minus_1)
    then have "le_val (b # bs) + 1 = 256 * (le_val bs + 1)" by simp
    with True Cons.IH show ?thesis by (simp add: mult_mod_right)
  next
    case False
    then have s: "unat (b + 1) = unat b + 1" by (metis Suc_eq_plus1 unatSuc add.commute)
    have "unat b + 1 + 256 * le_val bs < 256 ^ length (b # bs)"
      using le_val_bound [of "(b + 1) # bs"] s by simp
    with False s show ?thesis by simp
  qed
qed simp

lemma ip4_of_bytes_val: "ip4_of_bytes (rev bs) = word_of_nat (le_val bs)"
proof (induction bs)
  case (Cons b bs)
  then show ?case by (simp add: ip4_of_bytes_def add.commute)
qed (simp add: ip4_of_bytes_def)

lemma le_val_bytes: "le_val (rev (bytes_of_ip4 a)) = unat a"
proof -
  have a: "unat a < 2 ^ 32" using unsigned_less [of a] by simp
  have u: "unat (word_of_nat n :: 8 word) = n mod 256" for n
    by (simp add: unsigned_of_nat take_bit_eq_mod)
  have c: "unat (ucast a :: 8 word) = unat a mod 256"
    by (simp add: unsigned_ucast_eq take_bit_eq_mod)
  from a have m: "unat a div 16777216 mod 256 = unat a div 16777216" by simp
  show ?thesis
    using octets_of_word [OF a] unfolding bytes_of_ip4_def
    by (simp add: u c m algebra_simps)
qed

lemma nextIP_succ:
  "nextIPInSubnet x = (case x of IPv4 a \<Rightarrow> Some (IPv4 (a + 1)) | IPv6 w \<Rightarrow> None)"
proof (cases x)
  case (IPv4 a)
  have len: "length (rev (bytes_of_ip4 a)) = 4" by (simp add: bytes_of_ip4_def)
  have "le_val (next_bytes (rev (bytes_of_ip4 a))) = (unat a + 1) mod 2 ^ 32"
    using next_bytes_val [of "rev (bytes_of_ip4 a)"] by (simp only: len le_val_bytes) simp
  moreover have "word_of_nat ((unat a + 1) mod 2 ^ 32) = a + 1"
    by (rule word_unat_eq_iff [THEN iffD2]) (simp add: unsigned_of_nat take_bit_eq_mod unat_word_ariths)
  ultimately show ?thesis
    using ip4_of_bytes_val [of "next_bytes (rev (bytes_of_ip4 a))"]
    by (simp add: nextIPInSubnet_def To4_def IPv4)
qed (simp add: nextIPInSubnet_def To4_def)

section \<open>What an acceptable configuration is\<close>

definition ip4_string :: "string \<Rightarrow> bool" where
  "ip4_string s \<longleftrightarrow> (case ParseIP s of Some (IPv4 a) \<Rightarrow> True | _ \<Rightarrow> False)"

definition rule_ok :: "PortForwardRule \<Rightarrow> bool" where
  "rule_ok r \<longleftrightarrow> r_Proto r \<in> {''tcp'', ''udp''} \<and> r_Port r \<in> {1..65535}
     \<and> (r_DestAddr r = [] \<or> r_DestAddrs r = []) \<and> length (destAddrs r) \<in> {1..256}
     \<and> distinct (destAddrs r) \<and> list_all ip4_string (destAddrs r) \<and> r_DestPort r \<in> {0..65535}"

definition vip_ok :: "PortForwardVIP \<Rightarrow> bool" where
  "vip_ok pf \<longleftrightarrow> ip4_string (v_VIP pf) \<and> v_Rules pf \<noteq> [] \<and> list_all rule_ok (v_Rules pf)
     \<and> distinct (map (\<lambda>r. (r_Proto r, r_Port r)) (v_Rules pf))"

definition forwards_ok :: "PortForwardVIP list \<Rightarrow> bool" where
  "forwards_ok pfs \<longleftrightarrow> list_all vip_ok pfs \<and> distinct (map v_VIP pfs)"

definition base_ok :: "Config \<Rightarrow> bool" where
  "base_ok cfg \<longleftrightarrow> ParseIP (c_VethNexthop cfg) \<noteq> None
     \<and> (c_VRFName cfg = [] \<or> isValidIdentifier (c_VRFName cfg))
     \<and> c_RouteTableID cfg \<in> {0..252}
     \<and> list_all (\<lambda>s. ParseCIDR s \<noteq> None) (c_NetworkCIDRs cfg)"

definition timers_ok :: "Config \<Rightarrow> bool" where
  "timers_ok cfg \<longleftrightarrow> (c_FRRPrefixList cfg = [] \<or> isValidIdentifier (c_FRRPrefixList cfg))
     \<and> 0 \<le> c_DrainTimeout cfg \<and> (c_DrainOnShutdown cfg \<longrightarrow> 0 < c_DrainTimeout cfg)
     \<and> 0 \<le> c_DrainSettleDelay cfg \<and> 0 \<le> c_StaleChassisGracePeriod cfg
     \<and> (c_MetricsListen cfg = [] \<or> splitHostPort_ok (c_MetricsListen cfg))"

definition leak_ok :: "Config \<Rightarrow> bool" where
  "leak_ok cfg \<longleftrightarrow> (c_VethLeakEnabled cfg \<longrightarrow>
     c_VethLeakTableID cfg \<in> {1..252} \<and> c_VethLeakTableID cfg \<noteq> c_RouteTableID cfg
     \<and> ParseIP (providerIP cfg) \<noteq> None)"

definition pf_ok :: "Config \<Rightarrow> bool" where
  "pf_ok cfg \<longleftrightarrow> (c_PortForwards cfg \<noteq> [] \<longrightarrow>
     c_VethLeakEnabled cfg \<and> c_PortForwardTableID cfg \<in> {1..252}
     \<and> c_PortForwardTableID cfg \<notin> {c_RouteTableID cfg, c_VethLeakTableID cfg}
     \<and> c_PortForwardCTZone cfg \<in> {1..65535} \<and> isValidIdentifier (c_PortForwardDev cfg)
     \<and> forwards_ok (c_PortForwards cfg))"

definition config_ok :: "Config \<Rightarrow> bool" where
  "config_ok cfg \<longleftrightarrow> base_ok cfg \<and> timers_ok cfg \<and> leak_ok cfg \<and> pf_ok cfg"

definition derive_filters :: "Config \<Rightarrow> Config" where
  "derive_filters cfg =
     (if c_NetworkCIDRs cfg = [] then cfg
      else cfg\<lparr>c_NetworkFilters := map (\<lambda>s. snd (the (ParseCIDR s))) (c_NetworkCIDRs cfg)\<rparr>)"

definition derive_provider :: "Config \<Rightarrow> Config" where
  "derive_provider cfg =
     (if c_VethLeakEnabled cfg then cfg\<lparr>c_VethProviderIP := providerIP cfg\<rparr> else cfg)"

definition derived :: "Config \<Rightarrow> Config" where
  "derived cfg = (derive_provider (derive_filters cfg))
     \<lparr>c_PortForwardEnabled := (c_PortForwards cfg \<noteq> [])\<rparr>"

lemma parse_cidrs_ok:
  "list_all (\<lambda>s. ParseCIDR s \<noteq> None) ss \<Longrightarrow>
   parse_cidrs ss = Inr (map (\<lambda>s. snd (the (ParseCIDR s))) ss)"
  by (induction ss) auto

lemma parse_cidrs_Inr: "parse_cidrs ss = Inr ns \<Longrightarrow> list_all (\<lambda>s. ParseCIDR s \<noteq> None) ss"
  by (induction ss arbitrary: ns) (auto split: option.splits sum.splits)

lemma parse_cidrs_iff:
  "parse_cidrs ss = Inr ns \<longleftrightarrow>
     list_all (\<lambda>s. ParseCIDR s \<noteq> None) ss \<and> ns = map (\<lambda>s. snd (the (ParseCIDR s))) ss"
  using parse_cidrs_ok [of ss] parse_cidrs_Inr [of ss ns] by auto

lemma validateBase_iff:
  "validateBase cfg = Inr cfg' \<longleftrightarrow> base_ok cfg \<and> cfg' = derive_filters cfg"
proof (cases "c_NetworkCIDRs cfg = []")
  case True
  then show ?thesis by (auto simp: validateBase_def base_ok_def derive_filters_def)
next
  case False
  show ?thesis
  proof (cases "parse_cidrs (c_NetworkCIDRs cfg)")
    case (Inl e)
    then have "\<not> list_all (\<lambda>s. ParseCIDR s \<noteq> None) (c_NetworkCIDRs cfg)"
      using parse_cidrs_iff by (metis Inl_Inr_False)
    with Inl False show ?thesis by (auto simp: validateBase_def base_ok_def)
  next
    case (Inr ns)
    with parse_cidrs_iff [of "c_NetworkCIDRs cfg" ns] False
    show ?thesis by (auto simp: validateBase_def base_ok_def derive_filters_def)
  qed
qed

lemma validateTimers_iff: "validateTimers cfg = Inr cfg' \<longleftrightarrow> timers_ok cfg \<and> cfg' = cfg"
  by (auto simp: validateTimers_def timers_ok_def)

lemma validateLeak_iff:
  "validateLeak cfg = Inr cfg' \<longleftrightarrow> leak_ok cfg \<and> cfg' = derive_provider cfg"
  by (auto simp: validateLeak_def leak_ok_def derive_provider_def)

lemma check_addrs_iff:
  "check_addrs i j k seen addrs = None \<longleftrightarrow>
     list_all ip4_string addrs \<and> distinct addrs \<and> set addrs \<inter> set seen = {}"
  by (induction i j k seen addrs rule: check_addrs.induct)
    (auto simp: ip4_string_def To4_def split: option.splits ip.splits)

lemma show_int_inj: "show_int a = show_int b \<Longrightarrow> 0 \<le> a \<Longrightarrow> 0 \<le> b \<Longrightarrow> a = b"
  using show_nat_inj [of "nat a" "nat b"] by (simp add: show_int_def nat_eq_iff)

lemma ruleKey_inj:
  assumes "rule_ok r" "rule_ok r'"
  shows "ruleKey r = ruleKey r' \<longleftrightarrow> r_Proto r = r_Proto r' \<and> r_Port r = r_Port r'"
  using assms show_int_inj [of "r_Port r" "r_Port r'"]
  by (auto simp: ruleKey_def rule_ok_def)

lemma check_rules_Cons:
  "check_rules i j seen (r # rs) = None \<longleftrightarrow>
     rule_ok r \<and> ruleKey r \<notin> set seen \<and> check_rules i (Suc j) (ruleKey r # seen) rs = None"
proof (cases "check_addrs i j 0 [] (destAddrs r)")
  case None
  then show ?thesis
    using check_addrs_iff [of i j 0 "[]" "destAddrs r"]
    by (auto simp: rule_ok_def maxBackends_def Suc_le_eq)
next
  case (Some e)
  then show ?thesis
    using check_addrs_iff [of i j 0 "[]" "destAddrs r"] by (auto simp: rule_ok_def)
qed

declare check_rules.simps(2) [simp del]

lemma check_rules_keys:
  "check_rules i j seen rs = None \<longleftrightarrow>
     list_all rule_ok rs \<and> distinct (map ruleKey rs) \<and> set (map ruleKey rs) \<inter> set seen = {}"
  by (induction rs arbitrary: j seen) (auto simp: check_rules_Cons)

lemma distinct_rule_keys:
  assumes "list_all rule_ok rs"
  shows "distinct (map ruleKey rs) \<longleftrightarrow> distinct (map (\<lambda>r. (r_Proto r, r_Port r)) rs)"
proof -
  have "\<forall>r\<in>set rs. \<forall>r'\<in>set rs. ruleKey r = ruleKey r' \<longleftrightarrow> (r_Proto r, r_Port r) = (r_Proto r', r_Port r')"
    using assms ruleKey_inj by (simp add: list_all_iff)
  then show ?thesis by (simp add: distinct_map inj_on_def)
qed

lemma check_rules_iff:
  "rs \<noteq> [] \<Longrightarrow> check_rules i j [] rs = None \<longleftrightarrow>
     list_all rule_ok rs \<and> distinct (map (\<lambda>r. (r_Proto r, r_Port r)) rs)"
  using distinct_rule_keys [of rs] by (auto simp: check_rules_keys)

lemma ip4_string_iff: "ip4_string s \<longleftrightarrow> (\<exists>a. ParseIP s = Some a \<and> To4 a \<noteq> None)"
  by (cases "ParseIP s") (auto simp: ip4_string_def To4_def split: ip.splits)

lemma check_forwards_Cons:
  "check_forwards i seen (pf # pfs) = None \<longleftrightarrow>
     vip_ok pf \<and> v_VIP pf \<notin> set seen \<and> check_forwards (Suc i) (v_VIP pf # seen) pfs = None"
proof (cases "v_Rules pf = []")
  case True
  then show ?thesis by (simp add: vip_ok_def split: option.splits)
next
  case False
  then have "check_forwards i seen (pf # pfs) = None \<longleftrightarrow>
      ip4_string (v_VIP pf) \<and> v_VIP pf \<notin> set seen \<and> check_rules i 0 [] (v_Rules pf) = None
      \<and> check_forwards (Suc i) (v_VIP pf # seen) pfs = None"
    by (simp add: ip4_string_iff split: option.splits)
  then show ?thesis
    unfolding check_rules_iff [OF False] vip_ok_def using False by blast
qed

declare check_forwards.simps(2) [simp del]

lemma check_forwards_iff:
  "check_forwards i seen pfs = None \<longleftrightarrow>
     list_all vip_ok pfs \<and> distinct (map v_VIP pfs) \<and> set (map v_VIP pfs) \<inter> set seen = {}"
  by (induction pfs arbitrary: i seen) (auto simp: check_forwards_Cons)

lemma validateForwards_iff:
  "validateForwards cfg = Inr cfg' \<longleftrightarrow>
     pf_ok cfg \<and> cfg' = cfg\<lparr>c_PortForwardEnabled := (c_PortForwards cfg \<noteq> [])\<rparr>"
proof (cases "c_PortForwards cfg = []")
  case True
  then show ?thesis by (auto simp: validateForwards_def pf_ok_def)
next
  case False
  then show ?thesis
    using check_forwards_iff [of 0 "[]" "c_PortForwards cfg"]
    by (cases "check_forwards 0 [] (c_PortForwards cfg)")
      (auto simp: validateForwards_def pf_ok_def forwards_ok_def Let_def)
qed

lemma derive_keeps [simp]:
  "timers_ok (derive_filters cfg) = timers_ok cfg"
  "leak_ok (derive_filters cfg) = leak_ok cfg"
  "pf_ok (derive_provider (derive_filters cfg)) = pf_ok cfg"
  "c_PortForwards (derive_provider (derive_filters cfg)) = c_PortForwards cfg"
  by (simp_all add: derive_filters_def derive_provider_def timers_ok_def leak_ok_def pf_ok_def
      providerIP_def)

lemma validateConfig_char:
  "validateConfig cfg = Inr cfg' \<longleftrightarrow> config_ok cfg \<and> cfg' = derived cfg"
  unfolding validateConfig_def andThen_Inr_iff validateBase_iff validateTimers_iff
    validateLeak_iff validateForwards_iff config_ok_def derived_def
  by auto

text \<open>
  C6. \<open>validateConfig\<close> accepts a configuration exactly when it satisfies the specification
  \<open>config_ok\<close> (addresses parse, identifiers are shell-safe, table numbers are in range and
  pairwise distinct, timers non-negative, every VIP an IPv4 address that occurs once, every
  rule with its own protocol and port, 1 to 256 distinct IPv4 backends and ports in range),
  and then changes nothing but the derived fields: the parsed network filters, the provider
  address and the port-forward switch.
\<close>

theorem validateConfig_iff:
  "validateConfig cfg = Inr cfg' \<longleftrightarrow> config_ok cfg \<and> cfg' = derived cfg"
  by (rule validateConfig_char)

section \<open>Precedence of the layers\<close>

text \<open>The settings by kind: flag name, environment variable, file field, result.\<close>

definition string_settings ::
  "(string \<times> string \<times> (configFile \<Rightarrow> string) \<times> (Config \<Rightarrow> string)) list" where
  "string_settings =
    [(''ovn-sb-remote'', ''OVN_NETWORK_OVN_SB_REMOTE'', f_OVNSBRemote, c_OVNSBRemote),
     (''ovn-nb-remote'', ''OVN_NETWORK_OVN_NB_REMOTE'', f_OVNNBRemote, c_OVNNBRemote),
     (''bridge-dev'', ''OVN_NETWORK_BRIDGE_DEV'', f_BridgeDev, c_BridgeDev),
     (''vrf-name'', ''OVN_NETWORK_VRF_NAME'', f_VRFName, c_VRFName),
     (''veth-nexthop'', ''OVN_NETWORK_VETH_NEXTHOP'', f_VethNexthop, c_VethNexthop),
     (''gateway-port'', ''OVN_NETWORK_GATEWAY_PORT'', f_GatewayPort, c_GatewayPort),
     (''bridge-ip'', ''OVN_NETWORK_BRIDGE_IP'', f_BridgeIP, c_BridgeIP),
     (''ovs-wrapper'', ''OVN_NETWORK_OVS_WRAPPER'', f_OVSWrapper, c_OVSWrapper),
     (''log-level'', ''OVN_NETWORK_LOG_LEVEL'', f_LogLevel, c_LogLevel),
     (''frr-prefix-list'', ''OVN_NETWORK_FRR_PREFIX_LIST'', f_FRRPrefixList, c_FRRPrefixList),
     (''metrics-listen'', ''OVN_NETWORK_METRICS_LISTEN'', f_MetricsListen, c_MetricsListen),
     (''veth-provider-ip'', ''OVN_NETWORK_VETH_PROVIDER_IP'', f_VethProviderIP, c_VethProviderIP),
     (''port-forward-dev'', ''OVN_NETWORK_PORT_FORWARD_DEV'', f_PortForwardDev, c_PortForwardDev)]"

definition duration_settings ::
  "(string \<times> string \<times> (configFile \<Rightarrow> string) \<times> (Config \<Rightarrow> int)) list" where
  "duration_settings =
    [(''reconcile-interval'', ''OVN_NETWORK_RECONCILE_INTERVAL'', f_ReconcileInterval,
      c_ReconcileInterval),
     (''drain-timeout'', ''OVN_NETWORK_DRAIN_TIMEOUT'', f_DrainTimeout, c_DrainTimeout),
     (''drain-settle-delay'', ''OVN_NETWORK_DRAIN_SETTLE_DELAY'', f_DrainSettleDelay,
      c_DrainSettleDelay),
     (''stale-chassis-grace-period'', ''OVN_NETWORK_STALE_CHASSIS_GRACE_PERIOD'',
      f_StaleChassisGracePeriod, c_StaleChassisGracePeriod)]"

definition number_settings ::
  "(string \<times> string \<times> (configFile \<Rightarrow> int option) \<times> (Config \<Rightarrow> int)) list" where
  "number_settings =
    [(''route-table-id'', ''OVN_NETWORK_ROUTE_TABLE_ID'', f_RouteTableID, c_RouteTableID),
     (''veth-leak-table-id'', ''OVN_NETWORK_VETH_LEAK_TABLE_ID'', f_VethLeakTableID,
      c_VethLeakTableID),
     (''veth-leak-rule-priority'', ''OVN_NETWORK_VETH_LEAK_RULE_PRIORITY'',
      f_VethLeakRulePriority, c_VethLeakRulePriority),
     (''port-forward-table-id'', ''OVN_NETWORK_PORT_FORWARD_TABLE_ID'', f_PortForwardTableID,
      c_PortForwardTableID),
     (''port-forward-ct-zone'', ''OVN_NETWORK_PORT_FORWARD_CT_ZONE'', f_PortForwardCTZone,
      c_PortForwardCTZone)]"

text \<open>\<open>on\<close> is the value the environment can set: \<open>True\<close> by "1"/"true", \<open>False\<close> by "0"/"false".\<close>

definition bool_settings ::
  "(string \<times> string \<times> bool \<times> (configFile \<Rightarrow> bool option) \<times> (Config \<Rightarrow> bool)) list" where
  "bool_settings =
    [(''dry-run'', ''OVN_NETWORK_DRY_RUN'', True, f_DryRun, c_DryRun),
     (''cleanup-on-shutdown'', ''OVN_NETWORK_CLEANUP_ON_SHUTDOWN'', False, f_CleanupOnShutdown,
      c_CleanupOnShutdown),
     (''drain-on-shutdown'', ''OVN_NETWORK_DRAIN_ON_SHUTDOWN'', False, f_DrainOnShutdown,
      c_DrainOnShutdown),
     (''veth-leak-enabled'', ''OVN_NETWORK_VETH_LEAK_ENABLED'', False, f_VethLeakEnabled,
      c_VethLeakEnabled),
     (''port-forward-l3mdev-accept'', ''OVN_NETWORK_PORT_FORWARD_L3MDEV_ACCEPT'', True,
      f_PortForwardL3mdevAccept, c_PortForwardL3mdevAccept)]"

text \<open>The highest layer that gives a value wins.\<close>

fun first_given :: "'a option list \<Rightarrow> 'a \<Rightarrow> 'a" where
  "first_given [] d = d"
| "first_given (Some x # xs) d = x"
| "first_given (None # xs) d = first_given xs d"

definition given :: "string \<Rightarrow> string option" where
  "given s = (if s = [] then None else Some s)"

definition given_flag :: "(flagval \<Rightarrow> 'a option) \<Rightarrow> (string \<Rightarrow> flagval option) \<Rightarrow> string \<Rightarrow> 'a option" where
  "given_flag get fl n = Option.bind (fl n) get"

fun as_str :: "flagval \<Rightarrow> string option" where
  "as_str (FStr s) = Some s"
| "as_str _ = None"

fun as_int :: "flagval \<Rightarrow> int option" where
  "as_int (FInt i) = Some i"
| "as_int _ = None"

fun as_bool :: "flagval \<Rightarrow> bool option" where
  "as_bool (FBool b) = Some b"
| "as_bool _ = None"

definition env_word :: "bool \<Rightarrow> string \<Rightarrow> bool option" where
  "env_word on s =
     (if s \<in> (if on then {''1'', ''true''} else {''0'', ''false''}) then Some on else None)"

lemma layer_ops:
  "flag_str fl n d = first_given [given_flag as_str fl n] d"
  "flag_int fl n i = first_given [given_flag as_int fl n] i"
  "flag_bool fl n b = first_given [given_flag as_bool fl n] b"
  "flag_dur pd fl n i = first_given [Option.bind (given_flag as_str fl n) pd] i"
  "ovr s d = first_given [given s] d"
  "ovr_ptr p x = first_given [p] x"
  "ovr_dur pd s i = first_given [Option.bind (given s) pd] i"
  "ovr_scan s i = first_given [Option.bind (given s) sscanf_d] i"
  "env_true s b = first_given [env_word True s] b"
  "env_false s b = first_given [env_word False s] b"
  by (auto simp: flag_str_def flag_int_def flag_bool_def flag_dur_def ovr_def ovr_ptr_def
      ovr_dur_def ovr_scan_def env_true_def env_false_def given_def given_flag_def env_word_def
      split: option.splits flagval.splits)

lemma first_given_nest: "first_given xs (first_given ys d) = first_given (xs @ ys) d"
  by (induction xs d rule: first_given.induct) simp_all

lemmas layer_simps = loadLayers_def layer_fields layer_ops first_given_nest Let_def

text \<open>
  C37. Every textual, duration and numeric setting of a loaded configuration is taken from the
  highest layer that gives a (parsable) value, in the order command-line flag, environment
  variable, configuration file, built-in default.
\<close>

theorem loadLayers_precedence:
  fixes pd fc getenv fl
  defines "cfg \<equiv> loadLayers pd (Some fc) getenv fl"
  shows "list_all (\<lambda>(flag, env, file, get). get cfg =
           first_given [given_flag as_str fl flag, given (getenv env), given (file fc)]
             (get defaultConfig)) string_settings
       \<and> list_all (\<lambda>(flag, env, file, get). get cfg =
           first_given [Option.bind (given_flag as_str fl flag) pd,
             Option.bind (given (getenv env)) pd, Option.bind (given (file fc)) pd]
             (get defaultConfig)) duration_settings
       \<and> list_all (\<lambda>(flag, env, file, get). get cfg =
           first_given [given_flag as_int fl flag, Option.bind (given (getenv env)) sscanf_d,
             file fc] (get defaultConfig)) number_settings"
  unfolding cfg_def string_settings_def duration_settings_def number_settings_def
  by (simp add: layer_simps)

text \<open>
  A boolean setting comes from its flag if that was given, and otherwise from the file or
  the default unless the environment holds the one value that can change it: the environment can
  only switch dry-run and l3mdev-accept on and only switch the cleanup, drain and veth-leak
  settings off. So \<open>OVN_NETWORK_DRY_RUN=false\<close> never overrides \<open>dry_run: true\<close>.
\<close>

theorem loadLayers_booleans:
  "list_all (\<lambda>(flag, env, on, file, get). get (loadLayers pd (Some fc) getenv fl) =
     first_given [given_flag as_bool fl flag, env_word on (getenv env), file fc]
       (get defaultConfig)) bool_settings"
  unfolding bool_settings_def by (simp add: layer_simps)

lemma env_cannot_unset_dry_run:
  assumes "getenv ''OVN_NETWORK_DRY_RUN'' = ''false''" "f_DryRun fc = Some True" "fl ''dry-run'' = None"
  shows "c_DryRun (loadLayers pd (Some fc) getenv fl)"
  using assms by (simp add: layer_simps env_word_def given_flag_def)

section \<open>Loaded configurations\<close>

definition pf_only_ok :: "Config \<Rightarrow> bool" where
  "pf_only_ok cfg \<longleftrightarrow> c_PortForwards cfg \<noteq> [] \<and>
     list_all (\<lambda>pf. \<not> v_RouterMasquerade pf \<and> (v_HairpinMasquerade pf \<longrightarrow> c_NetworkCIDRs cfg \<noteq> []))
       (c_PortForwards cfg)"

lemma check_modes_iff:
  "check_modes i cidrs pfs = None \<longleftrightarrow>
     list_all (\<lambda>pf. \<not> v_RouterMasquerade pf \<and> (v_HairpinMasquerade pf \<longrightarrow> cidrs \<noteq> [])) pfs"
  by (induction i cidrs pfs rule: check_modes.induct) auto

text \<open>
  The operating mode: with both OVN remotes the agent runs in full mode, with neither it
  runs in port-forward-only mode provided there is something to forward and no forward needs OVN
  state, and every other combination is rejected.
\<close>

theorem validateMode_table:
  "validateMode cfg =
     (case (c_OVNSBRemote cfg \<noteq> [], c_OVNNBRemote cfg \<noteq> [], pf_only_ok cfg) of
        (True, True, _) \<Rightarrow> Inr (cfg\<lparr>c_PortForwardOnly := False\<rparr>)
      | (False, False, True) \<Rightarrow> Inr (cfg\<lparr>c_PortForwardOnly := True\<rparr>)
      | (False, False, False) \<Rightarrow> Inl (if c_PortForwards cfg = [] then NothingToDo
          else the (check_modes 0 (c_NetworkCIDRs cfg) (c_PortForwards cfg)))
      | _ \<Rightarrow> Inl IncompleteOVN)"
  using check_modes_iff [of 0 "c_NetworkCIDRs cfg" "c_PortForwards cfg"]
  by (auto simp: validateMode_def pf_only_ok_def Let_def split: option.splits bool.splits)

lemma ParseIP_Nil [simp]: "ParseIP [] = None"
  by (simp add: ParseIP_def parseAddr_def)

lemma nextIP_IPv4: "nextIPInSubnet y = Some a \<Longrightarrow> \<exists>w. a = IPv4 w"
  by (cases y) (auto simp: nextIP_succ)

lemma providerIP_ne [simp]: "providerIP cfg \<noteq> []"
proof (cases "Option.bind (ParseIP (c_VethNexthop cfg)) nextIPInSubnet")
  case (Some a)
  then obtain w where "a = IPv4 w" using nextIP_IPv4 by (auto simp: bind_eq_Some_conv)
  then have "ipString a \<noteq> []" by (simp add: ipString_def dotted_def Let_def)
  with Some show ?thesis by (simp add: providerIP_def)
qed (simp add: providerIP_def)

lemma providerIP_upd [simp]:
  "providerIP (cfg\<lparr>c_NetworkFilters := x\<rparr>) = providerIP cfg"
  "providerIP (cfg\<lparr>c_PortForwardEnabled := b\<rparr>) = providerIP cfg"
  "providerIP (cfg\<lparr>c_PortForwardOnly := b\<rparr>) = providerIP cfg"
  "providerIP (cfg\<lparr>c_VethProviderIP := s\<rparr>) = (if s = [] then providerIP (cfg\<lparr>c_VethProviderIP := []\<rparr>) else s)"
  by (simp_all add: providerIP_def)

lemma derived_def':
  "derived cfg = cfg\<lparr>c_NetworkFilters := (if c_NetworkCIDRs cfg = [] then c_NetworkFilters cfg
       else map (\<lambda>s. snd (the (ParseCIDR s))) (c_NetworkCIDRs cfg)),
     c_VethProviderIP := (if c_VethLeakEnabled cfg then providerIP cfg else c_VethProviderIP cfg),
     c_PortForwardEnabled := (c_PortForwards cfg \<noteq> [])\<rparr>"
  by (simp add: derived_def derive_filters_def derive_provider_def)

lemma derived_idem: "config_ok cfg \<Longrightarrow> config_ok (derived cfg) \<and> derived (derived cfg) = derived cfg"
  by (simp add: derived_def' config_ok_def base_ok_def timers_ok_def leak_ok_def pf_ok_def)

lemma validate_fixpoint: "validateConfig cfg = Inr c \<Longrightarrow> validateConfig c = Inr c"
  using derived_idem validateConfig_char by metis

text \<open>
  A configuration that \<open>loadConfig\<close> returns is final: both validations accept it again and
  change nothing, so no derived field depends on the layer it came from, and it satisfies the
  specification of an acceptable configuration.
\<close>

theorem loadConfig_final:
  assumes "loadConfig pd fileres getenv fl = Inr cfg"
  shows "config_ok cfg \<and> validateConfig cfg = Inr cfg \<and> validateMode cfg = Inr cfg"
proof -
  obtain c0 c where c: "validateConfig c0 = Inr c" and m: "validateMode c = Inr cfg"
    using assms by (auto simp: loadConfig_def split: option.splits sum.splits)
  then have "validateConfig c = Inr c" by (rule_tac validate_fixpoint)
  then have ok: "config_ok c" "derived c = c" by (simp_all add: validateConfig_char)
  obtain b where b: "cfg = c\<lparr>c_PortForwardOnly := b\<rparr>" "validateMode cfg = Inr cfg"
    using m by (auto simp: validateMode_def Let_def split: if_splits option.splits)
  have "config_ok cfg = config_ok c" "derived cfg = derived c \<lparr>c_PortForwardOnly := b\<rparr>"
    by (simp_all add: b config_ok_def base_ok_def timers_ok_def leak_ok_def pf_ok_def derived_def
        derive_filters_def derive_provider_def providerIP_def)
  with ok b show ?thesis by (simp add: validateConfig_char)
qed

definition demo_env :: "string \<Rightarrow> string" where
  "demo_env n = (if n = ''OVN_NETWORK_OVN_SB_REMOTE'' then ''tcp:192.0.2.1:6642''
     else if n = ''OVN_NETWORK_OVN_NB_REMOTE'' then ''tcp:192.0.2.1:6641'' else [])"

definition demo_loaded :: Config where
  "demo_loaded = defaultConfig\<lparr>c_OVNSBRemote := ''tcp:192.0.2.1:6642'',
     c_OVNNBRemote := ''tcp:192.0.2.1:6641'', c_VethProviderIP := ''169.254.0.2''\<rparr>"

lemma demo_load: "loadConfig (\<lambda>s. None) None demo_env (\<lambda>n. None) = Inr demo_loaded"
proof -
  have layers: "loadLayers (\<lambda>s. None) None demo_env (\<lambda>n. None) =
      defaultConfig\<lparr>c_OVNSBRemote := ''tcp:192.0.2.1:6642'', c_OVNNBRemote := ''tcp:192.0.2.1:6641''\<rparr>"
    by (simp add: loadLayers_def applyEnvConfig_def applyFlags_def demo_env_def Let_def flag_str_def
        flag_int_def flag_bool_def flag_dur_def ovr_def ovr_scan_def ovr_dur_def env_true_def env_false_def)
  have n: "ParseIP ''169.254.0.1'' = Some (IPv4 2851995649)" by (simp add: net_eval)
  have p: "ipString (IPv4 2851995650) = ''169.254.0.2''" by (simp add: net_eval char_of_def bit_Suc_0_iff)
  have q: "ParseIP ''169.254.0.2'' \<noteq> None" by (simp add: net_eval)
  define c where "c = defaultConfig\<lparr>c_OVNSBRemote := ''tcp:192.0.2.1:6642'',
     c_OVNNBRemote := ''tcp:192.0.2.1:6641''\<rparr>"
  have "c_VRFName c = ''vrf-provider'' \<and> isValidIdentifier ''vrf-provider''
      \<and> c_FRRPrefixList c = ''ANNOUNCED-NETWORKS'' \<and> isValidIdentifier ''ANNOUNCED-NETWORKS''"
    unfolding c_def by (simp add: defaultConfig_def) code_simp
  moreover have prov: "providerIP c = ''169.254.0.2''"
    by (simp add: providerIP_def c_def defaultConfig_def n nextIP_succ p)
  ultimately have "config_ok c"
    using n q by (simp add: config_ok_def base_ok_def timers_ok_def leak_ok_def pf_ok_def)
      (simp add: c_def defaultConfig_def seconds_def)
  moreover have "derived c = demo_loaded"
    by (simp add: derived_def' prov) (simp add: c_def demo_loaded_def defaultConfig_def)
  ultimately have "validateConfig c = Inr demo_loaded" by (simp add: validateConfig_char)
  moreover have "validateMode demo_loaded = Inr demo_loaded"
    by (simp add: validateMode_def demo_loaded_def defaultConfig_def)
  ultimately show ?thesis using layers by (simp add: loadConfig_def c_def)
qed

text \<open>An instance: two OVN remotes in the environment and the defaults otherwise.\<close>

theorem loadConfig_final_witness:
  "config_ok demo_loaded \<and> validateConfig demo_loaded = Inr demo_loaded
   \<and> validateMode demo_loaded = Inr demo_loaded"
  by (rule loadConfig_final [OF demo_load])

text \<open>A gap of the checks: no branch looks at the reconcile interval.\<close>

lemma reconcile_interval_unchecked:
  "config_ok (cfg\<lparr>c_ReconcileInterval := d\<rparr>) = config_ok cfg"
  by (simp add: config_ok_def base_ok_def timers_ok_def leak_ok_def pf_ok_def providerIP_def)

end
