(* ===== verification/Tokens.thy ===== *)
theory Tokens
  imports Routing Validate
begin

text \<open>
  The words the agent puts into FRR commands: what a parsed address, a printed network, a number
  and a validated identifier are made of, and that a command therefore has exactly the words the
  source means it to have.
\<close>

section \<open>The characters of an address\<close>

definition addr_char :: "char \<Rightarrow> bool" where
  "addr_char c \<longleftrightarrow> is_hex c \<or> c = CHR ''.'' \<or> c = CHR '':''"

lemma digit_addr_char: "is_digit c \<Longrightarrow> addr_char c"
  by (auto simp: addr_char_def is_hex_def is_digit_def hex_val_def Let_def)

lemma Split_chars: "c \<in> set s \<Longrightarrow> c = sep \<or> (\<exists>w\<in>set (Split sep s). c \<in> set w)"
  by (induction sep s rule: Split.induct) (auto split: list.splits if_splits)

lemma parse_octet_chars: "parse_octet s = Some n \<Longrightarrow> list_all addr_char s"
  by (auto simp: parse_octet_def read_nat_def list_all_iff intro: digit_addr_char split: option.splits if_splits)

lemma parseIPv4_chars:
  assumes "parseIPv4 s = Some a"
  shows "list_all addr_char s"
proof -
  from assms obtain p q r t where s: "Split CHR ''.'' s = [p, q, r, t]"
      and o: "parse_octet p \<noteq> None" "parse_octet q \<noteq> None" "parse_octet r \<noteq> None" "parse_octet t \<noteq> None"
    by (auto simp: parseIPv4_def split: list.splits option.splits)
  have w: "list_all addr_char w" if "w \<in> {p, q, r, t}" for w
    using that o parse_octet_chars by auto
  have "addr_char c" if "c \<in> set s" for c
  proof (cases "c = CHR ''.''")
    case False
    then obtain v where "v \<in> set (Split CHR ''.'' s)" "c \<in> set v"
      using Split_chars [of c s "CHR ''.''"] \<open>c \<in> set s\<close> by blast
    with w [of v] show ?thesis by (simp add: s list_all_iff)
  qed (simp add: addr_char_def)
  then show ?thesis by (simp add: list_all_iff)
qed

lemma v6_loop_chars:
  "v6_loop fuel s gs ell = Some (gs', ell', rest) \<Longrightarrow> set s \<subseteq> Collect addr_char \<union> set rest"
proof (induction fuel s gs ell rule: v6_loop.induct)
  case (2 fuel s gs ell)
  let ?h = "takeWhile is_hex s" and ?r = "dropWhile is_hex s"
  have h: "set s \<subseteq> Collect addr_char \<union> set ?r"
  proof -
    have "set s = set ?h \<union> set ?r" by (metis set_append takeWhile_dropWhile_id)
    moreover have "set ?h \<subseteq> Collect addr_char" by (auto dest: set_takeWhileD simp: addr_char_def)
    ultimately show ?thesis by blast
  qed
  show ?case
  proof (cases ?r)
    case Nil
    with h show ?thesis by auto
  next
    case (Cons c r1)
    show ?thesis
    proof (cases "c = CHR ''.''")
      case True
      with 2 Cons have "parseIPv4 s \<noteq> None"
        by (auto simp: Let_def split: if_splits option.splits)
      then show ?thesis using parseIPv4_chars by (force simp: list_all_iff)
    next
      case False
      then have c: "c = CHR '':''" and r1: "r1 \<noteq> []"
        using "2.prems" Cons by (auto simp: Let_def split: if_splits list.splits)
      then obtain c2 r2 where r1: "r1 = c2 # r2" by (cases r1) auto
      have "set r1 \<subseteq> Collect addr_char \<union> set rest"
      proof (cases "c2 = CHR '':''")
        case True
        then show ?thesis
          using "2.IH"(1) [OF refl refl _ Cons False _ r1 True] "2.prems" Cons c r1
          by (auto simp: Let_def addr_char_def split: if_splits)
      next
        case False2: False
        then show ?thesis
          using "2.IH"(2) [OF refl refl _ Cons False _ r1 False2] "2.prems" Cons c r1
          by (auto simp: Let_def split: if_splits)
      qed
      moreover have "addr_char (CHR '':'')" by (simp add: addr_char_def)
      ultimately show ?thesis using h Cons c by auto
    qed
  qed
qed simp

lemma parseIPv6_chars: "parseIPv6 s = Some w \<Longrightarrow> list_all addr_char s"
proof -
  assume a: "parseIPv6 s = Some w"
  have f: "list_all addr_char t" if "Option.bind (v6_loop 8 t gs ell) v6_finish = Some w" for t gs ell
  proof -
    from that obtain r where r: "v6_loop 8 t gs ell = Some r" "v6_finish r = Some w"
      by (cases "v6_loop 8 t gs ell") auto
    obtain gs' ell' rest where "r = (gs', ell', rest)" by (cases r) auto
    with r v6_loop_chars [of 8 t gs ell gs' ell' rest] show ?thesis
      by (auto simp: v6_finish_def list_all_iff split: if_splits)
  qed
  show ?thesis
  proof (cases "HasPrefix s ''::''")
    case True
    then obtain r where "s = ''::'' @ r" by (auto simp: HasPrefix_iff)
    with a True f [of r "[]" "Some 0"] show ?thesis
      by (auto simp: parseIPv6_def addr_char_def split: if_splits)
  next
    case False
    with a f [of s "[]" None] show ?thesis by (auto simp: parseIPv6_def split: if_splits)
  qed
qed

lemma ParseIP_chars: "ParseIP s = Some a \<Longrightarrow> s \<noteq> [] \<and> list_all addr_char s"
  using parseIPv4_chars parseIPv6_chars
  by (auto simp: ParseIP_def parseAddr_def split: option.splits if_splits)

lemma addr_char_graph: "addr_char c \<Longrightarrow> \<not> is_space c \<and> c \<noteq> CHR '','' \<and> c \<noteq> CHR ''{'' \<and> c \<noteq> CHR ''}''"
  by (auto simp: addr_char_def is_hex_def hex_val_def is_space_def Let_def)

lemma ParseIP_word: "ParseIP s = Some a \<Longrightarrow> is_word s"
  using ParseIP_chars [of s a] addr_char_graph by (auto simp: is_word_def list_all_iff)


section \<open>Other words\<close>

lemma identifier_word: "isValidIdentifier s \<Longrightarrow> is_word s"
  by (auto simp: isValidIdentifier_def is_word_def ident_char_def is_space_def list_all_iff Let_def)

lemma show_nat_word: "is_word (show_nat n)"
  using show_nat_read [of n] non_digits
  by (auto simp: is_word_def list_all_iff read_nat_def is_space_def is_digit_def split: if_splits)

lemma show_int_word: "is_word (show_int i)"
  using show_nat_word by (auto simp: show_int_def is_word_def is_space_def)

lemma is_word_append: "is_word u \<Longrightarrow> is_word v \<Longrightarrow> is_word (u @ v)"
  by (simp add: is_word_def)

lemma show_base_word: "2 \<le> b \<Longrightarrow> b \<le> 16 \<Longrightarrow> is_word (show_base b n)"
proof (induction n rule: less_induct)
  case (less n)
  have "list_all (\<lambda>m. \<not> is_space (digit_char m)) [0..<16]" by code_simp
  then have d: "m < 16 \<Longrightarrow> \<not> is_space (digit_char m)" for m :: nat
    by (simp add: list_all_iff)
  show ?case
  proof (cases "n < b")
    case True
    with less.prems d [of n] show ?thesis by (simp add: show_base_small is_word_def)
  next
    case False
    then have "n div b < n" using less.prems by simp
    with less.IH [of "n div b"] less.prems have "is_word (show_base b (n div b))" by simp
    moreover have "\<not> is_space (digit_char (n mod b))" using less.prems mod_less_divisor [of b n] by (intro d) linarith
    ultimately show ?thesis using False less.prems by (simp add: show_base_big is_word_def)
  qed
qed

lemma Join_word_chars:
  "list_all is_word ws \<Longrightarrow> list_all (\<lambda>c. \<not> is_space c) sep \<Longrightarrow> list_all (\<lambda>c. \<not> is_space c) (Join ws sep)"
  using Join_chars [of _ ws sep] by (fastforce simp: list_all_iff is_word_def)


lemma groups_words: "list_all is_word (map (show_base 16) gs)"
  by (simp add: list_all_iff show_base_word)

lemma colon_sep: "list_all (\<lambda>c. \<not> is_space c) '':''"
  by (simp add: is_space_def)

lemma v6_groups_len: "length (v6_groups w) = 8"
  by (simp add: v6_groups_def)

lemma v6_string_no_space: "list_all (\<lambda>c. \<not> is_space c) (v6_string w)"
proof -
  have j: "list_all (\<lambda>c. \<not> is_space c) (Join (map (show_base 16) gs) '':'')" for gs
    by (rule Join_word_chars [OF groups_words colon_sep])
  show ?thesis
    using colon_sep by (auto simp: v6_string_def Let_def j split: prod.splits)
qed

lemma ipString_no_space: "list_all (\<lambda>c. \<not> is_space c) (ipString a)"
  using dotted_word v6_string_no_space by (cases a) (auto simp: ipString_def is_word_def)

lemma netString_word: "is_word (netString n)"
  using ipString_no_space [of "net_ip n"] show_nat_word
  by (auto simp: netString_def is_word_def is_space_def split: option.splits)

section \<open>Commands have the words they mean to have\<close>

lemma loadConfig_ok:
  assumes "loadConfig pd fileres getenv fl = Inr cfg"
  shows "config_ok cfg"
proof -
  obtain c0 c where c: "validateConfig c0 = Inr c" and m: "validateMode c = Inr cfg"
    using assms by (auto simp: loadConfig_def split: option.splits sum.splits)
  then have "validateConfig c = Inr c" by (rule_tac validate_fixpoint)
  then have ok: "config_ok c" by (simp add: validateConfig_char)
  obtain b where b: "cfg = c\<lparr>c_PortForwardOnly := b\<rparr>"
    using m by (auto simp: validateMode_def Let_def split: if_splits option.splits)
  have "config_ok cfg = config_ok c"
    by (simp add: b config_ok_def base_ok_def timers_ok_def leak_ok_def pf_ok_def providerIP_def)
  with ok show ?thesis by simp
qed




end
