(* ===== verification/Nft.thy ===== *)
theory Nft
  imports Ovs Tokens
begin

text \<open>
  The nftables ruleset of port forwarding (\<open>nftables.go\<close>): \<open>buildNftRuleset\<close> as a list of lines
  for each chain, printed in the order of the source.
\<close>

section \<open>Constants\<close>

definition nftTableName :: string where
  "nftTableName = ''ovn-network-agent''"

definition dnatFwmark :: nat where
  "dnatFwmark = 256"

definition dnatReplyFwmark :: nat where
  "dnatReplyFwmark = 512"

definition dnatFwmarkPriority :: int where
  "dnatFwmarkPriority = 150"

definition dnatReplyPriority :: int where
  "dnatReplyPriority = 151"

text \<open>\<open>0x%x\<close>\<close>

definition mark :: "nat \<Rightarrow> string" where
  "mark n = ''0x'' @ show_base 16 n"

section \<open>Rules\<close>

definition destPort :: "PortForwardRule \<Rightarrow> int" where
  "destPort r = (if r_DestPort r = 0 then r_Port r else r_DestPort r)"

definition indent :: "string \<Rightarrow> string" where
  "indent s = ''        '' @ s"

definition zoneVIP :: "int \<Rightarrow> string \<Rightarrow> PortForwardRule \<Rightarrow> string" where
  "zoneVIP ctZone vip r = indent (''ip daddr '' @ vip @ '' '' @ r_Proto r @ '' dport '' @ show_int (r_Port r) @
     '' ct zone set '' @ show_int ctZone)"

definition zoneBackend :: "int \<Rightarrow> PortForwardRule \<Rightarrow> string \<Rightarrow> string" where
  "zoneBackend ctZone r addr = indent (''ip saddr '' @ addr @ '' '' @ r_Proto r @ '' sport '' @
     show_int (destPort r) @ '' ct zone set '' @ show_int ctZone)"

definition writeCTZoneRules :: "int \<Rightarrow> PortForwardVIP list \<Rightarrow> string list" where
  "writeCTZoneRules ctZone forwards = concat (map (\<lambda>pf. concat (map (\<lambda>r.
     if destAddrs r = [] then []
     else zoneVIP ctZone (v_VIP pf) r # map (zoneBackend ctZone r) (destAddrs r)) (v_Rules pf))) forwards)"

record snatEntry =
  sn_addr :: string
  sn_proto :: string
  sn_port :: int

definition snatEntries :: "PortForwardVIP list \<Rightarrow> snatEntry list" where
  "snatEntries forwards = concat (map (\<lambda>pf. concat (map (\<lambda>r.
     if \<not> effectiveMasquerade r (v_Masquerade pf) then []
     else map (\<lambda>addr. \<lparr>sn_addr = addr, sn_proto = r_Proto r, sn_port = destPort r\<rparr>) (destAddrs r))
       (v_Rules pf))) forwards)"

definition allVIPs :: "PortForwardVIP list \<Rightarrow> string list" where
  "allVIPs forwards = map v_VIP forwards"

definition hairpinVIPs :: "PortForwardVIP list \<Rightarrow> string list" where
  "hairpinVIPs forwards = map v_VIP (filter v_HairpinMasquerade forwards)"

definition routerMasqVIPs :: "PortForwardVIP list \<Rightarrow> string list" where
  "routerMasqVIPs forwards = map v_VIP (filter v_RouterMasquerade forwards)"

text \<open>The backends of a balanced rule are numbered from zero.\<close>

fun jhashMap :: "nat \<Rightarrow> int \<Rightarrow> string list \<Rightarrow> string list" where
  "jhashMap i port [] = []"
| "jhashMap i port (addr # addrs) =
     (show_nat i @ '' : '' @ addr @ '' . '' @ show_int port) # jhashMap (Suc i) port addrs"

definition dnatRule :: "string \<Rightarrow> PortForwardRule \<Rightarrow> string list" where
  "dnatRule vip r =
     (case destAddrs r of
        [] \<Rightarrow> []
      | [addr] \<Rightarrow> [indent (''ip daddr '' @ vip @ '' '' @ r_Proto r @ '' dport '' @ show_int (r_Port r) @
          '' dnat to '' @ addr @ '':'' @ show_int (destPort r))]
      | addrs \<Rightarrow> [indent (''ip daddr '' @ vip @ '' '' @ r_Proto r @ '' dport '' @ show_int (r_Port r) @
          '' dnat to jhash ip saddr mod '' @ show_nat (length addrs) @ '' map { '' @
          Join (jhashMap 0 (destPort r) addrs) '', '' @ '' }'')])"

definition dnatRules :: "PortForwardVIP list \<Rightarrow> string list" where
  "dnatRules forwards = concat (map (\<lambda>pf. concat (map (dnatRule (v_VIP pf)) (v_Rules pf))) forwards)"

text \<open>The VIPs as nft matches them: one address bare, several as a set with the family pinned.\<close>

definition vipMatch :: "PortForwardVIP list \<Rightarrow> string" where
  "vipMatch forwards =
     (case allVIPs forwards of
        [vip] \<Rightarrow> ''daddr '' @ vip
      | vips \<Rightarrow> ''ip daddr { '' @ Join vips '', '' @ '' }'')"

definition markRule :: "string \<Rightarrow> PortForwardVIP list \<Rightarrow> nat \<Rightarrow> string" where
  "markRule direction forwards m =
     indent (''ct direction '' @ direction @ '' ct status dnat ct original '' @ vipMatch forwards @
       '' meta mark set '' @ mark m)"

section \<open>Chains\<close>

definition chain :: "string \<Rightarrow> string \<Rightarrow> string list \<Rightarrow> string list" where
  "chain name header rules =
     [''    chain '' @ name @ '' {'', indent (header @ ''; policy accept;'')] @ rules @ [''    }'']"

definition prerouting_ctzone :: "int \<Rightarrow> PortForwardVIP list \<Rightarrow> string list" where
  "prerouting_ctzone ctZone forwards =
     chain ''prerouting_ctzone'' ''type filter hook prerouting priority raw'' (writeCTZoneRules ctZone forwards)"

definition output_ctzone :: "int \<Rightarrow> PortForwardVIP list \<Rightarrow> string list" where
  "output_ctzone ctZone forwards =
     chain ''output_ctzone'' ''type filter hook output priority raw'' (writeCTZoneRules ctZone forwards)"

definition prerouting_dnat :: "PortForwardVIP list \<Rightarrow> string list" where
  "prerouting_dnat forwards =
     chain ''prerouting_dnat'' ''type nat hook prerouting priority dstnat'' (dnatRules forwards)"

definition prerouting_fwmark :: "PortForwardVIP list \<Rightarrow> string list" where
  "prerouting_fwmark forwards =
     chain ''prerouting_fwmark'' ''type filter hook prerouting priority filter''
       [markRule ''original'' forwards dnatFwmark, markRule ''reply'' forwards dnatReplyFwmark]"

definition output_fwmark :: "PortForwardVIP list \<Rightarrow> string list" where
  "output_fwmark forwards =
     chain ''output_fwmark'' ''type route hook output priority filter''
       [markRule ''reply'' forwards dnatReplyFwmark]"

definition quoted :: "string \<Rightarrow> string" where
  "quoted s = CHR 0x22 # s @ [CHR 0x22]"

definition guardRules :: "ipnet list \<Rightarrow> string list" where
  "guardRules providerNetworks =
     (if providerNetworks = [] then []
      else [indent (''oifname '' @ quoted vethDefaultName @ '' ip saddr { '' @
        Join (map netString providerNetworks) '', '' @ '' } accept'')]) @
     [indent (''oifname '' @ quoted vethDefaultName @ '' meta mark '' @ mark dnatReplyFwmark @ '' accept''),
      indent (''oifname '' @ quoted vethDefaultName @ '' drop'')]"

definition forward_veth_guard :: "ipnet list \<Rightarrow> string list" where
  "forward_veth_guard providerNetworks =
     chain ''forward_veth_guard'' ''type filter hook forward priority filter'' (guardRules providerNetworks)"

definition postrouting_fwmark_clear :: "string list" where
  "postrouting_fwmark_clear =
     chain ''postrouting_fwmark_clear'' ''type filter hook postrouting priority filter''
       [indent (''oifname '' @ quoted vethDefaultName @ '' meta mark '' @ mark dnatReplyFwmark @
          '' meta mark set 0'')]"

definition srcMatch :: "string list \<Rightarrow> string" where
  "srcMatch srcs = (case srcs of [s] \<Rightarrow> s | _ \<Rightarrow> ''{ '' @ Join srcs '', '' @ '' }'')"

definition masqRule :: "snatEntry \<Rightarrow> string" where
  "masqRule e = indent (''ip daddr '' @ sn_addr e @ '' '' @ sn_proto e @ '' dport '' @ show_int (sn_port e) @
     '' ct status dnat masquerade'')"

definition masqFrom :: "string list \<Rightarrow> string \<Rightarrow> string" where
  "masqFrom srcs vip = indent (''ip saddr '' @ srcMatch srcs @ '' ct original daddr '' @ vip @
     '' ct status dnat masquerade'')"

definition sortedSNATIPs :: "string list \<Rightarrow> string list" where
  "sortedSNATIPs ips = remdups_adj (sort ips)"

definition hairpinNeeded :: "PortForwardVIP list \<Rightarrow> ipnet list \<Rightarrow> bool" where
  "hairpinNeeded forwards nets \<longleftrightarrow> hairpinVIPs forwards \<noteq> [] \<and> nets \<noteq> []"

definition routerMasqNeeded :: "PortForwardVIP list \<Rightarrow> string list \<Rightarrow> bool" where
  "routerMasqNeeded forwards snatIPs \<longleftrightarrow> routerMasqVIPs forwards \<noteq> [] \<and> snatIPs \<noteq> []"

definition snatRules :: "PortForwardVIP list \<Rightarrow> ipnet list \<Rightarrow> string list \<Rightarrow> string list" where
  "snatRules forwards nets snatIPs =
     map masqRule (snatEntries forwards) @
     (if hairpinNeeded forwards nets
      then map (masqFrom (map netString nets)) (hairpinVIPs forwards) else []) @
     (if routerMasqNeeded forwards snatIPs
      then map (masqFrom (sortedSNATIPs snatIPs)) (routerMasqVIPs forwards) else [])"

definition postrouting_snat :: "PortForwardVIP list \<Rightarrow> ipnet list \<Rightarrow> string list \<Rightarrow> string list" where
  "postrouting_snat forwards nets snatIPs =
     (if snatEntries forwards \<noteq> [] \<or> hairpinNeeded forwards nets \<or> routerMasqNeeded forwards snatIPs
      then chain ''postrouting_snat'' ''type nat hook postrouting priority srcnat'' (snatRules forwards nets snatIPs)
      else [])"

definition rulesetLines :: "PortForwardVIP list \<Rightarrow> ipnet list \<Rightarrow> string list \<Rightarrow> int \<Rightarrow> string list" where
  "rulesetLines forwards providerNetworks snatIPs ctZone =
     [''table ip '' @ nftTableName @ '' {''] @
     prerouting_ctzone ctZone forwards @ output_ctzone ctZone forwards @ prerouting_dnat forwards @
     prerouting_fwmark forwards @ output_fwmark forwards @ forward_veth_guard providerNetworks @
     postrouting_fwmark_clear @ postrouting_snat forwards providerNetworks snatIPs @ [''}'']"

definition buildNftRuleset :: "PortForwardVIP list \<Rightarrow> ipnet list \<Rightarrow> string list \<Rightarrow> int \<Rightarrow> string" where
  "buildNftRuleset forwards providerNetworks snatIPs ctZone =
     concat (map (\<lambda>l. l @ [newline]) (rulesetLines forwards providerNetworks snatIPs ctZone))"

section \<open>Routers' addresses as a set\<close>

lemma strict_unique:
  fixes xs ys :: "string list"
  assumes "sorted_wrt (<) xs" "sorted_wrt (<) ys" "set xs = set ys"
  shows "xs = ys"
  using assms strict_sorted_equal by blast

lemma sortedSNATIPs_set: "set (sortedSNATIPs ips) = set ips"
  by (simp add: sortedSNATIPs_def)

lemma sortedSNATIPs_strict: "sorted_wrt (<) (sortedSNATIPs ips)"
proof -
  have "sorted xs \<Longrightarrow> sorted (remdups_adj xs) \<and> distinct (remdups_adj xs)" for xs :: "string list"
    by (induction xs rule: remdups_adj.induct) (auto simp: less_le)
  then show ?thesis unfolding sortedSNATIPs_def strict_sorted_iff by simp
qed

text \<open>
  C32. The ruleset does not depend on how OVN lists the router addresses: two lists with the same
  addresses, in any order and with any repetition, give the same text, so a reconciliation without
  a change of the desired state loads the very ruleset that is already there.
\<close>

theorem buildNftRuleset_snat_set:
  assumes "set snatIPs = set snatIPs'"
  shows "buildNftRuleset forwards nets snatIPs ctZone = buildNftRuleset forwards nets snatIPs' ctZone"
proof -
  have "sortedSNATIPs snatIPs = sortedSNATIPs snatIPs'"
    using assms by (intro strict_unique sortedSNATIPs_strict) (simp add: sortedSNATIPs_set)
  moreover have "snatIPs = [] \<longleftrightarrow> snatIPs' = []" using assms by (metis set_empty)
  ultimately show ?thesis
    by (simp add: buildNftRuleset_def rulesetLines_def postrouting_snat_def snatRules_def routerMasqNeeded_def)
qed

section \<open>The chains fit together\<close>

lemma jhashMap_nth:
  "jhashMap i port addrs = map (\<lambda>k. show_nat (i + k) @ '' : '' @ addrs ! k @ '' . '' @ show_int port) [0..<length addrs]"
proof (induction addrs arbitrary: i)
  case (Cons a addrs)
  have u: "[0..<Suc n] = 0 # map Suc [0..<n]" for n
    by (metis upt_conv_Cons map_Suc_upt zero_less_Suc)
  show ?case by (simp add: Cons u comp_def del: upt_Suc)
qed simp

lemma dnatRule_length: "length (dnatRule vip r) = (if destAddrs r = [] then 0 else 1)"
  by (auto simp: dnatRule_def split: list.split)

lemma writeCTZoneRules_mem:
  assumes "pf \<in> set forwards" "r \<in> set (v_Rules pf)" "addr \<in> set (destAddrs r)"
  shows "zoneVIP z (v_VIP pf) r \<in> set (writeCTZoneRules z forwards)"
    and "zoneBackend z r addr \<in> set (writeCTZoneRules z forwards)"
  using assms unfolding writeCTZoneRules_def by (force intro!: bexI [of _ pf] bexI [of _ r])+

lemma snatEntries_set:
  "set (snatEntries forwards) = {\<lparr>sn_addr = addr, sn_proto = r_Proto r, sn_port = destPort r\<rparr> | addr r pf.
     pf \<in> set forwards \<and> r \<in> set (v_Rules pf) \<and> addr \<in> set (destAddrs r) \<and> effectiveMasquerade r (v_Masquerade pf)}"
  unfolding snatEntries_def by (auto split: if_splits)

text \<open>
  For every backend a client can be sent to, both directions of the connection are put into
  the shared conntrack zone, on arriving packets and on packets of this host; the DNAT chain has
  exactly one rule for each forwarded port; and the backends masqueraded by address are exactly
  those whose rule, or else whose VIP, asks for it.
\<close>

theorem nft_chains_cover:
  assumes "pf \<in> set forwards" "r \<in> set (v_Rules pf)" "addr \<in> set (destAddrs r)"
  shows "zoneVIP z (v_VIP pf) r \<in> set (prerouting_ctzone z forwards) \<inter> set (output_ctzone z forwards)
    \<and> zoneBackend z r addr \<in> set (prerouting_ctzone z forwards) \<inter> set (output_ctzone z forwards)
    \<and> set (dnatRule (v_VIP pf) r) \<subseteq> set (prerouting_dnat forwards) \<and> length (dnatRule (v_VIP pf) r) = 1
    \<and> (effectiveMasquerade r (v_Masquerade pf) \<longrightarrow>
        masqRule \<lparr>sn_addr = addr, sn_proto = r_Proto r, sn_port = destPort r\<rparr> \<in> set (postrouting_snat forwards nets snatIPs))
    \<and> set (snatEntries forwards) = {\<lparr>sn_addr = a, sn_proto = r_Proto q, sn_port = destPort q\<rparr> | a q p.
        p \<in> set forwards \<and> q \<in> set (v_Rules p) \<and> a \<in> set (destAddrs q) \<and> effectiveMasquerade q (v_Masquerade p)}"
proof (intro conjI impI)
  show "zoneVIP z (v_VIP pf) r \<in> set (prerouting_ctzone z forwards) \<inter> set (output_ctzone z forwards)"
    "zoneBackend z r addr \<in> set (prerouting_ctzone z forwards) \<inter> set (output_ctzone z forwards)"
    using writeCTZoneRules_mem [OF assms] by (simp_all add: prerouting_ctzone_def output_ctzone_def chain_def)
  show "set (dnatRule (v_VIP pf) r) \<subseteq> set (prerouting_dnat forwards)"
    using assms(1,2) unfolding prerouting_dnat_def chain_def dnatRules_def by auto
  show "length (dnatRule (v_VIP pf) r) = 1" using assms(3) by (auto simp: dnatRule_length)
  show "set (snatEntries forwards) = {\<lparr>sn_addr = a, sn_proto = r_Proto q, sn_port = destPort q\<rparr> | a q p.
        p \<in> set forwards \<and> q \<in> set (v_Rules p) \<and> a \<in> set (destAddrs q) \<and> effectiveMasquerade q (v_Masquerade p)}"
    by (rule snatEntries_set)
next
  let ?e = "\<lparr>sn_addr = addr, sn_proto = r_Proto r, sn_port = destPort r\<rparr>"
  assume "effectiveMasquerade r (v_Masquerade pf)"
  then have "?e \<in> set (snatEntries forwards)" unfolding snatEntries_set using assms by blast
  then show "masqRule ?e \<in> set (postrouting_snat forwards nets snatIPs)"
    by (auto simp: postrouting_snat_def snatRules_def chain_def)
qed

section \<open>The text splits back into its lines\<close>

definition one_line :: "string \<Rightarrow> bool" where
  "one_line l \<longleftrightarrow> newline \<notin> set l"

lemma one_line_simps [simp]:
  "one_line (u @ v) \<longleftrightarrow> one_line u \<and> one_line v"
  "one_line []" "one_line (c # u) \<longleftrightarrow> c \<noteq> newline \<and> one_line u"
  by (auto simp: one_line_def)

lemma one_line_word: "is_word w \<Longrightarrow> one_line w"
  unfolding one_line_def by (rule word_no_newline)

lemma one_line_Join: "list_all one_line ws \<Longrightarrow> one_line sep \<Longrightarrow> one_line (Join ws sep)"
  by (induction ws sep rule: Join.induct) auto

lemma one_line_printed [simp]:
  "one_line (show_nat n)" "one_line (show_int i)" "one_line (netString net)" "one_line (show_base 16 n)"
  by (rule one_line_word; simp add: show_nat_word show_int_word netString_word show_base_word)+

lemma Split_lines:
  "list_all one_line ls \<Longrightarrow> Split newline (concat (map (\<lambda>l. l @ [newline]) ls)) = ls @ [[]]"
proof (induction ls)
  case (Cons l ls)
  then show ?case
    using Split_append [of newline l "concat (map (\<lambda>l. l @ [newline]) ls)"] by (simp add: one_line_def)
qed simp

lemma ip4_string_line: "ip4_string s \<Longrightarrow> one_line s"
  by (auto simp: ip4_string_def intro!: one_line_word ParseIP_word split: option.splits)

lemma rule_lines:
  assumes "rule_ok r"
  shows "one_line (r_Proto r)" "list_all one_line (destAddrs r)"
  using assms ip4_string_line by (auto simp: rule_ok_def list_all_iff newline_def)

lemma one_line_jhash: "list_all one_line addrs \<Longrightarrow> list_all one_line (jhashMap i port addrs)"
  by (induction i port addrs rule: jhashMap.induct) (auto simp: newline_def)

lemma one_line_vipMatch: "list_all (\<lambda>pf. one_line (v_VIP pf)) forwards \<Longrightarrow> one_line (vipMatch forwards)"
proof -
  assume "list_all (\<lambda>pf. one_line (v_VIP pf)) forwards"
  then have "list_all one_line (allVIPs forwards)" by (simp add: allVIPs_def list_all_iff)
  then show ?thesis
    by (auto simp: vipMatch_def newline_def intro!: one_line_Join split: list.splits)
qed

lemma one_line_srcMatch: "list_all one_line srcs \<Longrightarrow> one_line (srcMatch srcs)"
  by (auto simp: srcMatch_def newline_def intro!: one_line_Join split: list.splits)

lemma one_line_chain:
  "one_line name \<Longrightarrow> one_line header \<Longrightarrow> list_all one_line rules \<Longrightarrow> list_all one_line (chain name header rules)"
  by (simp add: chain_def indent_def newline_def)

lemma dnatRule_lines:
  assumes "rule_ok r" "one_line vip"
  shows "list_all one_line (dnatRule vip r)"
proof -
  have j: "one_line (Join (jhashMap 0 (destPort r) (destAddrs r)) '', '')"
    using rule_lines [OF assms(1)] by (intro one_line_Join one_line_jhash) (simp_all add: newline_def)
  show ?thesis
    using rule_lines [OF assms(1)] assms(2) j
    by (auto simp: dnatRule_def indent_def newline_def split: list.split)
qed


lemma list_all_concat_map: "list_all (\<lambda>x. list_all P (f x)) xs \<Longrightarrow> list_all P (concat (map f xs))"
  by (induction xs) auto

lemma forwards_okD:
  assumes "forwards_ok forwards" "pf \<in> set forwards"
  shows "one_line (v_VIP pf)" "r \<in> set (v_Rules pf) \<Longrightarrow> rule_ok r"
  using assms ip4_string_line by (auto simp: forwards_ok_def vip_ok_def list_all_iff)

lemma zone_lines:
  assumes "forwards_ok forwards"
  shows "list_all one_line (writeCTZoneRules z forwards)"
  unfolding writeCTZoneRules_def list_all_iff
  using forwards_okD [OF assms] rule_lines
  by (fastforce simp: zoneVIP_def zoneBackend_def indent_def newline_def list_all_iff)

lemma dnat_lines:
  assumes "forwards_ok forwards"
  shows "list_all one_line (dnatRules forwards)"
  unfolding dnatRules_def
proof (intro list_all_concat_map, unfold list_all_iff, intro ballI)
  fix pf assume "pf \<in> set forwards"
  with forwards_okD [OF assms this] dnatRule_lines
  show "\<And>x. x \<in> set (concat (map (dnatRule (v_VIP pf)) (v_Rules pf))) \<Longrightarrow> one_line x"
    by (auto simp: list_all_iff)
qed

lemma snat_lines:
  assumes "forwards_ok forwards" "list_all is_word snatIPs"
  shows "list_all one_line (snatRules forwards nets snatIPs)"
proof -
  have e: "one_line (masqRule e)" if "e \<in> set (snatEntries forwards)" for e
    using that forwards_okD [OF assms(1)] rule_lines
    unfolding snatEntries_set masqRule_def indent_def by (fastforce simp: newline_def list_all_iff)
  have v: "one_line (v_VIP pf)" if "pf \<in> set forwards" for pf
    using forwards_okD(1) [OF assms(1) that] .
  have "list_all one_line (sortedSNATIPs snatIPs)"
    using assms(2) one_line_word by (auto simp: list_all_iff sortedSNATIPs_set)
  then have s: "one_line (srcMatch (sortedSNATIPs snatIPs))" "one_line (srcMatch (map netString nets))"
    by (auto intro!: one_line_srcMatch simp: list_all_iff)
  show ?thesis
    using e v s by (auto simp: snatRules_def list_all_iff hairpinVIPs_def routerMasqVIPs_def masqFrom_def
        indent_def newline_def)
qed

lemma guard_lines: "list_all one_line (guardRules nets)"
proof -
  have "one_line (Join (map netString nets) '', '')"
    by (intro one_line_Join) (simp_all add: list_all_iff newline_def)
  then show ?thesis
    by (simp add: guardRules_def indent_def quoted_def mark_def vethDefaultName_def newline_def)
qed

text \<open>
  Nothing in the configuration can add a line of its own to the ruleset: for validated
  forwards and router addresses without white space, the text loaded into nftables splits into
  exactly the lines of the chains, in order.
\<close>

theorem buildNftRuleset_lines:
  assumes "forwards_ok forwards" "list_all is_word snatIPs"
  shows "Split newline (buildNftRuleset forwards nets snatIPs ctZone) =
    rulesetLines forwards nets snatIPs ctZone @ [[]]"
proof -
  have m: "one_line (vipMatch forwards)"
    using forwards_okD(1) [OF assms(1)] by (intro one_line_vipMatch) (simp add: list_all_iff)
  have marks: "list_all one_line [markRule d forwards k]" if "one_line d" for d k
    using m that by (simp add: markRule_def indent_def mark_def newline_def)
  have c1: "list_all one_line (prerouting_ctzone ctZone forwards)" "list_all one_line (output_ctzone ctZone forwards)"
    unfolding prerouting_ctzone_def output_ctzone_def
    by (intro one_line_chain zone_lines assms; simp add: newline_def)+
  have c2: "list_all one_line (prerouting_dnat forwards)"
    unfolding prerouting_dnat_def by (intro one_line_chain dnat_lines assms; simp add: newline_def)
  have c3: "list_all one_line (prerouting_fwmark forwards)" "list_all one_line (output_fwmark forwards)"
    unfolding prerouting_fwmark_def output_fwmark_def
    using marks [of "''original''"] marks [of "''reply''"]
    by (intro one_line_chain; simp add: newline_def)+
  have c4: "list_all one_line (forward_veth_guard nets)" "list_all one_line postrouting_fwmark_clear"
    unfolding forward_veth_guard_def postrouting_fwmark_clear_def
    by (intro one_line_chain guard_lines; simp add: newline_def indent_def quoted_def mark_def vethDefaultName_def)+
  have c5: "list_all one_line (postrouting_snat forwards nets snatIPs)"
    unfolding postrouting_snat_def
    using one_line_chain [OF _ _ snat_lines [OF assms]] by (simp add: newline_def)
  show ?thesis
    unfolding buildNftRuleset_def rulesetLines_def
    by (intro Split_lines) (simp add: c1 c2 c3 c4 c5, simp add: nftTableName_def newline_def)
qed

section \<open>Examples\<close>

definition demo_rule :: PortForwardRule where
  "demo_rule = \<lparr>r_Proto = ''tcp'', r_Port = 443, r_DestAddr = ''10.0.0.5'', r_DestAddrs = [], r_DestPort = 0,
     r_Masquerade = None\<rparr>"

definition demo_vip :: PortForwardVIP where
  "demo_vip = \<lparr>v_VIP = ''192.0.2.1'', v_ManageVIP = True, v_Masquerade = True, v_HairpinMasquerade = False,
     v_RouterMasquerade = True, v_Rules = [demo_rule]\<rparr>"

theorem buildNftRuleset_snat_set_witness:
  "buildNftRuleset [demo_vip] [] [''192.0.2.9'', ''192.0.2.8'', ''192.0.2.9''] 64000 =
   buildNftRuleset [demo_vip] [] [''192.0.2.8'', ''192.0.2.9''] 64000"
  by (rule buildNftRuleset_snat_set) auto

theorem nft_chains_cover_witness:
  "zoneBackend 64000 demo_rule ''10.0.0.5'' \<in> set (output_ctzone 64000 [demo_vip])"
  using nft_chains_cover [of demo_vip "[demo_vip]" demo_rule "''10.0.0.5''" 64000 "[]" "[]"]
  by (simp add: demo_vip_def demo_rule_def destAddrs_def)

theorem buildNftRuleset_lines_witness:
  "last (Split newline (buildNftRuleset [demo_vip] [] [] 64000)) = []"
proof -
  have "forwards_ok [demo_vip]"
    by (simp add: forwards_ok_def vip_ok_def rule_ok_def ip4_string_def demo_vip_def demo_rule_def destAddrs_def
        net_eval char_of_def bit_Suc_0_iff)
  then show ?thesis using buildNftRuleset_lines [of "[demo_vip]" "[]" "[]" 64000] by simp
qed

end
