(* ===== verification/VethLeak.thy ===== *)
theory VethLeak
  imports Kernel
begin

text \<open>
  The veth pair that leaks routes between the default VRF and the provider VRF
  (\<open>routing_linux.go\<close>): set-up, tear-down and the reconciliation of the routes and policy rules
  of each network. The order in which Go visits a map is the argument \<open>ords\<close>, one order for
  each loop.
\<close>

definition vethPrefixLen :: nat where
  "vethPrefixLen = 30"

definition getVRFTableID :: "'s sysenv \<Rightarrow> RouteManager \<Rightarrow> ('s, int result) io" where
  "getVRFTableID E rm =
     do { r \<leftarrow> LinkByName E (rm_vrfName rm);
          ret (case r of Inl err \<Rightarrow> Inl (ErrWrap (''find VRF '' @ rm_vrfName rm) err)
               | Inr link \<Rightarrow> (case l_vrf link of None \<Rightarrow> Inl (ErrMsg (rm_vrfName rm @ '' is not a VRF device''))
                              | Some table \<Rightarrow> Inr table)) }"

section \<open>Reconciling the networks\<close>

definition leakRoute :: "RouteManager \<Rightarrow> lnk \<Rightarrow> int \<Rightarrow> ipnet \<Rightarrow> nlroute" where
  "leakRoute rm provider table network =
     emptyRoute\<lparr>rt_link := l_index provider, rt_dst := Some network, rt_gw := ParseIP (rm_vethNexthop rm),
       rt_table := table, rt_proto := rtProtoOVNNetworkAgent\<rparr>"

definition leakRule :: "RouteManager \<Rightarrow> ipnet \<Rightarrow> nlrule" where
  "leakRule rm network =
     NewRule\<lparr>ru_src := Some network, ru_table := rm_vethLeakTableID rm, ru_prio := rm_vethLeakRulePriority rm\<rparr>"

definition isLeakRoute :: "RouteManager \<Rightarrow> nlroute \<Rightarrow> bool" where
  "isLeakRoute rm r \<longleftrightarrow> rt_dst r \<noteq> None \<and> rt_gw r \<noteq> None \<and> rt_gw r = ParseIP (rm_vethNexthop rm)
     \<and> rt_proto r = rtProtoOVNNetworkAgent"

definition currentNets :: "RouteManager \<Rightarrow> nlroute list \<Rightarrow> string list" where
  "currentNets rm routes =
     dedup_by (\<lambda>n. n) [] (map (\<lambda>r. netString (the (rt_dst r))) (filter (isLeakRoute rm) routes))"

definition isLeakRule :: "RouteManager \<Rightarrow> nlrule \<Rightarrow> bool" where
  "isLeakRule rm r \<longleftrightarrow>
     ru_table r = rm_vethLeakTableID rm \<and> ru_prio r = rm_vethLeakRulePriority rm \<and> ru_src r \<noteq> None"

definition ruleNet :: "nlrule \<Rightarrow> string" where
  "ruleNet r = netString (the (ru_src r))"

definition currentRules :: "RouteManager \<Rightarrow> nlrule list \<Rightarrow> string list" where
  "currentRules rm rules = map ruleNet (filter (isLeakRule rm) rules)"

definition desiredNets :: "ipnet list \<Rightarrow> (string, ipnet) gomap" where
  "desiredNets desired = upd_all (map (\<lambda>n. (netString n, n)) desired) []"

definition missingKeys ::
  "(string list \<Rightarrow> string list) \<Rightarrow> ipnet list \<Rightarrow> string list \<Rightarrow> string list" where
  "missingKeys ord desired present = filter (\<lambda>k. \<not> has present k) (ord (map_keys (desiredNets desired)))"

definition missingNets ::
  "(string list \<Rightarrow> string list) \<Rightarrow> ipnet list \<Rightarrow> string list \<Rightarrow> ipnet list" where
  "missingNets ord desired present =
     map (\<lambda>k. the (map_of (desiredNets desired) k)) (missingKeys ord desired present)"

definition staleKeys ::
  "(string list \<Rightarrow> string list) \<Rightarrow> ipnet list \<Rightarrow> string list \<Rightarrow> string list" where
  "staleKeys ord desired present = filter (\<lambda>k. map_of (desiredNets desired) k = None) (ord present)"

definition staleNets ::
  "(string list \<Rightarrow> string list) \<Rightarrow> ipnet list \<Rightarrow> string list \<Rightarrow> ipnet list" where
  "staleNets ord desired present =
     List.map_filter (\<lambda>k. map_option snd (ParseCIDR k)) (staleKeys ord desired present)"

definition staleRules :: "RouteManager \<Rightarrow> ipnet list \<Rightarrow> nlrule list \<Rightarrow> nlrule list" where
  "staleRules rm desired rules =
     filter (\<lambda>r. isLeakRule rm r \<and> map_of (desiredNets desired) (ruleNet r) = None) rules"

definition addLeakRoute :: "'s sysenv \<Rightarrow> RouteManager \<Rightarrow> lnk \<Rightarrow> int \<Rightarrow> ipnet \<Rightarrow> ('s, goerr option) io" where
  "addLeakRoute E rm provider table network =
     attempt (''add VRF route for '' @ netString network)
       (netlink E (RouteReplace (leakRoute rm provider table network))) (ret None)"

definition addLeakRule :: "'s sysenv \<Rightarrow> RouteManager \<Rightarrow> ipnet \<Rightarrow> ('s, goerr option) io" where
  "addLeakRule E rm network =
     do { e \<leftarrow> netlink E (RuleAdd (leakRule rm network));
          ret (case e of None \<Rightarrow> None | Some err \<Rightarrow>
            if isFileExists err then None
            else Some (ErrWrap (''add policy rule for '' @ netString network) err)) }"

definition leakFilter :: "lnk \<Rightarrow> int \<Rightarrow> rtfilter" where
  "leakFilter provider table =
     \<lparr>fl_link = Some (l_index provider), fl_table = Some table, fl_proto = Some rtProtoOVNNetworkAgent\<rparr>"

text \<open>The removals at the end of a reconciliation only log their errors.\<close>

definition removeStale ::
  "(string list \<Rightarrow> string list) \<Rightarrow> 's sysenv \<Rightarrow> RouteManager \<Rightarrow> lnk \<Rightarrow> int \<Rightarrow> ipnet list \<Rightarrow> string list \<Rightarrow>
   ('s, goerr option) io" where
  "removeStale ord E rm provider table desired current =
     do { _ \<leftarrow> for_each (\<lambda>n. ignoring (netlink E (RouteDel (leakRoute rm provider table n))))
                 (staleNets ord desired current);
          rules \<leftarrow> RuleList E;
          case rules of Inl err \<Rightarrow> ret None | Inr rules \<Rightarrow>
            do { _ \<leftarrow> for_each (\<lambda>r. ignoring (netlink E (RuleDel r))) (staleRules rm desired rules);
                 ret None } }"

definition ReconcileVethLeakNetworks ::
  "(nat \<Rightarrow> string list \<Rightarrow> string list) \<Rightarrow> 's sysenv \<Rightarrow> RouteManager \<Rightarrow> ipnet list \<Rightarrow> ('s, goerr option) io" where
  "ReconcileVethLeakNetworks ords E rm desired =
     (if \<not> rm_vethLeakEnabled rm then ret None
      else if rm_dryRun rm then ret None
      else fetch (''find '' @ vethProviderName) (LinkByName E vethProviderName) (\<lambda>provider.
        fetch ''get VRF table ID'' (getVRFTableID E rm) (\<lambda>table.
        fetch ''list VRF routes'' (RouteListFiltered E (leakFilter provider table)) (\<lambda>routes.
        do { r \<leftarrow> RuleList E;
             e \<leftarrow> for_err (addLeakRoute E rm provider table)
                   (missingNets (ords 0) desired (currentNets rm routes));
             case e of Some err \<Rightarrow> ret (Some err) | None \<Rightarrow>
        do { e \<leftarrow> for_err (addLeakRule E rm)
                   (missingNets (ords 1) desired
                     (case r of Inl err \<Rightarrow> [] | Inr rules \<Rightarrow> currentRules rm rules));
             case e of Some err \<Rightarrow> ret (Some err) | None \<Rightarrow>
               removeStale (ords 2) E rm provider table desired (currentNets rm routes) } }))))"

section \<open>Set-up\<close>

definition defaultRoute :: "RouteManager \<Rightarrow> lnk \<Rightarrow> nlroute" where
  "defaultRoute rm vdefault =
     emptyRoute\<lparr>rt_link := l_index vdefault, rt_gw := ParseIP (rm_vethProviderIP rm),
       rt_table := rm_vethLeakTableID rm\<rparr>"

text \<open>Step 1: the pair is created unless its default end is there.\<close>

definition vethPair :: "'s sysenv \<Rightarrow> (lnk \<Rightarrow> ('s, goerr option) io) \<Rightarrow> ('s, goerr option) io" where
  "vethPair E k =
     do { r \<leftarrow> LinkByName E vethDefaultName;
          case r of Inr vdefault \<Rightarrow> k vdefault
          | Inl _ \<Rightarrow> attempt ''create veth pair'' (netlink E (LinkAddVeth vethDefaultName vethProviderName))
              (fetch (''find '' @ vethDefaultName @ '' after creation'') (LinkByName E vethDefaultName) k) }"

text \<open>Step 5: both links are read again, for their hardware addresses.\<close>

definition vethNeighbours ::
  "'s sysenv \<Rightarrow> RouteManager \<Rightarrow> (lnk \<Rightarrow> ('s, goerr option) io) \<Rightarrow> ('s, goerr option) io" where
  "vethNeighbours E rm k =
     fetch (''refetch '' @ vethDefaultName) (LinkByName E vethDefaultName) (\<lambda>vdefault.
     fetch (''refetch '' @ vethProviderName) (LinkByName E vethProviderName) (\<lambda>vprovider.
     attempt (''set neighbor on '' @ vethDefaultName)
       (netlink E (NeighSet (l_index vdefault) (ParseIP (rm_vethProviderIP rm)) (l_mac vprovider)))
     (attempt (''set neighbor on '' @ vethProviderName)
       (netlink E (NeighSet (l_index vprovider) (ParseIP (rm_vethNexthop rm)) (l_mac vdefault)))
     (k vdefault))))"

definition SetupVethLeak ::
  "(nat \<Rightarrow> string list \<Rightarrow> string list) \<Rightarrow> 's sysenv \<Rightarrow> RouteManager \<Rightarrow> ('s, goerr option) io" where
  "SetupVethLeak ords E rm =
     (if \<not> rm_vethLeakEnabled rm then ret None
      else if rm_dryRun rm then ret None
      else vethPair E (\<lambda>vdefault.
        fetch (''find '' @ vethProviderName) (LinkByName E vethProviderName) (\<lambda>vprovider.
        fetch (''find VRF '' @ rm_vrfName rm) (LinkByName E (rm_vrfName rm)) (\<lambda>vrf.
        attempt (''set '' @ vethProviderName @ '' master to '' @ rm_vrfName rm)
          (netlink E (LinkSetMaster vprovider vrf))
        (attempt (''assign IP to '' @ vethDefaultName)
          (netlink E (AddrReplace vdefault (ParseIP (rm_vethNexthop rm), vethPrefixLen)))
        (attempt (''assign IP to '' @ vethProviderName)
          (netlink E (AddrReplace vprovider (ParseIP (rm_vethProviderIP rm), vethPrefixLen)))
        (attempt (''bring up '' @ vethDefaultName) (netlink E (LinkSetUp vdefault))
        (attempt (''bring up '' @ vethProviderName) (netlink E (LinkSetUp vprovider))
        (vethNeighbours E rm (\<lambda>vdefault.
           attempt (''add default route in table '' @ show_int (rm_vethLeakTableID rm))
             (netlink E (RouteReplace (defaultRoute rm vdefault)))
           (if rm_networkFilters rm \<noteq> []
            then attempt ''initial veth leak network setup''
                   (ReconcileVethLeakNetworks ords E rm (rm_networkFilters rm)) (ret None)
            else ret None)))))))))))"

section \<open>Tear-down\<close>

definition teardownRules :: "'s sysenv \<Rightarrow> RouteManager \<Rightarrow> ('s, unit) io" where
  "teardownRules E rm =
     do { r \<leftarrow> RuleList E;
          case r of Inl err \<Rightarrow> ret () | Inr rules \<Rightarrow>
            for_each (\<lambda>r. ignoring (netlink E (RuleDel r)))
              (filter (\<lambda>r. ru_table r = rm_vethLeakTableID rm \<and> ru_prio r = rm_vethLeakRulePriority rm) rules) }"

definition teardownDefault :: "'s sysenv \<Rightarrow> RouteManager \<Rightarrow> ('s, unit) io" where
  "teardownDefault E rm =
     do { r \<leftarrow> LinkByName E vethDefaultName;
          case r of Inl err \<Rightarrow> ret ()
          | Inr vdefault \<Rightarrow> ignoring (netlink E (RouteDel (defaultRoute rm vdefault))) }"

definition teardownNetworks :: "'s sysenv \<Rightarrow> RouteManager \<Rightarrow> ('s, unit) io" where
  "teardownNetworks E rm =
     do { r \<leftarrow> LinkByName E vethProviderName;
          case r of Inl err \<Rightarrow> ret () | Inr vprovider \<Rightarrow>
     do { t \<leftarrow> getVRFTableID E rm;
          case t of Inl err \<Rightarrow> ret () | Inr table \<Rightarrow>
     do { rs \<leftarrow> RouteListFiltered E \<lparr>fl_link = Some (l_index vprovider), fl_table = Some table, fl_proto = None\<rparr>;
          case rs of Inl err \<Rightarrow> ret () | Inr routes \<Rightarrow>
            for_each (\<lambda>r. ignoring (netlink E (RouteDel r))) routes } } }"

definition TeardownVethLeak :: "'s sysenv \<Rightarrow> RouteManager \<Rightarrow> ('s, goerr option) io" where
  "TeardownVethLeak E rm =
     (if \<not> rm_vethLeakEnabled rm then ret None
      else if rm_dryRun rm then ret None
      else do { _ \<leftarrow> teardownRules E rm;
                _ \<leftarrow> teardownDefault E rm;
                _ \<leftarrow> teardownNetworks E rm;
                r \<leftarrow> LinkByName E vethDefaultName;
                case r of Inl err \<Rightarrow> ret None
                | Inr vdefault \<Rightarrow> attempt (''delete '' @ vethDefaultName) (netlink E (LinkDel vdefault)) (ret None) })"

section \<open>The plan of a reconciliation\<close>

lemma desiredNets_keys: "set (map_keys (desiredNets desired)) = netString ` set desired"
  by (force simp: desiredNets_def map_keys_def upd_all_keys)

lemma desiredNets_None: "map_of (desiredNets desired) k = None \<longleftrightarrow> k \<notin> netString ` set desired"
  using desiredNets_keys [of desired] by (auto simp: map_of_eq_None_iff map_keys_def)

lemma desiredNets_Some:
  "map_of (desiredNets desired) k = Some n \<Longrightarrow> n \<in> set desired \<and> netString n = k"
  unfolding desiredNets_def by (drule map_of_upd_all_SomeD) auto

interpretation leak_plan: diff_plan "\<lambda>desired. netString ` set desired" set missingKeys staleKeys
  by unfold_locales
    (auto simp: missingKeys_def staleKeys_def visit_order_set desiredNets_keys desiredNets_None)

lemma missingNets_mem:
  assumes "visit_order ord" "n \<in> set (missingNets ord desired present)"
  shows "n \<in> set desired \<and> netString n \<notin> set present"
proof -
  from assms(2) obtain k where k: "k \<in> set (missingKeys ord desired present)"
      "n = the (map_of (desiredNets desired) k)"
    by (auto simp: missingNets_def)
  then have "k \<in> netString ` set desired" "k \<notin> set present"
    using leak_plan.adds_set [OF assms(1), of desired present] by auto
  then obtain m where "map_of (desiredNets desired) k = Some m"
    using desiredNets_None [of desired k] by blast
  with k \<open>k \<notin> set present\<close> desiredNets_Some [of desired k m] show ?thesis by simp
qed

lemma missingNets_keys:
  assumes "visit_order ord"
  shows "netString ` set (missingNets ord desired present) = netString ` set desired - set present"
proof -
  have "netString (the (map_of (desiredNets desired) k)) = k" if "k \<in> netString ` set desired" for k
  proof -
    from that obtain m where "map_of (desiredNets desired) k = Some m"
      using desiredNets_None [of desired k] by blast
    then show ?thesis using desiredNets_Some [of desired k m] by simp
  qed
  moreover have "netString ` set (missingNets ord desired present) =
      (\<lambda>k. netString (the (map_of (desiredNets desired) k))) ` (netString ` set desired - set present)"
    unfolding missingNets_def set_map image_image leak_plan.adds_set [OF assms] ..
  ultimately show ?thesis by force
qed

lemma staleNets_mem:
  assumes "visit_order ord" "n \<in> set (staleNets ord desired present)"
  shows "\<exists>k a. ParseCIDR k = Some (a, n) \<and> k \<in> set present \<and> k \<notin> netString ` set desired"
  using assms(2) leak_plan.dels_set [OF assms(1), of desired present]
  by (fastforce simp: staleNets_def set_map_filter)

lemma currentNets_mem:
  "k \<in> set (currentNets rm routes) \<longleftrightarrow> (\<exists>r\<in>set routes. isLeakRoute rm r \<and> k = netString (the (rt_dst r)))"
  by (auto simp: currentNets_def dedup_id_set)

lemma currentRules_mem:
  "k \<in> set (currentRules rm rules) \<longleftrightarrow> (\<exists>r\<in>set rules. isLeakRule rm r \<and> k = ruleNet r)"
  by (auto simp: currentRules_def)

section \<open>What a reconciliation writes\<close>

text \<open>
  The writes a reconciliation towards \<open>desired\<close> may make: routes of the agent's protocol for a
  desired network, rules of the leak table and priority from a desired network, the removal of
  the agent's route to a network that is not desired, and of a rule with the leak table and
  priority whose source is not desired.
\<close>

fun leak_write :: "RouteManager \<Rightarrow> ipnet list \<Rightarrow> ev \<Rightarrow> bool" where
  "leak_write rm desired (EvQuery q) = True"
| "leak_write rm desired (EvNl (RouteReplace r)) = (\<exists>p t. \<exists>n\<in>set desired. r = leakRoute rm p t n)"
| "leak_write rm desired (EvNl (RuleAdd r)) = (\<exists>n\<in>set desired. r = leakRule rm n)"
| "leak_write rm desired (EvNl (RouteDel r)) = (\<exists>p t n k a. r = leakRoute rm p t n
     \<and> ParseCIDR k = Some (a, n) \<and> k \<notin> netString ` set desired)"
| "leak_write rm desired (EvNl (RuleDel r)) = (isLeakRule rm r \<and> ruleNet r \<notin> netString ` set desired)"
| "leak_write rm desired _ = False"

lemma emits_getVRFTableID [emits_intros]: "(\<And>q. P (EvQuery q)) \<Longrightarrow> emits P (getVRFTableID E rm)"
  by (auto simp: getVRFTableID_def intro!: emits_intros)

lemma emits_removeStale:
  assumes "visit_order ord"
  shows "emits (leak_write rm desired) (removeStale ord E rm p t desired current)"
  unfolding removeStale_def
  using staleNets_mem [OF assms, of _ desired current]
  by (intro emits_intros)
    (fastforce simp: staleRules_def desiredNets_None)+

text \<open>
  C30. Reconciling the leaked networks touches only what is the agent's: it never deletes a route
  of another protocol, a rule of another table or priority, or anything of a desired network,
  whatever the kernel reports; and it adds routes and rules only for desired networks.
\<close>

theorem ReconcileVethLeakNetworks_owned:
  assumes "\<And>i. visit_order (ords i)"
  shows "emits (leak_write rm desired) (ReconcileVethLeakNetworks ords E rm desired)"
proof -
  have r: "emits (leak_write rm desired) (addLeakRoute E rm p t n)" if "n \<in> set desired" for p t n
    unfolding addLeakRoute_def using that by (intro emits_intros) auto
  have q: "emits (leak_write rm desired) (addLeakRule E rm n)" if "n \<in> set desired" for n
    unfolding addLeakRule_def using that by (intro emits_intros) auto
  show ?thesis
    unfolding ReconcileVethLeakNetworks_def
    by (intro emits_intros emits_removeStale r q assms)
      (simp_all, insert missingNets_mem [OF assms], blast+)
qed


text \<open>
  The plan converges, for routes and for rules independently: what the kernel holds of the
  agent's, with the missing entries added and the stale ones removed, is exactly one entry key for
  every desired network, and no entry of a desired network is ever planned for removal.
\<close>

theorem veth_leak_converges:
  assumes "visit_order ord"
  shows "(set (currentNets rm routes) \<union> netString ` set (missingNets ord desired (currentNets rm routes)))
      - set (staleKeys ord desired (currentNets rm routes)) = netString ` set desired
    \<and> (set (currentRules rm rules) \<union> netString ` set (missingNets ord desired (currentRules rm rules)))
      - ruleNet ` set (staleRules rm desired rules) = netString ` set desired
    \<and> netString ` set desired \<inter> (set (staleKeys ord desired (currentNets rm routes))
      \<union> ruleNet ` set (staleRules rm desired rules)) = {}"
proof (intro conjI)
  have r: "ruleNet ` set (staleRules rm desired rules) = set (currentRules rm rules) - netString ` set desired"
    by (auto simp: staleRules_def currentRules_def desiredNets_None)
  show "(set (currentNets rm routes) \<union> netString ` set (missingNets ord desired (currentNets rm routes)))
      - set (staleKeys ord desired (currentNets rm routes)) = netString ` set desired"
    using leak_plan.converges [OF assms, of "currentNets rm routes" desired]
    by (simp add: missingNets_keys [OF assms] leak_plan.adds_set [OF assms])
  show "(set (currentRules rm rules) \<union> netString ` set (missingNets ord desired (currentRules rm rules)))
      - ruleNet ` set (staleRules rm desired rules) = netString ` set desired"
    unfolding r missingNets_keys [OF assms] by blast
  show "netString ` set desired \<inter> (set (staleKeys ord desired (currentNets rm routes))
      \<union> ruleNet ` set (staleRules rm desired rules)) = {}"
    unfolding r leak_plan.dels_set [OF assms] by blast
qed

text \<open>The second reconciliation of the same networks changes nothing.\<close>

lemma veth_leak_settled:
  "visit_order ord \<Longrightarrow> set present = netString ` set desired \<Longrightarrow>
   missingNets ord desired present = [] \<and> staleNets ord desired present = []"
  using leak_plan.settled [of ord present desired] by (simp add: missingNets_def staleNets_def map_filter_simps)

section \<open>Set-up and tear-down\<close>

lemma emits_ReconcileVethLeakNetworks:
  assumes "\<And>i. visit_order (ords i)" "\<And>e. leak_write rm desired e \<Longrightarrow> P e"
  shows "emits P (ReconcileVethLeakNetworks ords E rm desired)"
  using ReconcileVethLeakNetworks_owned [OF assms(1)] assms(2) by (rule emits_mono)

lemma pure_ReconcileVethLeakNetworks: "pure_log (ReconcileVethLeakNetworks ords E rm desired)"
  unfolding ReconcileVethLeakNetworks_def addLeakRoute_def addLeakRule_def removeStale_def
  by (intro emits_intros) simp_all

lemma pure_veth:
  "pure_log (SetupVethLeak ords E rm)" "pure_log (TeardownVethLeak E rm)"
  unfolding SetupVethLeak_def vethPair_def vethNeighbours_def TeardownVethLeak_def teardownRules_def
    teardownDefault_def teardownNetworks_def
  by (intro emits_intros pure_ReconcileVethLeakNetworks; simp)+

text \<open>Tear-down deletes rules of the leak table and priority only, and never fails before the pair is gone.\<close>

lemma TeardownVethLeak_rules:
  "emits (\<lambda>e. \<forall>r. e = EvNl (RuleDel r) \<longrightarrow>
     ru_table r = rm_vethLeakTableID rm \<and> ru_prio r = rm_vethLeakRulePriority rm) (TeardownVethLeak E rm)"
  unfolding TeardownVethLeak_def teardownRules_def teardownDefault_def teardownNetworks_def
  by (intro emits_intros) auto

lemma veth_dry_run:
  assumes "rm_dryRun rm"
  shows "ReconcileVethLeakNetworks ords E rm desired = ret None" "SetupVethLeak ords E rm = ret None"
    "TeardownVethLeak E rm = ret None"
  using assms by (simp_all add: ReconcileVethLeakNetworks_def SetupVethLeak_def TeardownVethLeak_def)

section \<open>Examples\<close>

theorem ReconcileVethLeakNetworks_owned_witness:
  "emits (leak_write demo_rm []) (ReconcileVethLeakNetworks (\<lambda>i. rev) linkEnv demo_rm [])"
  by (rule ReconcileVethLeakNetworks_owned) simp

theorem veth_leak_converges_witness:
  "set (staleKeys rev [] (currentNets demo_rm [leakRoute demo_rm demo_link 10 (host32 (IPv4 0))]))
     = set (currentNets demo_rm [leakRoute demo_rm demo_link 10 (host32 (IPv4 0))])"
  using veth_leak_converges [of rev demo_rm "[leakRoute demo_rm demo_link 10 (host32 (IPv4 0))]" "[]" "[]"]
    leak_plan.dels_set [of rev "[]"] by simp

end
