(* ===== verification/PortForward.thy ===== *)
theory PortForward
  imports Nft VethLeak
begin

text \<open>
  Port forwarding on the host (\<open>nftables_linux.go\<close>): VIP addresses, the load of the nftables
  ruleset, policy routing of DNAT traffic by firewall mark and the sysctls of the veth pair.
\<close>

section \<open>Policy routing\<close>

definition rtTableMain :: int where
  "rtTableMain = 254"

definition fwdRule :: nlrule where
  "fwdRule = NewRule\<lparr>ru_mark := dnatFwmark, ru_mask := Some dnatFwmark, ru_table := rtTableMain,
     ru_prio := dnatFwmarkPriority\<rparr>"

definition replyRule :: "RouteManager \<Rightarrow> nlrule" where
  "replyRule rm = NewRule\<lparr>ru_mark := dnatReplyFwmark, ru_mask := Some dnatReplyFwmark,
     ru_table := rm_portForwardTableID rm, ru_prio := dnatReplyPriority\<rparr>"

text \<open>\<open>RuleAdd\<close> with "already exists" ignored.\<close>

definition addRule :: "'s sysenv \<Rightarrow> nlrule \<Rightarrow> ('s, goerr option) io" where
  "addRule E rule =
     do { e \<leftarrow> netlink E (RuleAdd rule);
          ret (case e of None \<Rightarrow> None | Some err \<Rightarrow> if isFileExists err then None else Some err) }"

definition replyRoute :: "RouteManager \<Rightarrow> lnk \<Rightarrow> nlroute" where
  "replyRoute rm veth =
     emptyRoute\<lparr>rt_dst := Some \<lparr>net_ip = IPv4 0, net_ones = 0, net_bits = 32\<rparr>, rt_link := l_index veth,
       rt_gw := ParseIP (rm_vethProviderIP rm), rt_table := rm_portForwardTableID rm\<rparr>"

definition ensureDNATRouting :: "'s sysenv \<Rightarrow> RouteManager \<Rightarrow> ('s, goerr option) io" where
  "ensureDNATRouting E rm =
     attempt (''add ip rule fwmark '' @ mark dnatFwmark @ '' lookup main'') (addRule E fwdRule)
     (attempt (''add ip rule fwmark '' @ mark dnatReplyFwmark @ '' lookup '' @ show_int (rm_portForwardTableID rm))
       (addRule E (replyRule rm))
     (fetch (''find '' @ vethDefaultName @ '' for DNAT reply route'') (LinkByName E vethDefaultName) (\<lambda>veth.
        attempt (''add default route via '' @ vethDefaultName @ '' table '' @ show_int (rm_portForwardTableID rm))
          (netlink E (RouteReplace (replyRoute rm veth))) (ret None))))"

definition cleanupDNATRouting :: "'s sysenv \<Rightarrow> RouteManager \<Rightarrow> ('s, unit) io" where
  "cleanupDNATRouting E rm =
     do { _ \<leftarrow> ignoring (netlink E (RuleDel fwdRule));
          _ \<leftarrow> ignoring (netlink E (RuleDel (replyRule rm)));
          r \<leftarrow> RouteListFiltered E \<lparr>fl_link = None, fl_table = Some (rm_portForwardTableID rm), fl_proto = None\<rparr>;
          case r of Inl err \<Rightarrow> ret ()
          | Inr routes \<Rightarrow> for_each (\<lambda>r. ignoring (netlink E (RouteDel r))) routes }"

section \<open>VIP addresses\<close>

definition managedVIPs :: "RouteManager \<Rightarrow> string list" where
  "managedVIPs rm = map v_VIP (filter v_ManageVIP (rm_portForwards rm))"

definition reconcilePortForwardVIPs :: "'s sysenv \<Rightarrow> RouteManager \<Rightarrow> ('s, goerr option) io" where
  "reconcilePortForwardVIPs E rm =
     fetch (''find device '' @ rm_portForwardDev rm) (LinkByName E (rm_portForwardDev rm)) (\<lambda>link.
       for_err (\<lambda>vip. attempt (''add VIP '' @ vip @ ''/32 to '' @ rm_portForwardDev rm)
                         (netlink E (AddrReplace link (ParseIP vip, 32))) (ret None)) (managedVIPs rm))"

section \<open>The ruleset\<close>

text \<open>Deleting the old table and creating the new one is one load.\<close>

definition nftLoad :: "RouteManager \<Rightarrow> bool \<Rightarrow> ipnet list \<Rightarrow> string list \<Rightarrow> string" where
  "nftLoad rm present providerNetworks snatIPs =
     (if present then ''delete table ip '' @ nftTableName @ [newline] else []) @
     buildNftRuleset (rm_portForwards rm) providerNetworks snatIPs (rm_portForwardCTZone rm)"

definition applyNftRuleset ::
  "'s sysenv \<Rightarrow> RouteManager \<Rightarrow> ipnet list \<Rightarrow> string list \<Rightarrow> ('s, goerr option) io" where
  "applyNftRuleset E rm providerNetworks snatIPs =
     do { r \<leftarrow> nft_exec E [''list'', ''table'', ''ip'', nftTableName] [];
          r' \<leftarrow> nft_exec E [''-f'', ''-''] (nftLoad rm (snd r = None) providerNetworks snatIPs);
          ret (map_option (ErrWrap ''nft apply ruleset'') (snd r')) }"

section \<open>Sysctls\<close>

definition one :: string where
  "one = ''1'' @ [newline]"

definition ensureVethForwarding :: "'s sysenv \<Rightarrow> RouteManager \<Rightarrow> ('s, goerr option) io" where
  "ensureVethForwarding E rm =
     do { e \<leftarrow> for_err (\<lambda>dev. attempt (''enable forwarding on '' @ dev)
                          (WriteFile E (confPath dev ''forwarding'') one) (ret None))
                [vethDefaultName, vethProviderName];
          case e of Some err \<Rightarrow> ret (Some err) | None \<Rightarrow>
          if \<not> rm_portForwardEnabled rm then ret None
          else attempt (''enable accept_local on '' @ vethProviderName)
                 (WriteFile E (confPath vethProviderName ''accept_local'') one)
            (if \<not> rm_portForwardL3mdevAccept rm then ret None
             else for_err (\<lambda>f. attempt (''enable '' @ f) (WriteFile E (''/proc/sys/net/ipv4/'' @ f) one) (ret None))
                    [''udp_l3mdev_accept'', ''tcp_l3mdev_accept'']) }"

section \<open>Operations\<close>

definition SetupPortForward :: "'s sysenv \<Rightarrow> RouteManager \<Rightarrow> ('s, goerr option) io" where
  "SetupPortForward E rm =
     (if \<not> rm_portForwardEnabled rm then ret None
      else if rm_dryRun rm then ret None
      else attempt ''nft binary not found in PATH (required for port forwarding)'' (LookPath E ''nft'')
        (attempt ''manage VIP addresses'' (reconcilePortForwardVIPs E rm)
        (attempt ''apply nftables ruleset'' (applyNftRuleset E rm [] [])
        (attempt ''enable forwarding on veth'' (ensureVethForwarding E rm)
        (attempt ''DNAT policy routing'' (ensureDNATRouting E rm) (ret None))))))"

definition ReconcilePortForward ::
  "'s sysenv \<Rightarrow> RouteManager \<Rightarrow> ipnet list \<Rightarrow> string list \<Rightarrow> ('s, goerr option) io" where
  "ReconcilePortForward E rm providerNetworks snatIPs =
     (if \<not> rm_portForwardEnabled rm then ret None
      else if rm_dryRun rm then ret None
      else attempt ''reconcile VIP addresses'' (reconcilePortForwardVIPs E rm)
        (attempt ''reconcile nftables ruleset'' (applyNftRuleset E rm providerNetworks snatIPs)
        (attempt ''reconcile DNAT routing'' (ensureDNATRouting E rm) (ret None))))"

text \<open>Tear-down attempts every step and returns the first error.\<close>

definition firstError :: "goerr option \<Rightarrow> goerr option \<Rightarrow> goerr option" where
  "firstError old new = (case old of None \<Rightarrow> new | Some e \<Rightarrow> Some e)"

definition deleteTable :: "'s sysenv \<Rightarrow> ('s, goerr option) io" where
  "deleteTable E =
     do { (out, e) \<leftarrow> nft_exec E [''delete'', ''table'', ''ip'', nftTableName] [];
          ret (case e of None \<Rightarrow> None | Some err \<Rightarrow>
            if Contains out ''No such file'' \<or> Contains out ''does not exist'' then None
            else Some (ErrWrap ''delete nftables table'' err)) }"

fun removeVIPs :: "'s sysenv \<Rightarrow> lnk \<Rightarrow> string list \<Rightarrow> goerr option \<Rightarrow> ('s, goerr option) io" where
  "removeVIPs E link [] first = ret first"
| "removeVIPs E link (vip # vips) first =
     do { e \<leftarrow> netlink E (AddrDel link (ParseIP vip, 32));
          removeVIPs E link vips (firstError first (map_option (ErrWrap (''remove VIP '' @ vip)) e)) }"

definition TeardownPortForward :: "'s sysenv \<Rightarrow> RouteManager \<Rightarrow> ('s, goerr option) io" where
  "TeardownPortForward E rm =
     (if \<not> rm_portForwardEnabled rm then ret None
      else if rm_dryRun rm then ret None
      else do { first \<leftarrow> deleteTable E;
                _ \<leftarrow> cleanupDNATRouting E rm;
                r \<leftarrow> LinkByName E (rm_portForwardDev rm);
                case r of Inl err \<Rightarrow> ret first
                | Inr link \<Rightarrow> removeVIPs E link (managedVIPs rm) first })"

section \<open>What the operations do\<close>

lemma emits_addRule: "P (EvNl (RuleAdd q)) \<Longrightarrow> emits P (addRule E q)"
  unfolding addRule_def by (intro emits_intros)

lemma emits_ensureDNATRouting:
  assumes "\<And>q. P (EvQuery q)" "P (EvNl (RuleAdd fwdRule))" "P (EvNl (RuleAdd (replyRule rm)))"
    and "\<And>veth. P (EvNl (RouteReplace (replyRoute rm veth)))"
  shows "emits P (ensureDNATRouting E rm)"
  unfolding ensureDNATRouting_def by (intro emits_intros emits_addRule assms)

lemma emits_reconcilePortForwardVIPs:
  assumes "\<And>q. P (EvQuery q)"
    and "\<And>link vip. vip \<in> set (managedVIPs rm) \<Longrightarrow> P (EvNl (AddrReplace link (ParseIP vip, 32)))"
  shows "emits P (reconcilePortForwardVIPs E rm)"
  unfolding reconcilePortForwardVIPs_def by (intro emits_intros assms)

lemma emits_applyNftRuleset:
  assumes "P (EvNft [''list'', ''table'', ''ip'', nftTableName] [])"
    and "\<And>b. P (EvNft [''-f'', ''-''] (nftLoad rm b nets snat))"
  shows "emits P (applyNftRuleset E rm nets snat)"
  unfolding applyNftRuleset_def by (intro emits_intros assms)

lemma portforward_dry_run:
  assumes "rm_dryRun rm"
  shows "SetupPortForward E rm = ret None" "ReconcilePortForward E rm nets snat = ret None"
    "TeardownPortForward E rm = ret None"
  using assms by (simp_all add: SetupPortForward_def ReconcilePortForward_def TeardownPortForward_def)

text \<open>What reconciling port forwarding may write.\<close>

definition pf_write :: "RouteManager \<Rightarrow> ipnet list \<Rightarrow> string list \<Rightarrow> ev \<Rightarrow> bool" where
  "pf_write rm nets snat e \<longleftrightarrow> (\<exists>q. e = EvQuery q)
     \<or> e = EvNft [''list'', ''table'', ''ip'', nftTableName] []
     \<or> (\<exists>b. e = EvNft [''-f'', ''-''] (nftLoad rm b nets snat))
     \<or> (\<exists>link. \<exists>vip\<in>set (managedVIPs rm). e = EvNl (AddrReplace link (ParseIP vip, 32)))
     \<or> e = EvNl (RuleAdd fwdRule) \<or> e = EvNl (RuleAdd (replyRule rm))
     \<or> (\<exists>veth. e = EvNl (RouteReplace (replyRoute rm veth)))"

lemma emits_ReconcilePortForward: "emits (pf_write rm nets snat) (ReconcilePortForward E rm nets snat)"
  unfolding ReconcilePortForward_def
  by (intro emits_intros emits_reconcilePortForwardVIPs emits_applyNftRuleset emits_ensureDNATRouting)
    (auto simp: pf_write_def)


lemma for_each_trace:
  assumes "\<And>x. pure_log (f x)" "\<And>x s. trace (f x) s = [ev x]"
  shows "trace (for_each f xs) s = map ev xs"
proof (induction xs arbitrary: s)
  case (Cons x xs)
  have "pure_log (for_each f xs)" by (intro emits_intros assms(1))
  then show ?case by (simp add: run_bind assms Cons)
qed simp

lemma ignoring_run:
  "trace (ignoring (netlink E r)) s = [EvNl r]" "pure_log (ignoring (netlink E r))"
  by (simp_all add: ignoring_def run_prims)

lemma emits_removeVIPs: "(\<And>vip. P (EvNl (AddrDel link (ParseIP vip, 32)))) \<Longrightarrow> emits P (removeVIPs E link vips first)"
  by (induction vips arbitrary: first) (auto intro!: emits_intros)

lemma removeVIPs_trace:
  "trace (removeVIPs E link vips first) s = map (\<lambda>vip. EvNl (AddrDel link (ParseIP vip, 32))) vips"
proof (induction vips arbitrary: first s)
  case (Cons v vips)
  have p: "pure_log (removeVIPs E link vips g)" for g
    by (rule emits_removeVIPs) simp
  show ?case by (simp add: netlink_def run_bind emits_intros p Cons)
qed simp

lemma removeVIPs_first: "outcome (removeVIPs E link vips (Some e)) s = Some e"
proof (induction vips arbitrary: s)
  case (Cons v vips)
  have p: "pure_log (removeVIPs E link vips g)" for g
    by (rule emits_removeVIPs) simp
  show ?case by (simp add: netlink_def run_bind emits_intros p firstError_def Cons)
qed simp

lemma cleanupDNATRouting_run:
  "\<exists>routes. trace (cleanupDNATRouting E rm) s =
     [EvNl (RuleDel fwdRule), EvNl (RuleDel (replyRule rm)), EvQuery [''route'']] @ map (EvNl \<circ> RouteDel) routes"
proof -
  have p: "pure_log (for_each (\<lambda>r. ignoring (netlink E (RouteDel r))) routes)" for routes
    by (intro emits_intros ignoring_run)
  have f: "trace (for_each (\<lambda>r. ignoring (netlink E (RouteDel r))) routes) s = map (EvNl \<circ> RouteDel) routes" for routes s
    using for_each_trace [of "\<lambda>r. ignoring (netlink E (RouteDel r))" "EvNl \<circ> RouteDel" routes s]
    by (simp add: ignoring_run comp_def)
  have e: "map (EvNl \<circ> RouteDel) [] = []" by simp
  show ?thesis
    unfolding cleanupDNATRouting_def
    by (simp add: run_bind ignoring_run RouteListFiltered_def emits_intros p f split: sum.split)
      (metis e)
qed

lemma pure_cleanupDNATRouting: "pure_log (cleanupDNATRouting E rm)"
  unfolding cleanupDNATRouting_def by (intro emits_intros ignoring_run) simp_all

lemma deleteTable_run:
  "trace (deleteTable E) s = [EvNft [''delete'', ''table'', ''ip'', nftTableName] []]" "pure_log (deleteTable E)"
  by (simp_all add: deleteTable_def nft_exec_def run_bind emits_intros case_prod_unfold)

text \<open>
  Tear-down of port forwarding is best effort: whatever fails on the way, the table, both
  policy rules, the listed routes of the reply table and every managed VIP address are attempted,
  in this order, and an error of deleting the table is the one that is returned.
\<close>

theorem TeardownPortForward_best_effort:
  assumes "rm_portForwardEnabled rm" "\<not> rm_dryRun rm"
    and "\<And>s. fst (e_link E (rm_portForwardDev rm) s) = Inr link"
  shows "(\<exists>routes. filter writes (trace (TeardownPortForward E rm) s) =
      [EvNft [''delete'', ''table'', ''ip'', nftTableName] [], EvNl (RuleDel fwdRule), EvNl (RuleDel (replyRule rm))]
      @ map (EvNl \<circ> RouteDel) routes @ map (\<lambda>vip. EvNl (AddrDel link (ParseIP vip, 32))) (managedVIPs rm))
    \<and> (\<forall>e. outcome (deleteTable E) s = Some e \<longrightarrow> outcome (TeardownPortForward E rm) s = Some e)"
proof -
  let ?s1 = "final (deleteTable E) s"
  obtain routes where r: "trace (cleanupDNATRouting E rm) ?s1 =
     [EvNl (RuleDel fwdRule), EvNl (RuleDel (replyRule rm)), EvQuery [''route'']] @ map (EvNl \<circ> RouteDel) routes"
    using cleanupDNATRouting_run [of E rm ?s1] by blast
  have p: "pure_log (removeVIPs E l vips g)" for l vips g
    by (rule emits_removeVIPs) simp
  have f: "filter writes (map (EvNl \<circ> RouteDel) rs) = map (EvNl \<circ> RouteDel) rs"
    "filter writes (map (\<lambda>vip. EvNl (AddrDel link (ParseIP vip, 32))) vs) = map (\<lambda>vip. EvNl (AddrDel link (ParseIP vip, 32))) vs"
    for rs vs by (simp_all add: filter_id_conv)
  show ?thesis
    using assms(1,2)
    by (auto simp: TeardownPortForward_def run_bind deleteTable_run pure_cleanupDNATRouting LinkByName_def
        emits_intros p assms(3) r removeVIPs_trace removeVIPs_first f writes.simps(5) intro!: exI [of _ routes])
qed

section \<open>Examples\<close>

definition pf_rm :: RouteManager where
  "pf_rm = demo_rm\<lparr>rm_portForwardEnabled := True, rm_portForwards := [demo_vip]\<rparr>"

theorem TeardownPortForward_best_effort_witness:
  "\<exists>routes. filter writes (trace (TeardownPortForward linkEnv pf_rm) ()) =
      [EvNft [''delete'', ''table'', ''ip'', nftTableName] [], EvNl (RuleDel fwdRule), EvNl (RuleDel (replyRule pf_rm))]
      @ map (EvNl \<circ> RouteDel) routes @ [EvNl (AddrDel demo_link (ParseIP ''192.0.2.1'', 32))]"
  using TeardownPortForward_best_effort [of pf_rm linkEnv demo_link "()"]
  by (simp add: pf_rm_def linkEnv_def managedVIPs_def demo_vip_def)

end
