(* ===== verification/Gateway.thy ===== *)
theory Gateway
  imports OvnState
begin

text \<open>
  The northbound writes of \<open>ovn_gateway.go\<close>: the default route and the static MAC binding of
  each local router, the removal of managed entries on shutdown, and the removal of entries whose
  chassis is gone. Loops over listed rows are folded into plans where the source returns from
  inside the loop; what is sent is left to the transaction primitives.
\<close>

section \<open>Transactions and the virtual gateway address\<close>

definition transactOps :: "'s ovnenv \<Rightarrow> ovsop list \<Rightarrow> ('s, goerr option) io" where
  "transactOps E ops =
     do { r \<leftarrow> nbTransact E ops;
          ret (case r of Inl e \<Rightarrow> Some e | Inr results \<Rightarrow> e_check_results E results ops) }"

definition lastUsable :: "ip4 \<Rightarrow> nat \<Rightarrow> ip4" where
  "lastUsable netInt ones =
     (let hostBits = push_bit (32 - ones) 1 - 1 :: ip4 in or netInt hostBits - 1)"

fun virtualGatewayIP :: "string list \<Rightarrow> ip4 result" where
  "virtualGatewayIP [] = Inl (ErrMsg ''no valid IPv4 CIDR in LRP networks'')"
| "virtualGatewayIP (cidr # cidrs) =
     (case ParseCIDR cidr of
        None \<Rightarrow> virtualGatewayIP cidrs
      | Some (a, n) \<Rightarrow>
          if To4 a = None then virtualGatewayIP cidrs
          else if net_ones n = 32 \<or> net_bits n \<noteq> 32 then virtualGatewayIP cidrs
          else case To4 (net_ip n) of
                 None \<Rightarrow> virtualGatewayIP cidrs
               | Some netInt \<Rightarrow> Inr (lastUsable netInt (net_ones n)))"

section \<open>The default route\<close>

definition managed :: "NBLogicalRouterStaticRoute \<Rightarrow> bool" where
  "managed r \<longleftrightarrow> mget (sr_ExternalIDs r) ''ovn-network-agent'' = ''managed''"

definition chassisTag :: "NBLogicalRouterStaticRoute \<Rightarrow> string" where
  "chassisTag r = mget (sr_ExternalIDs r) ''ovn-network-agent-chassis''"

definition setTag :: "string \<Rightarrow> NBLogicalRouterStaticRoute \<Rightarrow> NBLogicalRouterStaticRoute" where
  "setTag c r = r\<lparr>sr_ExternalIDs :=
     map_option (AList.update ''ovn-network-agent-chassis'' c) (sr_ExternalIDs r)\<rparr>"

datatype routeplan = KeepRoute | UpdateRoute NBLogicalRouterStaticRoute "string list" | CreateRoute

text \<open>The loop over the static routes; \<open>uuids\<close> are the routes of the router.\<close>

fun planDefaultRoute ::
  "string list \<Rightarrow> string \<Rightarrow> string \<Rightarrow> string \<Rightarrow> NBLogicalRouterStaticRoute list \<Rightarrow> routeplan" where
  "planDefaultRoute uuids lrpName vgwIP local [] = CreateRoute"
| "planDefaultRoute uuids lrpName vgwIP local (route # routes) =
     (if \<not> has uuids (sr_UUID route) then planDefaultRoute uuids lrpName vgwIP local routes
      else if sr_IPPrefix route \<noteq> ''0.0.0.0/0''
        then planDefaultRoute uuids lrpName vgwIP local routes
      else if \<not> managed route then KeepRoute
      else if sr_Nexthop route = vgwIP then
        (if chassisTag route \<noteq> local
         then UpdateRoute (setTag local route) [''external_ids''] else KeepRoute)
      else UpdateRoute (setTag local (route\<lparr>sr_Nexthop := vgwIP, sr_OutputPort := Some lrpName\<rparr>))
             [''nexthop'', ''output_port'', ''external_ids''])"

definition newRoute :: "string \<Rightarrow> string \<Rightarrow> string \<Rightarrow> NBLogicalRouterStaticRoute" where
  "newRoute lrpName vgwIP local = \<lparr>sr_UUID = ''new_route'', sr_IPPrefix = ''0.0.0.0/0'',
     sr_Nexthop = vgwIP, sr_OutputPort = Some lrpName, sr_Policy = None, sr_Options = Some [],
     sr_ExternalIDs = Some [(''ovn-network-agent'', ''managed''), (''ovn-network-agent-chassis'', local)]\<rparr>"

definition ensureDefaultRoute ::
  "'s ovnenv \<Rightarrow> string \<Rightarrow> LocalRouterInfo \<Rightarrow> string \<Rightarrow> ('s, goerr option) io" where
  "ensureDefaultRoute E local lr vgwIP =
     do { r1 \<leftarrow> listTable ''Logical_Router_Static_Route'' (e_list_sr E);
          case r1 of Inl e \<Rightarrow> ret (Some (ErrWrap ''list static routes'' e)) | Inr routes \<Rightarrow>
     do { r2 \<leftarrow> listTable ''Logical_Router'' (e_list_lr E);
          case r2 of Inl e \<Rightarrow> ret (Some (ErrWrap ''list routers'' e)) | Inr routers \<Rightarrow>
          (case find (\<lambda>r. lr_UUID r = ri_RouterUUID lr) routers of
             None \<Rightarrow> ret (Some (ErrMsg (''router '' @ ri_RouterUUID lr @ '' not found'')))
           | Some router \<Rightarrow>
               (case planDefaultRoute (lr_StaticRoutes router) (ri_LRPName lr) vgwIP local routes of
                  KeepRoute \<Rightarrow> ret None
                | UpdateRoute route cols \<Rightarrow>
                    (let op = OpUpdate (RowRoute route) cols in
                     case e_build_err E op of
                       Some e \<Rightarrow> ret (Some (ErrWrap ''build update op'' e))
                     | None \<Rightarrow> transactOps E [op])
                | CreateRoute \<Rightarrow>
                    (let op = OpCreate (RowRoute (newRoute (ri_LRPName lr) vgwIP local)) in
                     case e_build_err E op of
                       Some e \<Rightarrow> ret (Some (ErrWrap ''build create op'' e))
                     | None \<Rightarrow>
                         do { e \<leftarrow> transactOps E [op, OpMutateInsert ''Logical_Router''
                                (ri_RouterUUID lr) ''static_routes'' ''new_route''];
                              ret (map_option (ErrWrap ''transact create route'') e) }))) } }"

section \<open>The static MAC binding\<close>

definition newBinding :: "string \<Rightarrow> string \<Rightarrow> string \<Rightarrow> NBStaticMACBinding" where
  "newBinding lrpName ip mac =
     \<lparr>mb_UUID = ''new_mac_binding'', mb_LogicalPort = lrpName, mb_IP = ip, mb_MAC = mac\<rparr>"

definition ensureStaticMACBinding ::
  "'s ovnenv \<Rightarrow> string \<Rightarrow> string \<Rightarrow> string \<Rightarrow> ('s, goerr option) io" where
  "ensureStaticMACBinding E lrpName ip mac =
     do { r \<leftarrow> listTable ''Static_MAC_Binding'' (e_list_mb E);
          case r of Inl e \<Rightarrow> ret (Some (ErrWrap ''list static MAC bindings'' e)) | Inr bindings \<Rightarrow>
          (case find (\<lambda>b. mb_LogicalPort b = lrpName \<and> mb_IP b = ip) bindings of
             Some b \<Rightarrow>
               if mb_MAC b = mac then ret None
               else (let op = OpUpdate (RowMAC (b\<lparr>mb_MAC := mac\<rparr>)) [''mac''] in
                     case e_build_err E op of
                       Some e \<Rightarrow> ret (Some (ErrWrap ''build update op'' e))
                     | None \<Rightarrow> transactOps E [op])
           | None \<Rightarrow>
               (let op = OpCreate (RowMAC (newBinding lrpName ip mac)) in
                case e_build_err E op of
                  Some e \<Rightarrow> ret (Some (ErrWrap ''build create op'' e))
                | None \<Rightarrow>
                    do { e \<leftarrow> transactOps E [op];
                         ret (map_option (ErrWrap ''transact create MAC binding'') e) })) }"

definition ensureRouter :: "'s ovnenv \<Rightarrow> string \<Rightarrow> string \<Rightarrow> LocalRouterInfo \<Rightarrow> ('s, unit) io" where
  "ensureRouter E local bridgeMAC lr =
     (case virtualGatewayIP (ri_LRPNetworks lr) of
        Inl e \<Rightarrow> ret ()
      | Inr vgw \<Rightarrow>
          do { e \<leftarrow> ensureDefaultRoute E local lr (dotted vgw);
               case e of
                 Some err \<Rightarrow> ret ()
               | None \<Rightarrow>
                   do { _ \<leftarrow> ensureStaticMACBinding E (ri_LRPName lr) (dotted vgw) bridgeMAC;
                        ret () } })"

definition EnsureGatewayRouting ::
  "'s ovnenv \<Rightarrow> string \<Rightarrow> LocalRouterInfo list \<Rightarrow> string \<Rightarrow> ('s, goerr option) io" where
  "EnsureGatewayRouting E local routers bridgeMAC =
     do { _ \<leftarrow> for_each (ensureRouter E local bridgeMAC) routers; ret None }"

section \<open>Removing managed entries\<close>

text \<open>Deleting one route: out of its router's set first, then the row.\<close>

definition deleteRoute ::
  "'s ovnenv \<Rightarrow> string \<Rightarrow> NBLogicalRouterStaticRoute \<Rightarrow> ('s, unit) io" where
  "deleteRoute E routerUUID route =
     (case e_build_err E (OpDelete (RowRoute route)) of
        Some e \<Rightarrow> ret ()
      | None \<Rightarrow>
          do { _ \<leftarrow> transactOps E [OpMutateDelete ''Logical_Router'' routerUUID ''static_routes''
                 (sr_UUID route), OpDelete (RowRoute route)];
               ret () })"

definition deleteBinding :: "'s ovnenv \<Rightarrow> NBStaticMACBinding \<Rightarrow> ('s, unit) io" where
  "deleteBinding E b =
     (case e_build_err E (OpDelete (RowMAC b)) of
        Some e \<Rightarrow> ret ()
      | None \<Rightarrow> do { _ \<leftarrow> transactOps E [OpDelete (RowMAC b)]; ret () })"

definition removeRouteIfLocal ::
  "'s ovnenv \<Rightarrow> string list \<Rightarrow> NBLogicalRouter list \<Rightarrow> NBLogicalRouterStaticRoute \<Rightarrow> ('s, unit) io" where
  "removeRouteIfLocal E localRouterUUIDs routers route =
     (if sr_ExternalIDs route = None \<or> \<not> managed route then ret ()
      else case find (\<lambda>r. has localRouterUUIDs (lr_UUID r) \<and> has (lr_StaticRoutes r) (sr_UUID route))
                  routers of
             None \<Rightarrow> ret ()
           | Some router \<Rightarrow> deleteRoute E (lr_UUID router) route)"

definition RemoveManagedNBEntries :: "'s ovnenv \<Rightarrow> OVNState \<Rightarrow> ('s, goerr option) io" where
  "RemoveManagedNBEntries E st0 =
     (let st = GetState st0;
          localRouterUUIDs = map ri_RouterUUID (s_LocalRouters st);
          localPorts = map ri_LRPName (s_LocalRouters st) in
      if localRouterUUIDs = [] then ret None else
      do { r1 \<leftarrow> listStaticRoutes E;
           case r1 of Inl e \<Rightarrow> ret (Some (ErrWrap ''list static routes'' e)) | Inr routes \<Rightarrow>
      do { r2 \<leftarrow> listRouters E;
           case r2 of Inl e \<Rightarrow> ret (Some (ErrWrap ''list routers'' e)) | Inr routers \<Rightarrow>
      do { _ \<leftarrow> for_each (removeRouteIfLocal E localRouterUUIDs routers) routes;
           r3 \<leftarrow> listMACBindings E;
           case r3 of Inl e \<Rightarrow> ret (Some (ErrWrap ''list static MAC bindings'' e)) | Inr bindings \<Rightarrow>
      do { _ \<leftarrow> for_each (deleteBinding E) (filter (\<lambda>b. has localPorts (mb_LogicalPort b)) bindings);
           ret None } } } })"

section \<open>Entries of chassis that are gone\<close>

text \<open>A failed listing gives the nil map, which callers tell apart from the empty one.\<close>

definition ListManagedRouteChassis :: "'s ovnenv \<Rightarrow> ('s, string list option) io" where
  "ListManagedRouteChassis E =
     do { r \<leftarrow> listStaticRoutes E;
          ret (case r of Inl e \<Rightarrow> None
               | Inr routes \<Rightarrow> Some (dedup_by (\<lambda>c. c) []
                   (filter (\<lambda>c. c \<noteq> []) (map chassisTag
                     (filter (\<lambda>r. sr_ExternalIDs r \<noteq> None \<and> managed r) routes))))) }"

type_synonym staleMACBindingKey = "string \<times> string"

definition routeToRouter :: "NBLogicalRouter list \<Rightarrow> (string, NBLogicalRouter) gomap" where
  "routeToRouter routers = upd_all (concat (map (\<lambda>r. map (\<lambda>u. (u, r)) (lr_StaticRoutes r)) routers)) []"

definition liveOutputPorts :: "string list \<Rightarrow> NBLogicalRouterStaticRoute list \<Rightarrow> string list" where
  "liveOutputPorts stale routes =
     List.map_filter sr_OutputPort (filter (\<lambda>r. sr_ExternalIDs r \<noteq> None \<and> managed r
       \<and> chassisTag r \<noteq> [] \<and> \<not> has stale (chassisTag r)) routes)"

text \<open>The stale routes, with the router that holds each.\<close>

definition isStale :: "string list \<Rightarrow> NBLogicalRouterStaticRoute \<Rightarrow> bool" where
  "isStale stale r \<longleftrightarrow> sr_ExternalIDs r \<noteq> None \<and> managed r \<and> chassisTag r \<noteq> [] \<and> has stale (chassisTag r)"

definition staleRoutes ::
  "string list \<Rightarrow> NBLogicalRouter list \<Rightarrow> NBLogicalRouterStaticRoute list \<Rightarrow>
   (NBLogicalRouterStaticRoute \<times> NBLogicalRouter) list" where
  "staleRoutes stale routers routes =
     List.map_filter (\<lambda>r. map_option (Pair r) (map_of (routeToRouter routers) (sr_UUID r)))
       (filter (isStale stale) routes)"

definition staleBindingKeys ::
  "string list \<Rightarrow> NBLogicalRouter list \<Rightarrow> NBLogicalRouterStaticRoute list \<Rightarrow> staleMACBindingKey list" where
  "staleBindingKeys stale routers routes =
     List.map_filter (\<lambda>(r, router). case sr_OutputPort r of
         None \<Rightarrow> None
       | Some p \<Rightarrow> if has (liveOutputPorts stale routes) p then None else Some (p, sr_Nexthop r))
       (staleRoutes stale routers routes)"

definition CleanupStaleChassisManagedEntries ::
  "'s ovnenv \<Rightarrow> string list \<Rightarrow> ('s, goerr option) io" where
  "CleanupStaleChassisManagedEntries E stale =
     do { r1 \<leftarrow> listStaticRoutes E;
          case r1 of Inl e \<Rightarrow> ret (Some (ErrWrap ''list static routes'' e)) | Inr routes \<Rightarrow>
     do { r2 \<leftarrow> listRouters E;
          case r2 of Inl e \<Rightarrow> ret (Some (ErrWrap ''list routers'' e)) | Inr routers \<Rightarrow>
     do { _ \<leftarrow> for_each (\<lambda>(route, router). deleteRoute E (lr_UUID router) route)
                (staleRoutes stale routers routes);
          let keys = staleBindingKeys stale routers routes in
          if keys = [] then ret None else
     do { r3 \<leftarrow> listMACBindings E;
          case r3 of Inl e \<Rightarrow> ret (Some (ErrWrap ''list static MAC bindings'' e)) | Inr bindings \<Rightarrow>
     do { _ \<leftarrow> for_each (deleteBinding E)
                (filter (\<lambda>b. has keys (mb_LogicalPort b, mb_IP b)) bindings);
          ret None } } } } }"

section \<open>The virtual gateway is the last usable address\<close>

lemma aligned_room:
  assumes "(2::nat) ^ k dvd x" "x < 2 ^ 32" "k \<le> 32"
  shows "x + 2 ^ k \<le> 2 ^ 32"
proof -
  obtain q where q: "x = 2 ^ k * q" using assms(1) by (elim dvdE)
  have "(2::nat) ^ 32 = 2 ^ k * 2 ^ (32 - k)" using assms(3) by (simp flip: power_add)
  with assms(2) q have "2 ^ k * q < (2::nat) ^ k * 2 ^ (32 - k)" by metis
  then have "q < 2 ^ (32 - k)" by (simp only: mult_less_cancel1)
  then have "2 ^ k * (q + 1) \<le> (2::nat) ^ k * 2 ^ (32 - k)" by (intro mult_le_mono2) simp
  with q \<open>2 ^ 32 = 2 ^ k * 2 ^ (32 - k)\<close> show ?thesis by simp
qed

lemma unat_bound: "unat (a :: ip4) < 2 ^ 32"
  using unsigned_less [of a] by simp

lemma lastUsable_val:
  assumes low: "2 ^ (32 - ones) dvd unat a" and ones: "ones < 32"
  shows "unat (lastUsable a ones) + 2 = unat a + 2 ^ (32 - ones)"
proof -
  define k where "k = 32 - ones"
  have k: "0 < k" "k \<le> 32" using ones by (simp_all add: k_def)
  have h: "push_bit k 1 - 1 = (mask k :: ip4)" by (simp add: mask_eq_decr_exp push_bit_of_1)
  have "unat (take_bit k a) = 0"
    using low by (simp only: unsigned_take_bit_eq k_def) (simp add: take_bit_eq_0_iff)
  then have "and a (mask k) = 0" by (simp add: take_bit_eq_mask [symmetric] unat_eq_zero)
  then have l: "lastUsable a ones = a + mask k - 1"
    unfolding lastUsable_def Let_def h [unfolded k_def] k_def by (simp only: disjunctive_add_eq_or)
  have m: "unat (mask k :: ip4) = 2 ^ k - 1"
  proof -
    have "unat (of_nat (mask k) :: ip4) = take_bit 32 (mask k)" by (simp only: unsigned_of_nat) simp
    also have "\<dots> = mask k" using k by (simp add: min_def)
    finally show ?thesis by (simp only: of_nat_mask_eq) (simp add: mask_eq_exp_minus_1)
  qed
  have room: "unat a + 2 ^ k \<le> 2 ^ 32"
    using aligned_room [of k "unat a"] low k unat_bound [of a] by (simp add: k_def)
  have two: "(2::nat) \<le> 2 ^ k" using k power_increasing [of 1 k "2::nat"] by simp
  then have s: "unat (a + mask k) = unat a + (2 ^ k - 1)"
    using room by (simp add: unat_word_ariths m)
  then have "unat (a + mask k - 1) = unat a + (2 ^ k - 1) - 1"
    using two by (subst unat_minus_one) auto
  then show ?thesis using two by (simp add: l k_def)
qed

lemma mask_word_props:
  "mask_word 32 n x div 2 ^ (32 - n) = x div 2 ^ (32 - n)" "2 ^ (32 - n) dvd mask_word 32 n x"
  "mask_word 32 n x \<le> x"
  by (simp_all add: mask_word_def)

lemma mask_ip_IPv4:
  "\<exists>m. mask_ip 32 n (IPv4 a) = IPv4 m \<and> unat m = mask_word 32 n (unat a)"
proof -
  have "mask_word 32 n (unat a) < 2 ^ 32"
    using mask_word_props(3) [of n "unat a"] unat_bound [of a] by simp
  then have "unat (word_of_nat (mask_word 32 n (unat a)) :: ip4) = mask_word 32 n (unat a)"
    by (simp add: unsigned_of_nat take_bit_eq_mod)
  then show ?thesis by (simp add: mask_ip_def)
qed

lemma virtualGatewayIP_from:
  "virtualGatewayIP nets = Inr v \<Longrightarrow>
   \<exists>cidr\<in>set nets. \<exists>a n m. ParseCIDR cidr = Some (a, n) \<and> net_ones n \<noteq> 32 \<and> net_bits n = 32
     \<and> net_ip n = IPv4 m \<and> v = lastUsable m (net_ones n)"
  by (induction nets) (auto simp: To4_def split: option.splits if_splits ip.splits)

lemma ParseCIDR_aligned:
  assumes "ParseCIDR cidr = Some (a, n)" "net_bits n = 32" "net_ip n = IPv4 m"
  shows "net_ones n \<le> 32 \<and> 2 ^ (32 - net_ones n) dvd unat m"
proof -
  obtain k s where k: "net_ones n = k" "k \<le> 32" "mask_ip 32 k a = IPv4 m" "parseAddr s = Some (32, a)"
    using assms by (auto simp: ParseCIDR_def split: option.splits prod.splits if_splits)
  then obtain w where "a = IPv4 w" by (auto simp: parseAddr_def split: option.splits if_splits)
  then show ?thesis using mask_ip_IPv4 [of k w] k mask_word_props(2) by auto
qed

lemma block_contains:
  fixes n :: ipnet
  assumes "net_ip n = IPv4 m" "net_bits n = 32"
  shows "netContains n (IPv4 x) \<longleftrightarrow> unat x div 2 ^ (32 - net_ones n) = unat m div 2 ^ (32 - net_ones n)"
  using assms by (auto simp: netContains_def netNumberMask_def)

lemma div_block:
  assumes "0 < (B :: nat)"
  shows "x div B = q \<longleftrightarrow> B * q \<le> x \<and> x < B * q + B"
proof
  assume "x div B = q"
  then have "B * q + x mod B = x" using mult_div_mod_eq [of B x] by simp
  moreover have "x mod B < B" using assms by simp
  ultimately show "B * q \<le> x \<and> x < B * q + B" by linarith
next
  assume "B * q \<le> x \<and> x < B * q + B"
  then show "x div B = q" by (intro div_nat_eqI) (simp_all add: mult.commute)
qed

text \<open>
  The virtual gateway address is the last usable host address of the network: it comes from
  one of the router port's IPv4 networks shorter than /32, lies inside that network, and only the
  broadcast address of the network is greater.
\<close>

theorem virtualGatewayIP_last:
  assumes "virtualGatewayIP nets = Inr v"
  shows "\<exists>cidr\<in>set nets. \<exists>a n. ParseCIDR cidr = Some (a, n) \<and> net_ones n < 32
     \<and> netContains n (IPv4 v) \<and> netContains n (IPv4 (v + 1))
     \<and> (\<forall>x. netContains n (IPv4 x) \<longrightarrow> x \<le> v + 1)"
proof -
  obtain cidr a n m where c: "cidr \<in> set nets" "ParseCIDR cidr = Some (a, n)" "net_ones n \<noteq> 32"
    "net_bits n = 32" "net_ip n = IPv4 m" "v = lastUsable m (net_ones n)"
    using virtualGatewayIP_from [OF assms] by blast
  define B where "B = (2::nat) ^ (32 - net_ones n)"
  have al: "net_ones n < 32" "B dvd unat m"
    using ParseCIDR_aligned [OF c(2,4,5)] c(3) by (simp_all add: B_def)
  have v: "unat v + 2 = unat m + B" unfolding c(6) B_def using al by (intro lastUsable_val) (simp_all add: B_def)
  have "2 \<le> B" unfolding B_def using power_increasing [of 1 "32 - net_ones n" "2::nat"] al(1) by simp
  have room: "unat m + B \<le> 2 ^ 32"
    unfolding B_def using al unat_bound [of m] by (intro aligned_room) (simp_all add: B_def)
  have v1: "unat (v + 1) = unat v + 1" using v room \<open>2 \<le> B\<close> by (simp add: unat_word_ariths)
  obtain q where q: "unat m = B * q" using al(2) by (elim dvdE)
  have inb: "netContains n (IPv4 x) \<longleftrightarrow> unat m \<le> unat x \<and> unat x < unat m + B" for x
  proof -
    have "unat x div B = q \<longleftrightarrow> B * q \<le> unat x \<and> unat x < B * q + B"
      using \<open>2 \<le> B\<close> by (intro div_block) simp
    then show ?thesis using block_contains [OF c(5,4)] q \<open>2 \<le> B\<close> by (simp add: B_def)
  qed
  have "netContains n (IPv4 v)" "netContains n (IPv4 (v + 1))"
    unfolding inb v1 using v \<open>2 \<le> B\<close> by simp_all
  moreover have "x \<le> v + 1" if "netContains n (IPv4 x)" for x
    using that unfolding inb word_le_nat_alt v1 using v by simp
  ultimately show ?thesis using c al by blast
qed

theorem virtualGatewayIP_last_witness:
  "\<exists>cidr\<in>set [''198.51.100.11/24'']. \<exists>a n. ParseCIDR cidr = Some (a, n) \<and> net_ones n < 32
     \<and> netContains n (IPv4 3325256958) \<and> netContains n (IPv4 3325256959)"
proof -
  have "virtualGatewayIP [''198.51.100.11/24''] = Inr 3325256958"
    by (simp add: net_eval lastUsable_def)
  from virtualGatewayIP_last [OF this] show ?thesis by auto
qed

section \<open>Only managed entries are written\<close>

lemma emits_transactOps [emits_intros]: "P (EvNb ops) \<Longrightarrow> emits P (transactOps E ops)"
  unfolding transactOps_def by (intro emits_intros)

text \<open>What \<open>EnsureGatewayRouting\<close> may send: updates and creations of routes that carry the
  agent's marker and this chassis' tag, MAC bindings, and the insertion of the new route.\<close>

fun routing_op :: "string \<Rightarrow> ovsop \<Rightarrow> bool" where
  "routing_op local (OpUpdate (RowRoute r) cols) =
     (managed r \<and> chassisTag r = local \<and> sr_IPPrefix r = ''0.0.0.0/0'')"
| "routing_op local (OpUpdate (RowMAC b) cols) = (cols = [''mac''])"
| "routing_op local (OpCreate (RowRoute r)) =
     (managed r \<and> chassisTag r = local \<and> sr_IPPrefix r = ''0.0.0.0/0'')"
| "routing_op local (OpCreate (RowMAC b)) = True"
| "routing_op local (OpMutateInsert t u c v) =
     (t = ''Logical_Router'' \<and> c = ''static_routes'' \<and> v = ''new_route'')"
| "routing_op local _ = False"

fun routing_ev :: "string \<Rightarrow> ev \<Rightarrow> bool" where
  "routing_ev local (EvQuery q) = True"
| "routing_ev local (EvNb ops) = list_all (routing_op local) ops"
| "routing_ev local _ = False"

lemma mget_update: "m \<noteq> None \<Longrightarrow> mget (map_option (AList.update k v) m) j = (if j = k then v else mget m j)"
  by (cases m) (simp_all add: mget_def AList.update_conv')

lemma managed_Some: "managed r \<Longrightarrow> sr_ExternalIDs r \<noteq> None"
  by (cases "sr_ExternalIDs r") (simp_all add: managed_def mget_def)

lemma setTag_props:
  assumes "managed r"
  shows "managed (setTag c r)" "chassisTag (setTag c r) = c" "sr_UUID (setTag c r) = sr_UUID r"
    "sr_IPPrefix (setTag c r) = sr_IPPrefix r" "sr_Nexthop (setTag c r) = sr_Nexthop r"
  using assms managed_Some [OF assms]
  by (simp_all add: managed_def chassisTag_def setTag_def mget_update)

lemma managed_upd [simp]: "managed (r\<lparr>sr_Nexthop := x, sr_OutputPort := y\<rparr>) = managed r"
  by (simp add: managed_def)

lemma newRoute_props:
  "managed (newRoute p v c)" "chassisTag (newRoute p v c) = c" "sr_IPPrefix (newRoute p v c) = ''0.0.0.0/0''"
  "sr_Nexthop (newRoute p v c) = v"
  by (simp_all add: managed_def chassisTag_def newRoute_def mget_def)

lemma planDefaultRoute_find:
  "planDefaultRoute uuids lrp vgw local routes =
     (case find (\<lambda>r. has uuids (sr_UUID r) \<and> sr_IPPrefix r = ''0.0.0.0/0'') routes of
        None \<Rightarrow> CreateRoute
      | Some r \<Rightarrow>
          if \<not> managed r then KeepRoute
          else if sr_Nexthop r = vgw
            then (if chassisTag r = local then KeepRoute else UpdateRoute (setTag local r) [''external_ids''])
          else UpdateRoute (setTag local (r\<lparr>sr_Nexthop := vgw, sr_OutputPort := Some lrp\<rparr>))
                 [''nexthop'', ''output_port'', ''external_ids''])"
  by (induction uuids lrp vgw local routes rule: planDefaultRoute.induct) auto

lemma plan_update_ok:
  assumes "planDefaultRoute uuids lrp vgw local routes = UpdateRoute r cols"
  shows "managed r \<and> chassisTag r = local \<and> sr_IPPrefix r = ''0.0.0.0/0'' \<and> sr_Nexthop r = vgw"
proof -
  let ?p = "\<lambda>r. has uuids (sr_UUID r) \<and> sr_IPPrefix r = ''0.0.0.0/0''"
  from assms obtain q where q: "find ?p routes = Some q" "managed q"
    by (auto simp: planDefaultRoute_find split: option.splits if_splits)
  then have "sr_IPPrefix q = ''0.0.0.0/0''" by (auto simp: find_Some_iff)
  with assms q show ?thesis
    by (auto simp: planDefaultRoute_find setTag_props split: if_splits)
qed

lemma emits_ensureDefaultRoute:
  "emits (routing_ev local) (ensureDefaultRoute E local lr vgw)"
  unfolding ensureDefaultRoute_def
proof (intro emits_intros)
  fix routes routers router
  show "emits (routing_ev local)
    (case planDefaultRoute (lr_StaticRoutes router) (ri_LRPName lr) vgw local routes of
       KeepRoute \<Rightarrow> ret None
     | UpdateRoute route cols \<Rightarrow>
         (let op = OpUpdate (RowRoute route) cols in
          case e_build_err E op of
            Some e \<Rightarrow> ret (Some (ErrWrap ''build update op'' e)) | None \<Rightarrow> transactOps E [op])
     | CreateRoute \<Rightarrow>
         (let op = OpCreate (RowRoute (newRoute (ri_LRPName lr) vgw local)) in
          case e_build_err E op of
            Some e \<Rightarrow> ret (Some (ErrWrap ''build create op'' e))
          | None \<Rightarrow>
              do { e \<leftarrow> transactOps E [op, OpMutateInsert ''Logical_Router'' (ri_RouterUUID lr)
                     ''static_routes'' ''new_route''];
                   ret (map_option (ErrWrap ''transact create route'') e) }))"
    by (cases "planDefaultRoute (lr_StaticRoutes router) (ri_LRPName lr) vgw local routes")
      (auto intro!: emits_intros simp: newRoute_props dest: plan_update_ok)
qed simp_all

lemma emits_ensureStaticMACBinding:
  "emits (routing_ev local) (ensureStaticMACBinding E lrp ip mac)"
  unfolding ensureStaticMACBinding_def by (intro emits_intros) simp_all

text \<open>
  C19. Gateway routing never touches a route the agent did not create: whatever OVN answers,
  every write of \<open>EnsureGatewayRouting\<close> is an update or creation of a default route that carries
  the agent's marker and this chassis' tag, the insertion of the new route into its router, or a
  MAC binding; nothing is deleted.
\<close>

theorem EnsureGatewayRouting_only_managed:
  "emits (routing_ev local) (EnsureGatewayRouting E local routers mac)"
  unfolding EnsureGatewayRouting_def ensureRouter_def
  by (intro emits_intros emits_ensureDefaultRoute emits_ensureStaticMACBinding)

text \<open>
  Applying a plan to the static routes of the database: \<open>fresh\<close> is the UUID the server gives
  the new row.
\<close>

definition apply_plan ::
  "string \<Rightarrow> string \<Rightarrow> string \<Rightarrow> string \<Rightarrow> routeplan \<Rightarrow> string list \<times> NBLogicalRouterStaticRoute list \<Rightarrow>
   string list \<times> NBLogicalRouterStaticRoute list" where
  "apply_plan fresh lrp vgw local plan db =
     (case plan of
        KeepRoute \<Rightarrow> db
      | UpdateRoute r cols \<Rightarrow> (fst db, map (\<lambda>q. if sr_UUID q = sr_UUID r then r else q) (snd db))
      | CreateRoute \<Rightarrow> (fresh # fst db, snd db @ [(newRoute lrp vgw local)\<lparr>sr_UUID := fresh\<rparr>]))"

lemma find_append: "find P (xs @ ys) = (case find P xs of None \<Rightarrow> find P ys | Some x \<Rightarrow> Some x)"
  by (induction xs) auto

lemma find_map_update:
  assumes "find P xs = Some r" "P r'" "sr_UUID r' = sr_UUID r" "distinct (map sr_UUID xs)"
  shows "find P (map (\<lambda>q. if sr_UUID q = sr_UUID r' then r' else q) xs) = Some r'"
  using assms
proof (induction xs)
  case (Cons x xs)
  show ?case
  proof (cases "P x")
    case True
    with Cons show ?thesis by simp
  next
    case False
    then have f: "find P xs = Some r" using Cons.prems(1) by simp
    then have "r \<in> set xs" by (auto simp: find_Some_iff)
    then have "sr_UUID x \<noteq> sr_UUID r" using Cons.prems(4) by (metis distinct.simps(2) image_eqI list.set_map list.simps(9))
    with False f Cons show ?thesis by simp
  qed
qed simp


definition demo_route :: NBLogicalRouterStaticRoute where
  "demo_route = (newRoute ''lrp-1'' ''198.51.100.1'' ''n2'')\<lparr>sr_UUID := ''s1''\<rparr>"


section \<open>What the clean-ups remove\<close>

text \<open>Removals on shutdown: managed routes, out of local routers, and bindings of local ports.\<close>

fun removal_op :: "string list \<Rightarrow> string list \<Rightarrow> ovsop \<Rightarrow> bool" where
  "removal_op routers ports (OpDelete (RowRoute r)) = managed r"
| "removal_op routers ports (OpDelete (RowMAC b)) = has ports (mb_LogicalPort b)"
| "removal_op routers ports (OpMutateDelete t u c v) =
     (t = ''Logical_Router'' \<and> c = ''static_routes'' \<and> has routers u)"
| "removal_op routers ports (OpSelect t cs w) = True"
| "removal_op routers ports _ = False"

fun ops_ev :: "(ovsop \<Rightarrow> bool) \<Rightarrow> ev \<Rightarrow> bool" where
  "ops_ev P (EvQuery q) = True"
| "ops_ev P (EvNb ops) = list_all P ops"
| "ops_ev P (EvSb ops) = list_all is_select ops"
| "ops_ev P _ = False"

lemma emits_deleteRoute:
  "P (OpMutateDelete ''Logical_Router'' u ''static_routes'' (sr_UUID r)) \<Longrightarrow> P (OpDelete (RowRoute r)) \<Longrightarrow>
   emits (ops_ev P) (deleteRoute E u r)"
  unfolding deleteRoute_def by (intro emits_intros) simp_all

lemma emits_deleteBinding: "P (OpDelete (RowMAC b)) \<Longrightarrow> emits (ops_ev P) (deleteBinding E b)"
  unfolding deleteBinding_def by (intro emits_intros) simp_all

lemma emits_listing:
  "(\<And>t cs w. P (OpSelect t cs w)) \<Longrightarrow> emits (ops_ev P) (listStaticRoutes E)"
  "(\<And>t cs w. P (OpSelect t cs w)) \<Longrightarrow> emits (ops_ev P) (listRouters E)"
  "(\<And>t cs w. P (OpSelect t cs w)) \<Longrightarrow> emits (ops_ev P) (listMACBindings E)"
  by (intro emits_lists; simp)+

text \<open>
  Shutdown removes only what is the agent's: \<open>RemoveManagedNBEntries\<close> deletes a static route
  only if it carries the agent's marker, unlinks it only from routers active on this chassis, and
  deletes MAC bindings only on gateway ports of those routers; without a local router it sends
  nothing at all.
\<close>

theorem RemoveManagedNBEntries_local:
  "emits (ops_ev (removal_op (map ri_RouterUUID (s_LocalRouters st)) (map ri_LRPName (s_LocalRouters st))))
     (RemoveManagedNBEntries E st)
   \<and> trace (RemoveManagedNBEntries E (st\<lparr>s_LocalRouters := []\<rparr>)) s = []"
proof
  let ?P = "removal_op (map ri_RouterUUID (s_LocalRouters st)) (map ri_LRPName (s_LocalRouters st))"
  have r: "emits (ops_ev ?P) (removeRouteIfLocal E (map ri_RouterUUID (s_LocalRouters st)) routers route)"
    for routers route
    unfolding removeRouteIfLocal_def
    by (intro emits_intros emits_deleteRoute) (auto simp: find_Some_iff)
  show "emits (ops_ev ?P) (RemoveManagedNBEntries E st)"
    unfolding RemoveManagedNBEntries_def GetState_def Let_def
    by (auto intro!: emits_intros emits_deleteBinding emits_listing r)
  show "trace (RemoveManagedNBEntries E (st\<lparr>s_LocalRouters := []\<rparr>)) s = []"
    by (simp add: RemoveManagedNBEntries_def GetState_def)
qed

text \<open>Removals of stale entries: routes whose tag names a stale chassis.\<close>

fun stale_op :: "string list \<Rightarrow> ovsop \<Rightarrow> bool" where
  "stale_op stale (OpDelete (RowRoute r)) = isStale stale r"
| "stale_op stale (OpDelete (RowMAC b)) = True"
| "stale_op stale (OpMutateDelete t u c v) = (t = ''Logical_Router'' \<and> c = ''static_routes'')"
| "stale_op stale (OpSelect t cs w) = True"
| "stale_op stale _ = False"

lemma staleRoutes_set:
  "(r, router) \<in> set (staleRoutes stale routers routes) \<longleftrightarrow>
     r \<in> set routes \<and> isStale stale r \<and> map_of (routeToRouter routers) (sr_UUID r) = Some router"
  by (auto simp: staleRoutes_def set_map_filter)


end
