(* ===== verification/Drain.thy ===== *)
theory Drain
  imports Gateway
begin

text \<open>
  The high-availability side of \<open>ovn_gateway.go\<close>: the priority lead of the active chassis, the
  drain before shutdown, and the restore after it. A row update of the priority is the operation
  \<open>OpUpdate (RowGwc row) [''priority'']\<close>. The order in which Go visits the map of HA groups is the
  argument \<open>ord\<close>; the deadline of the drain context is the number of ticks left before it.
\<close>

section \<open>The active lead\<close>

definition minActivePriority :: int where
  "minActivePriority = 2"

record haGroup =
  hg_local :: "NBGatewayChassis option"
  hg_maxPeer :: int

definition lrpOf :: "NBGatewayChassis \<Rightarrow> string" where
  "lrpOf g = TrimSuffix (gc_Name g) (''_'' @ gc_ChassisName g)"

definition newGroup :: haGroup where
  "newGroup = \<lparr>hg_local = None, hg_maxPeer = - 1\<rparr>"

definition addRow :: "string \<Rightarrow> NBGatewayChassis \<Rightarrow> haGroup \<Rightarrow> haGroup" where
  "addRow local g grp =
     (if gc_ChassisName g = local then grp\<lparr>hg_local := Some g\<rparr>
      else if gc_Priority g > hg_maxPeer grp then grp\<lparr>hg_maxPeer := gc_Priority g\<rparr> else grp)"

fun groupRows ::
  "string list \<Rightarrow> string \<Rightarrow> NBGatewayChassis list \<Rightarrow> (string, haGroup) gomap \<Rightarrow> (string, haGroup) gomap" where
  "groupRows activeLRPs local [] groups = groups"
| "groupRows activeLRPs local (g # gs) groups =
     (if \<not> has activeLRPs (lrpOf g) then groupRows activeLRPs local gs groups
      else groupRows activeLRPs local gs
        (AList.update (lrpOf g)
          (addRow local g (case map_of groups (lrpOf g) of Some x \<Rightarrow> x | None \<Rightarrow> newGroup)) groups))"

text \<open>\<open>cr\<close>: where each chassisredirect port is bound, \<open>None\<close> when the check failed.\<close>

definition boundElsewhere ::
  "(string, string) gomap option \<Rightarrow> (string, string) gomap \<Rightarrow> string \<Rightarrow> string \<Rightarrow> bool" where
  "boundElsewhere cr crPortByLRP local lrp =
     (case cr of None \<Rightarrow> False
      | Some m \<Rightarrow> (case map_of m (str_at crPortByLRP lrp) of None \<Rightarrow> False | Some b \<Rightarrow> b \<noteq> local))"

definition boostRow ::
  "(string, string) gomap option \<Rightarrow> (string, string) gomap \<Rightarrow> string \<Rightarrow> string \<Rightarrow> haGroup \<Rightarrow>
   NBGatewayChassis option" where
  "boostRow cr crPortByLRP local lrp g =
     (case hg_local g of
        None \<Rightarrow> None
      | Some l \<Rightarrow>
          if hg_maxPeer g < 0 then None
          else if gc_Priority l > hg_maxPeer g \<and> gc_Priority l \<ge> minActivePriority then None
          else if boundElsewhere cr crPortByLRP local lrp then None
          else let p = hg_maxPeer g + 1
               in Some (l\<lparr>gc_Priority := (if p < minActivePriority then minActivePriority else p)\<rparr>))"

definition boostRows ::
  "(string list \<Rightarrow> string list) \<Rightarrow> string list \<Rightarrow> string \<Rightarrow> NBGatewayChassis list \<Rightarrow>
   (string, string) gomap option \<Rightarrow> (string, string) gomap \<Rightarrow> NBGatewayChassis list" where
  "boostRows ord activeLRPs local rows cr crPortByLRP =
     (let groups = groupRows activeLRPs local rows []
      in List.map_filter (\<lambda>lrp. Option.bind (map_of groups lrp) (boostRow cr crPortByLRP local lrp))
           (ord (map_keys groups)))"

definition prioOp :: "NBGatewayChassis \<Rightarrow> ovsop" where
  "prioOp g = OpUpdate (RowGwc g) [''priority'']"

text \<open>Operations that cannot be built are logged and skipped.\<close>

definition buildable :: "'s ovnenv \<Rightarrow> ovsop list \<Rightarrow> ovsop list" where
  "buildable E ops = filter (\<lambda>op. e_build_err E op = None) ops"

definition selectLocalGatewayChassis :: "'s ovnenv \<Rightarrow> string \<Rightarrow> ('s, NBGatewayChassis list result) io" where
  "selectLocalGatewayChassis E local =
     (let op = OpSelect ''Gateway_Chassis'' None (Some (''chassis_name'', local)) in
      do { r \<leftarrow> nbTransact E [op];
           ret (case r of
             Inl e \<Rightarrow> Inl (ErrWrap ''transact select'' e)
           | Inr results \<Rightarrow>
               (case e_check_results E results [op] of
                  Some e \<Rightarrow> Inl (ErrWrap ''select result'' e)
                | None \<Rightarrow> (case results of [] \<Rightarrow> Inr []
                           | x # xs \<Rightarrow> Inr (map rowToGatewayChassis (res_rows x))))) })"

definition boundChassis :: "(string, string) gomap \<Rightarrow> row list \<Rightarrow> (string, string) gomap" where
  "boundChassis hostByRef rows =
     upd_all (List.map_filter (\<lambda>row. let pb = decodeSBPortBinding row in
        if pb_Type pb \<noteq> ''chassisredirect'' then None
        else case pb_Chassis pb of None \<Rightarrow> None
             | Some c \<Rightarrow> if c = [] then None else Some (pb_LogicalPort pb, str_at hostByRef c)) rows) []"

definition selectCRPortChassis :: "'s ovnenv \<Rightarrow> ('s, (string, string) gomap result) io" where
  "selectCRPortChassis E =
     do { r \<leftarrow> directSelect (sbTransact E) (e_check_results E) ''Chassis''
            (Some [''_uuid'', ''name'', ''hostname'']);
          case r of Inl e \<Rightarrow> ret (Inl (ErrWrap ''select chassis'' e)) | Inr chassisRows \<Rightarrow>
          let hostByRef = chassisHostnames (map decodeSBChassis chassisRows);
              op = OpSelect ''Port_Binding''
                (Some [''_uuid'', ''type'', ''logical_port'', ''chassis'']) (Some (''type'', ''chassisredirect''))
          in do { rr \<leftarrow> sbTransact E [op];
               ret (case rr of
                 Inl e \<Rightarrow> Inl (ErrWrap ''select chassisredirect port bindings'' e)
               | Inr results \<Rightarrow>
                   (case e_check_results E results [op] of
                      Some e \<Rightarrow> Inl (ErrWrap ''select chassisredirect port bindings'' e)
                    | None \<Rightarrow> Inr (boundChassis hostByRef (reply_rows results)))) } }"

definition isLocalRow :: "string \<Rightarrow> NBGatewayChassis \<Rightarrow> bool" where
  "isLocalRow local g \<longleftrightarrow> gc_ChassisName g = local"

definition listGatewayChassis :: "'s ovnenv \<Rightarrow> ('s, NBGatewayChassis list result) io" where
  "listGatewayChassis E = listTable ''Gateway_Chassis'' (e_list_gc E)"

definition EnsureActivePriorityLead ::
  "(string list \<Rightarrow> string list) \<Rightarrow> 's ovnenv \<Rightarrow> LocalRouterInfo list \<Rightarrow> string \<Rightarrow> ('s, goerr option) io" where
  "EnsureActivePriorityLead ord E routers local =
     (if routers = [] then ret None else
      do { r \<leftarrow> listGatewayChassis E;
           case r of Inl e \<Rightarrow> ret (Some (ErrWrap ''list gateway chassis'' e)) | Inr cached \<Rightarrow>
      do { m \<leftarrow> (if list_ex (isLocalRow local) cached then ret (Inr cached)
               else do { sr \<leftarrow> selectLocalGatewayChassis E local;
                         ret (case sr of
                           Inl e \<Rightarrow> Inl (ErrWrap ''active-lead: cache miss + NB select fallback failed'' e)
                         | Inr rows \<Rightarrow> Inr (cached @ rows)) });
           case m of Inl e \<Rightarrow> ret (Some e) | Inr rows \<Rightarrow>
      do { cr \<leftarrow> selectCRPortChassis E;
           let ops = buildable E (map prioOp (boostRows ord (map ri_LRPName routers) local rows
                 (case cr of Inl e \<Rightarrow> None | Inr m \<Rightarrow> Some m)
                 (upd_all (map (\<lambda>lr. (ri_LRPName lr, ri_CRPort lr)) routers) [])))
           in if ops = [] then ret None else transactOps E ops } } })"

section \<open>Drain and restore\<close>

fun filterRestoreCandidates ::
  "NBGatewayChassis list \<Rightarrow> string \<Rightarrow> NBGatewayChassis list \<times> bool" where
  "filterRestoreCandidates [] local = ([], False)"
| "filterRestoreCandidates (g # gs) local =
     (let (rest, found) = filterRestoreCandidates gs local in
      if gc_ChassisName g \<noteq> local then (rest, found)
      else (if gc_Priority g = 0 then g # rest else rest, True))"

fun filterDrainCandidates ::
  "NBGatewayChassis list \<Rightarrow> string \<Rightarrow> NBGatewayChassis list \<times> bool" where
  "filterDrainCandidates [] local = ([], False)"
| "filterDrainCandidates (g # gs) local =
     (let (rest, found) = filterDrainCandidates gs local in
      if gc_ChassisName g \<noteq> local then (rest, found)
      else (if gc_Priority g > 0 then g # rest else rest, True))"

definition countLocalCRPorts :: "Config \<Rightarrow> 's ovnenv \<Rightarrow> string \<Rightarrow> ('s, nat result) io" where
  "countLocalCRPorts cfg E local =
     do { r1 \<leftarrow> listPortBindings E;
          case r1 of Inl e \<Rightarrow> ret (Inl (ErrWrap ''list port bindings'' e)) | Inr pbs \<Rightarrow>
     do { r2 \<leftarrow> listChassis E;
          ret (case r2 of
            Inl e \<Rightarrow> Inl (ErrWrap ''list chassis'' e)
          | Inr chs \<Rightarrow> Inr (length (filter (\<lambda>pb.
              pb_Type pb = ''chassisredirect''
              \<and> (case pb_Chassis pb of None \<Rightarrow> False | Some c \<Rightarrow> c \<noteq> []
                   \<and> (c_GatewayPort cfg = [] \<or> pb_LogicalPort pb = c_GatewayPort cfg)
                   \<and> EqualFold (str_at (chassisHostnames chs) c) local)) pbs))) } }"

definition settleAfterDrain :: "Config \<Rightarrow> 's ovnenv \<Rightarrow> ('s, unit) io" where
  "settleAfterDrain cfg E = (if c_DrainSettleDelay cfg \<le> 0 then ret () else wait E)"

text \<open>The polling loop: \<open>ticks\<close> is how often the ticker fires before the context is done.\<close>

fun pollDrain :: "Config \<Rightarrow> 's ovnenv \<Rightarrow> string \<Rightarrow> nat \<Rightarrow> ('s, goerr option) io" where
  "pollDrain cfg E local ticks =
     do { r \<leftarrow> countLocalCRPorts cfg E local;
          case r of
            Inl e \<Rightarrow> ret (Some (ErrWrap ''drain: failed to query port bindings'' e))
          | Inr remaining \<Rightarrow>
              if remaining = 0 then do { _ \<leftarrow> settleAfterDrain cfg E; ret None }
              else (case ticks of
                      0 \<Rightarrow> ret None
                    | Suc n \<Rightarrow> do { _ \<leftarrow> wait E; pollDrain cfg E local n }) }"

declare pollDrain.simps [simp del]

definition DrainGateways :: "Config \<Rightarrow> 's ovnenv \<Rightarrow> string \<Rightarrow> nat \<Rightarrow> ('s, goerr option) io" where
  "DrainGateways cfg E local ticks =
     do { r \<leftarrow> listGatewayChassis E;
          case r of Inl e \<Rightarrow> ret (Some (ErrWrap ''list gateway chassis'' e)) | Inr cached \<Rightarrow>
     do { m \<leftarrow> (let (toDrain, hasLocalRow) = filterDrainCandidates cached local in
               if hasLocalRow then ret (Inr toDrain)
               else do { sr \<leftarrow> selectLocalGatewayChassis E local;
                         ret (case sr of
                           Inl e \<Rightarrow> Inl (ErrWrap ''drain: cache miss + NB select fallback failed'' e)
                         | Inr rows \<Rightarrow> Inr (fst (filterDrainCandidates rows local))) });
          case m of Inl e \<Rightarrow> ret (Some e) | Inr toDrain \<Rightarrow>
          if toDrain = [] then ret None else
          let ops = buildable E (map (\<lambda>g. prioOp (g\<lparr>gc_Priority := 0\<rparr>)) toDrain) in
     do { e \<leftarrow> (if ops \<noteq> [] then transactOps E ops else ret None);
          case e of
            Some err \<Rightarrow> ret (Some (ErrWrap ''drain: failed to lower gateway chassis priorities'' err))
          | None \<Rightarrow> pollDrain cfg E local ticks } } }"

definition RestoreDrainedGateways :: "'s ovnenv \<Rightarrow> string \<Rightarrow> ('s, unit) io" where
  "RestoreDrainedGateways E local =
     do { r \<leftarrow> listGatewayChassis E;
          case r of Inl e \<Rightarrow> ret () | Inr cached \<Rightarrow>
     do { m \<leftarrow> (let (toRestore, hasLocalRow) = filterRestoreCandidates cached local in
               if hasLocalRow then ret (Inr toRestore)
               else do { sr \<leftarrow> selectLocalGatewayChassis E local;
                         ret (case sr of Inl e \<Rightarrow> Inl e
                              | Inr rows \<Rightarrow> Inr (fst (filterRestoreCandidates rows local))) });
          case m of Inl e \<Rightarrow> ret () | Inr toRestore \<Rightarrow>
          let ops = buildable E (map (\<lambda>g. prioOp (g\<lparr>gc_Priority := 1\<rparr>)) toRestore) in
          if ops = [] then ret ()
          else do { _ \<leftarrow> transactOps E ops; ret () } } }"

lemma find_SomeD: "find P xs = Some x \<Longrightarrow> x \<in> set xs \<and> P x"
  by (induction xs) (auto split: if_splits)

lemma filter_map_id:
  "(\<And>x. x \<in> set xs \<Longrightarrow> P (f x) = P x) \<Longrightarrow> (\<And>x. x \<in> set xs \<Longrightarrow> P x \<Longrightarrow> f x = x) \<Longrightarrow>
   filter P (map f xs) = filter P xs"
  by (induction xs) simp_all

section \<open>Grouping by router port\<close>

definition rowsOf :: "string \<Rightarrow> NBGatewayChassis list \<Rightarrow> NBGatewayChassis list" where
  "rowsOf lrp rows = filter (\<lambda>g. lrpOf g = lrp) rows"

lemma groupRows_lookup:
  "map_of (groupRows active local rows groups) lrp =
     (if has active lrp \<and> rowsOf lrp rows \<noteq> []
      then Some (fold (addRow local) (rowsOf lrp rows)
             (case map_of groups lrp of Some x \<Rightarrow> x | None \<Rightarrow> newGroup))
      else map_of groups lrp)"
  by (induction active local rows groups rule: groupRows.induct)
    (auto simp: rowsOf_def AList.update_conv')

lemma groupRows_distinct:
  "distinct (map fst groups) \<Longrightarrow> distinct (map fst (groupRows active local rows groups))"
  by (induction active local rows groups rule: groupRows.induct) (auto intro: AList.distinct_update)

definition peers :: "string \<Rightarrow> NBGatewayChassis list \<Rightarrow> NBGatewayChassis list" where
  "peers local rs = filter (\<lambda>g. gc_ChassisName g \<noteq> local) rs"

lemma addRow_max:
  "hg_maxPeer (fold (addRow local) rs grp) = fold max (map gc_Priority (peers local rs)) (hg_maxPeer grp)"
  by (induction rs arbitrary: grp) (auto simp: addRow_def peers_def max_def)

lemma fold_max_bounds: "(m::int) \<le> fold max xs m" "x \<in> set xs \<Longrightarrow> x \<le> fold max xs m"
proof -
  show le: "m \<le> fold max xs m" for m :: int and xs
    by (induction xs arbitrary: m) (auto intro: order_trans [OF max.cobounded2])
  show "x \<in> set xs \<Longrightarrow> x \<le> fold max xs m"
  proof (induction xs arbitrary: m)
    case (Cons y ys)
    then show ?case using le [of "max y m"] by (auto intro: order_trans [OF max.cobounded1])
  qed simp
qed

lemma fold_max_in: "fold max xs (m::int) \<noteq> m \<Longrightarrow> fold max xs m \<in> set xs"
  by (induction xs arbitrary: m) (auto simp: max_def split: if_splits)

lemma addRow_local:
  "hg_local (fold (addRow local) rs grp) =
     (case filter (\<lambda>g. gc_ChassisName g = local) (rev rs) of [] \<Rightarrow> hg_local grp | g # _ \<Rightarrow> Some g)"
  by (induction rs arbitrary: grp) (auto simp: addRow_def split: list.splits)


lemma rowsOf_set: "g \<in> set (rowsOf lrp rows) \<longleftrightarrow> g \<in> set rows \<and> lrpOf g = lrp"
  by (auto simp: rowsOf_def)

lemma lrpOf_prio [simp]: "lrpOf (g\<lparr>gc_Priority := p\<rparr>) = lrpOf g"
  by (simp add: lrpOf_def)

definition groupOf :: "string \<Rightarrow> string \<Rightarrow> NBGatewayChassis list \<Rightarrow> haGroup" where
  "groupOf local lrp rows = fold (addRow local) (rowsOf lrp rows) newGroup"

lemma boostRows_mem:
  assumes "visit_order ord"
  shows "u \<in> set (boostRows ord active local rows cr crp) \<longleftrightarrow>
    (\<exists>lrp\<in>set active. rowsOf lrp rows \<noteq> [] \<and> boostRow cr crp local lrp (groupOf local lrp rows) = Some u)"
proof -
  have m: "map_of (groupRows active local rows []) lrp =
      (if lrp \<in> set active \<and> rowsOf lrp rows \<noteq> [] then Some (groupOf local lrp rows) else None)" for lrp
    by (simp add: groupRows_lookup groupOf_def)
  have "set (ord (map_keys (groupRows active local rows []))) = dom (map_of (groupRows active local rows []))"
    using visit_order_set [OF assms] by (simp add: map_keys_def dom_map_of_conv_image_fst)
  then show ?thesis
    by (auto simp: boostRows_def Let_def set_map_filter bind_eq_Some_conv m split: if_splits)
qed

lemma groupOf_local_mem:
  assumes "hg_local (groupOf local lrp rows) = Some l"
  shows "l \<in> set rows \<and> lrpOf l = lrp \<and> gc_ChassisName l = local"
proof -
  have "filter (\<lambda>g. gc_ChassisName g = local) (rev (rowsOf lrp rows)) \<noteq> []"
    using assms by (auto simp: groupOf_def addRow_local newGroup_def)
  then obtain x xs where x: "filter (\<lambda>g. gc_ChassisName g = local) (rev (rowsOf lrp rows)) = x # xs"
    by (cases "filter (\<lambda>g. gc_ChassisName g = local) (rev (rowsOf lrp rows))") auto
  then have "x \<in> set (filter (\<lambda>g. gc_ChassisName g = local) (rev (rowsOf lrp rows)))" by simp
  moreover have "x = l" using assms x by (simp add: groupOf_def addRow_local)
  ultimately show ?thesis by (auto simp: rowsOf_set)
qed

lemma groupOf_max:
  "p \<in> set rows \<Longrightarrow> lrpOf p = lrp \<Longrightarrow> gc_ChassisName p \<noteq> local \<Longrightarrow>
   gc_Priority p \<le> hg_maxPeer (groupOf local lrp rows)"
  by (auto simp: groupOf_def addRow_max peers_def rowsOf_set intro!: fold_max_bounds(2))

lemma boostRow_SomeD:
  assumes "boostRow cr crp local lrp (groupOf local lrp rows) = Some u"
  shows "\<exists>l\<in>set rows. lrpOf l = lrp \<and> gc_ChassisName l = local \<and> u = l\<lparr>gc_Priority := gc_Priority u\<rparr>
    \<and> 2 \<le> gc_Priority u \<and> \<not> boundElsewhere cr crp local lrp
    \<and> (\<forall>p\<in>set rows. lrpOf p = lrp \<longrightarrow> gc_ChassisName p \<noteq> local \<longrightarrow> gc_Priority p < gc_Priority u)"
proof -
  obtain l where l: "hg_local (groupOf local lrp rows) = Some l"
    "u = l\<lparr>gc_Priority := (if hg_maxPeer (groupOf local lrp rows) + 1 < minActivePriority
       then minActivePriority else hg_maxPeer (groupOf local lrp rows) + 1)\<rparr>"
    "\<not> boundElsewhere cr crp local lrp"
    using assms by (auto simp: boostRow_def Let_def split: option.splits if_splits)
  have "gc_Priority p < gc_Priority u"
    if "p \<in> set rows" "lrpOf p = lrp" "gc_ChassisName p \<noteq> local" for p
    using groupOf_max [OF that] l(2) by auto
  then show ?thesis
    using groupOf_local_mem [OF l(1)] l(2,3) by (intro bexI [of _ l]) (auto simp: minActivePriority_def)
qed

section \<open>Applying the updates\<close>

text \<open>What a transaction of priority updates makes of the table.\<close>

definition setPriority :: "NBGatewayChassis list \<Rightarrow> NBGatewayChassis \<Rightarrow> NBGatewayChassis" where
  "setPriority ups r =
     (case find (\<lambda>u. gc_UUID u = gc_UUID r) ups of None \<Rightarrow> r | Some u \<Rightarrow> r\<lparr>gc_Priority := gc_Priority u\<rparr>)"

lemma setPriority_simps [simp]:
  "gc_UUID (setPriority ups r) = gc_UUID r" "gc_ChassisName (setPriority ups r) = gc_ChassisName r"
  "gc_Name (setPriority ups r) = gc_Name r" "lrpOf (setPriority ups r) = lrpOf r"
  by (simp_all add: setPriority_def lrpOf_def split: option.splits)

text \<open>The rows of the table: UUIDs and the pairs (router port, chassis) are unique.\<close>

definition gc_wf :: "NBGatewayChassis list \<Rightarrow> bool" where
  "gc_wf rows \<longleftrightarrow> distinct (map gc_UUID rows) \<and> distinct (map (\<lambda>g. (lrpOf g, gc_ChassisName g)) rows)"

lemma gc_wfD:
  assumes "gc_wf rows" "g \<in> set rows" "h \<in> set rows"
  shows "gc_UUID g = gc_UUID h \<Longrightarrow> g = h"
    and "lrpOf g = lrpOf h \<Longrightarrow> gc_ChassisName g = gc_ChassisName h \<Longrightarrow> g = h"
  using assms by (auto simp: gc_wf_def distinct_map dest: inj_onD)

text \<open>The lead: the chassis' row is at least 2 and above every other row of the router port.\<close>

definition leads :: "string \<Rightarrow> string \<Rightarrow> NBGatewayChassis list \<Rightarrow> bool" where
  "leads c lrp rows \<longleftrightarrow> (\<exists>l\<in>set rows. lrpOf l = lrp \<and> gc_ChassisName l = c \<and> 2 \<le> gc_Priority l
     \<and> (\<forall>p\<in>set rows. lrpOf p = lrp \<and> gc_ChassisName p \<noteq> c \<longrightarrow> gc_Priority p < gc_Priority l))"

lemma groupOf_local_unique:
  assumes "gc_wf rows" "l \<in> set rows" "lrpOf l = lrp" "gc_ChassisName l = local"
  shows "hg_local (groupOf local lrp rows) = Some l"
proof -
  have "filter (\<lambda>g. gc_ChassisName g = local) (rev (rowsOf lrp rows)) \<noteq> []"
    using assms by (auto simp: rowsOf_set filter_empty_conv)
  then obtain l' where "hg_local (groupOf local lrp rows) = Some l'"
    by (cases "filter (\<lambda>g. gc_ChassisName g = local) (rev (rowsOf lrp rows))")
      (auto simp: groupOf_def addRow_local)
  with groupOf_local_mem [OF this] gc_wfD(2) [OF assms(1)] assms show ?thesis by metis
qed

lemma boost_only_local:
  assumes "visit_order ord" "gc_wf rows" "r \<in> set rows" "u \<in> set (boostRows ord active local rows cr crp)"
    "gc_UUID u = gc_UUID r"
  shows "gc_ChassisName r = local \<and> boostRow cr crp local (lrpOf r) (groupOf local (lrpOf r) rows) = Some u"
proof -
  from assms(4) obtain lrp where b: "boostRow cr crp local lrp (groupOf local lrp rows) = Some u"
    unfolding boostRows_mem [OF assms(1)] by blast
  obtain l where l: "l \<in> set rows" "lrpOf l = lrp" "gc_ChassisName l = local"
    "u = l\<lparr>gc_Priority := gc_Priority u\<rparr>"
    using boostRow_SomeD [OF b] by blast
  have "gc_UUID l = gc_UUID u" by (subst l(4)) simp
  with assms l have "l = r" by (metis gc_wfD(1))
  with b l show ?thesis by simp
qed

lemma setPriority_boost:
  assumes "visit_order ord" "gc_wf rows" "r \<in> set rows"
  shows "setPriority (boostRows ord active local rows cr crp) r =
    (if gc_ChassisName r = local \<and> lrpOf r \<in> set active
     then (case boostRow cr crp local (lrpOf r) (groupOf local (lrpOf r) rows) of
             None \<Rightarrow> r | Some u \<Rightarrow> r\<lparr>gc_Priority := gc_Priority u\<rparr>)
     else r)"
proof (cases "find (\<lambda>u. gc_UUID u = gc_UUID r) (boostRows ord active local rows cr crp)")
  case None
  then have no: "\<nexists>u. u \<in> set (boostRows ord active local rows cr crp) \<and> gc_UUID u = gc_UUID r"
    by (auto simp: find_None_iff)
  have "boostRow cr crp local (lrpOf r) (groupOf local (lrpOf r) rows) = None"
    if c: "gc_ChassisName r = local" "lrpOf r \<in> set active"
  proof (rule ccontr)
    assume "\<not> ?thesis"
    then obtain u where u: "boostRow cr crp local (lrpOf r) (groupOf local (lrpOf r) rows) = Some u" by blast
    obtain l where l: "l \<in> set rows" "lrpOf l = lrpOf r" "gc_ChassisName l = local"
      "u = l\<lparr>gc_Priority := gc_Priority u\<rparr>"
      using boostRow_SomeD [OF u] by blast
    then have "l = r" using gc_wfD(2) [OF assms(2)] assms(3) c by metis
    then have "gc_UUID u = gc_UUID r" by (subst l(4)) simp
    moreover have "rowsOf (lrpOf r) rows \<noteq> []" using assms(3) by (auto simp: rowsOf_def filter_empty_conv)
    ultimately show False using no u c boostRows_mem [OF assms(1)] by blast
  qed
  with None show ?thesis by (simp add: setPriority_def)
next
  case (Some u)
  then have u: "u \<in> set (boostRows ord active local rows cr crp)" "gc_UUID u = gc_UUID r"
    by (auto simp: find_Some_iff)
  from boost_only_local [OF assms u]
  have b: "gc_ChassisName r = local" "boostRow cr crp local (lrpOf r) (groupOf local (lrpOf r) rows) = Some u"
    by simp_all
  have "lrpOf r \<in> set active"
  proof -
    from u(1) obtain lrp where "lrp \<in> set active" "boostRow cr crp local lrp (groupOf local lrp rows) = Some u"
      unfolding boostRows_mem [OF assms(1)] by blast
    with boostRow_SomeD [OF this(2)] boostRow_SomeD [OF b(2)] show ?thesis by (metis lrpOf_prio)
  qed
  with b Some show ?thesis by (simp add: setPriority_def)
qed


text \<open>
  C4. The boost establishes the lead and touches nobody else: for every locally active router port
  with a row of this chassis, at least one peer and no binding elsewhere, once the computed updates
  are applied this chassis' row has priority at least 2 and strictly above all its peers, whatever
  the order in which the groups were visited; and no row of another chassis changes.
\<close>

theorem boost_establishes_lead:
  assumes "visit_order ord" "gc_wf rows" "lrp \<in> set active"
    and "l \<in> set rows" "lrpOf l = lrp" "gc_ChassisName l = local"
    and "peer \<in> set rows" "lrpOf peer = lrp" "gc_ChassisName peer \<noteq> local" "0 \<le> gc_Priority peer"
    and "\<not> boundElsewhere cr crp local lrp"
  shows "leads local lrp (map (setPriority (boostRows ord active local rows cr crp)) rows)
    \<and> filter (\<lambda>g. gc_ChassisName g \<noteq> local) (map (setPriority (boostRows ord active local rows cr crp)) rows)
      = filter (\<lambda>g. gc_ChassisName g \<noteq> local) rows"
proof
  let ?set = "setPriority (boostRows ord active local rows cr crp)"
  note sp = setPriority_boost [OF assms(1,2)]
  have other: "?set r = r" if "r \<in> set rows" "gc_ChassisName r \<noteq> local" for r
    using sp [OF that(1)] that(2) by simp
  show "filter (\<lambda>g. gc_ChassisName g \<noteq> local) (map ?set rows) = filter (\<lambda>g. gc_ChassisName g \<noteq> local) rows"
    by (rule filter_map_id) (simp_all add: other)
  have hl: "hg_local (groupOf local lrp rows) = Some l"
    by (rule groupOf_local_unique [OF assms(2,4,5,6)])
  have mp: "gc_Priority p \<le> hg_maxPeer (groupOf local lrp rows)"
    if "p \<in> set rows" "lrpOf p = lrp" "gc_ChassisName p \<noteq> local" for p
    by (rule groupOf_max [OF that])
  have "2 \<le> gc_Priority (?set l) \<and> hg_maxPeer (groupOf local lrp rows) < gc_Priority (?set l)"
    using sp [OF assms(4)] mp [OF assms(7,8,9)] assms(3,5,6,10,11)
    by (auto simp: boostRow_def hl Let_def minActivePriority_def)
  then have "2 \<le> gc_Priority (?set l)" "\<forall>p\<in>set (map ?set rows).
      lrpOf p = lrp \<and> gc_ChassisName p \<noteq> local \<longrightarrow> gc_Priority p < gc_Priority (?set l)"
    using mp other by fastforce+
  then show "leads local lrp (map ?set rows)"
    unfolding leads_def using assms(4,5,6) by (intro bexI [of _ "?set l"]) auto
qed

text \<open>A chassis that SB shows as not owning the port is not boosted.\<close>

lemma no_boost_elsewhere:
  assumes "visit_order ord" "u \<in> set (boostRows ord active local rows cr crp)"
  shows "gc_ChassisName u = local \<and> \<not> boundElsewhere cr crp local (lrpOf u) \<and> lrpOf u \<in> set active"
proof -
  from assms(2) obtain lrp where b: "lrp \<in> set active"
    "boostRow cr crp local lrp (groupOf local lrp rows) = Some u"
    unfolding boostRows_mem [OF assms(1)] by blast
  from boostRow_SomeD [OF b(2)] obtain l where "lrpOf l = lrp" "gc_ChassisName l = local"
    "u = l\<lparr>gc_Priority := gc_Priority u\<rparr>" "\<not> boundElsewhere cr crp local lrp" by blast
  then have "lrpOf u = lrp" "gc_ChassisName u = local" by (metis lrpOf_prio, metis NBGatewayChassis.select_convs(2) NBGatewayChassis.surjective NBGatewayChassis.update_convs(4))
  with b \<open>\<not> boundElsewhere cr crp local lrp\<close> show ?thesis by simp
qed

section \<open>The two moves\<close>

text \<open>
  Drain and restore have the same shape: rows of one chassis whose priority is in \<open>wanted\<close> are
  set to \<open>target\<close>. The contract of their filters and what follows from it.
\<close>

locale priority_move =
  fixes candidates :: "NBGatewayChassis list \<Rightarrow> string \<Rightarrow> NBGatewayChassis list \<times> bool"
    and wanted :: "int \<Rightarrow> bool" and target :: int
  assumes selects: "fst (candidates rows c) = filter (\<lambda>g. gc_ChassisName g = c \<and> wanted (gc_Priority g)) rows"
    and present: "snd (candidates rows c) \<longleftrightarrow> (\<exists>g\<in>set rows. gc_ChassisName g = c)"
    and settled: "\<not> wanted target"
begin

definition moved :: "NBGatewayChassis list \<Rightarrow> string \<Rightarrow> NBGatewayChassis list" where
  "moved rows c = map (setPriority (map (\<lambda>g. g\<lparr>gc_Priority := target\<rparr>) (fst (candidates rows c)))) rows"

lemma setPriority_moved:
  assumes "gc_wf rows" "r \<in> set rows"
  shows "setPriority (map (\<lambda>g. g\<lparr>gc_Priority := target\<rparr>) (fst (candidates rows c))) r =
    (if gc_ChassisName r = c \<and> wanted (gc_Priority r) then r\<lparr>gc_Priority := target\<rparr> else r)"
proof -
  let ?ups = "map (\<lambda>g. g\<lparr>gc_Priority := target\<rparr>) (fst (candidates rows c))"
  have f: "(\<exists>u\<in>set ?ups. gc_UUID u = gc_UUID r) \<longleftrightarrow> gc_ChassisName r = c \<and> wanted (gc_Priority r)"
    using gc_wfD(1) [OF assms(1)] assms(2) by (force simp: selects)
  show ?thesis
  proof (cases "find (\<lambda>u. gc_UUID u = gc_UUID r) ?ups")
    case None
    then have "\<not> (\<exists>u\<in>set ?ups. gc_UUID u = gc_UUID r)" by (simp add: find_None_iff)
    with f None show ?thesis by (auto simp: setPriority_def)
  next
    case (Some u)
    then have "u \<in> set ?ups" "gc_UUID u = gc_UUID r" by (auto dest: find_SomeD)
    then have "gc_ChassisName r = c \<and> wanted (gc_Priority r)" using f by blast
    moreover have "gc_Priority u = target" using \<open>u \<in> set ?ups\<close> by auto
    ultimately show ?thesis using Some by (simp add: setPriority_def)
  qed
qed

lemma moved_rows:
  assumes "gc_wf rows"
  shows "moved rows c = map (\<lambda>r. if gc_ChassisName r = c \<and> wanted (gc_Priority r)
    then r\<lparr>gc_Priority := target\<rparr> else r) rows"
  using setPriority_moved [OF assms] by (simp add: moved_def)

lemma moved_settled:
  assumes "gc_wf rows"
  shows "fst (candidates (moved rows c) c) = []"
proof -
  have "\<not> (gc_ChassisName q = c \<and> wanted (gc_Priority q))" if "q \<in> set (moved rows c)" for q
  proof -
    obtain r where "q = (if gc_ChassisName r = c \<and> wanted (gc_Priority r)
        then r\<lparr>gc_Priority := target\<rparr> else r)"
      using \<open>q \<in> set (moved rows c)\<close> unfolding moved_rows [OF assms] by force
    then show ?thesis using settled by simp
  qed
  then show ?thesis by (simp add: selects filter_empty_conv)
qed

lemma moved_others:
  assumes "gc_wf rows"
  shows "filter (\<lambda>g. gc_ChassisName g \<noteq> c) (moved rows c) = filter (\<lambda>g. gc_ChassisName g \<noteq> c) rows"
  unfolding moved_rows [OF assms] by (rule filter_map_id) simp_all

end

interpretation drain: priority_move filterDrainCandidates "\<lambda>p. p > 0" 0
proof
  fix rows c
  show "fst (filterDrainCandidates rows c) = filter (\<lambda>g. gc_ChassisName g = c \<and> gc_Priority g > 0) rows"
    by (induction rows c rule: filterDrainCandidates.induct) (auto simp: case_prod_beta)
  show "snd (filterDrainCandidates rows c) \<longleftrightarrow> (\<exists>g\<in>set rows. gc_ChassisName g = c)"
    by (induction rows c rule: filterDrainCandidates.induct) (auto simp: case_prod_beta)
qed simp

interpretation restore: priority_move filterRestoreCandidates "\<lambda>p. p = 0" 1
proof
  fix rows c
  show "fst (filterRestoreCandidates rows c) = filter (\<lambda>g. gc_ChassisName g = c \<and> gc_Priority g = 0) rows"
    by (induction rows c rule: filterRestoreCandidates.induct) (auto simp: case_prod_beta)
  show "snd (filterRestoreCandidates rows c) \<longleftrightarrow> (\<exists>g\<in>set rows. gc_ChassisName g = c)"
    by (induction rows c rule: filterRestoreCandidates.induct) (auto simp: case_prod_beta)
qed simp

section \<open>The protocol of a group\<close>

text \<open>
  The chassis of one HA group run the three operations independently, and OVN (northd) elects: it
  binds the port to a chassis whose row has the highest priority. A run is a sequence of such
  steps in any order.
\<close>

record ha =
  ha_rows :: "NBGatewayChassis list"
  ha_active :: string

datatype ha_act = HBoost | HDrain string | HRestore string | HElect string

inductive ha_step :: "string \<Rightarrow> ha \<Rightarrow> ha_act \<Rightarrow> ha \<Rightarrow> bool" for lrp where
  boost: "visit_order ord \<Longrightarrow> ha_step lrp h HBoost
     (h\<lparr>ha_rows := map (setPriority (boostRows ord [lrp] (ha_active h) (ha_rows h) None [])) (ha_rows h)\<rparr>)"
| drain: "ha_step lrp h (HDrain c) (h\<lparr>ha_rows := drain.moved (ha_rows h) c\<rparr>)"
| restore: "ha_step lrp h (HRestore c) (h\<lparr>ha_rows := restore.moved (ha_rows h) c\<rparr>)"
| elect: "\<lbrakk>l \<in> set (ha_rows h); lrpOf l = lrp; gc_ChassisName l = c;
     \<And>p. p \<in> set (ha_rows h) \<Longrightarrow> lrpOf p = lrp \<Longrightarrow> gc_Priority p \<le> gc_Priority l\<rbrakk>
     \<Longrightarrow> ha_step lrp h (HElect c) (h\<lparr>ha_active := c\<rparr>)"

inductive ha_run :: "string \<Rightarrow> ha \<Rightarrow> ha_act list \<Rightarrow> ha \<Rightarrow> bool" for lrp where
  run_nil: "ha_run lrp h [] h"
| run_step: "ha_run lrp h acts h' \<Longrightarrow> ha_step lrp h' a h'' \<Longrightarrow> ha_run lrp h (acts @ [a]) h''"

inductive_cases ha_boostE: "ha_step lrp h HBoost h'"
inductive_cases ha_drainE: "ha_step lrp h (HDrain c) h'"
inductive_cases ha_restoreE: "ha_step lrp h (HRestore c) h'"
inductive_cases ha_electE: "ha_step lrp h (HElect c) h'"

lemma gc_wf_setPriority [simp]: "gc_wf (map (setPriority ups) rows) = gc_wf rows"
  by (simp add: gc_wf_def comp_def)

lemma moved_setPriority:
  "\<exists>ups. drain.moved rows c = map (setPriority ups) rows" "\<exists>ups. restore.moved rows c = map (setPriority ups) rows"
  unfolding drain.moved_def restore.moved_def by blast+

lemma ha_step_wf: "ha_step lrp h a h' \<Longrightarrow> gc_wf (ha_rows h) \<Longrightarrow> gc_wf (ha_rows h')"
  by (cases rule: ha_step.cases, assumption)
    (auto simp: drain.moved_def restore.moved_def)

lemma leads_boost_row:
  assumes wf: "gc_wf rows" and l: "leads a lrp rows"
    and r: "r \<in> set rows" "gc_ChassisName r = a" "lrpOf r = lrp"
  shows "boostRow None [] a lrp (groupOf a lrp rows) = None"
proof -
  have lead: "2 \<le> gc_Priority r" "\<And>p. p \<in> set rows \<Longrightarrow> lrpOf p = lrp \<Longrightarrow> gc_ChassisName p \<noteq> a \<Longrightarrow>
      gc_Priority p < gc_Priority r"
    using l r gc_wfD(2) [OF wf] unfolding leads_def by metis+
  have "hg_maxPeer (groupOf a lrp rows) < gc_Priority r"
  proof (cases "hg_maxPeer (groupOf a lrp rows) = - 1")
    case False
    then have "hg_maxPeer (groupOf a lrp rows) \<in> set (map gc_Priority (peers a (rowsOf lrp rows)))"
      using fold_max_in [of "map gc_Priority (peers a (rowsOf lrp rows))" "- 1"]
      by (simp add: groupOf_def addRow_max newGroup_def)
    then show ?thesis using lead(2) by (auto simp: peers_def rowsOf_set)
  qed (use lead in simp)
  then show ?thesis
    using lead(1) groupOf_local_unique [OF wf r(1,3,2)] by (simp add: boostRow_def minActivePriority_def)
qed

lemma leads_boost:
  assumes "gc_wf rows" "leads a lrp rows" "visit_order ord"
  shows "map (setPriority (boostRows ord [lrp] a rows None [])) rows = rows"
proof (rule map_idI)
  fix r assume "r \<in> set rows"
  then show "setPriority (boostRows ord [lrp] a rows None []) r = r"
    using setPriority_boost [OF assms(3,1)] leads_boost_row [OF assms(1,2)] by auto
qed

lemma leads_update:
  assumes "leads a lrp rows"
    and "\<And>r. r \<in> set rows \<Longrightarrow> gc_ChassisName (f r) = gc_ChassisName r \<and> lrpOf (f r) = lrpOf r"
    and "\<And>r. r \<in> set rows \<Longrightarrow> gc_ChassisName r = a \<Longrightarrow> 2 \<le> gc_Priority r \<Longrightarrow> f r = r"
    and "\<And>r. r \<in> set rows \<Longrightarrow> gc_ChassisName r \<noteq> a \<Longrightarrow> gc_Priority (f r) \<le> max 1 (gc_Priority r)"
  shows "leads a lrp (map f rows)"
proof -
  obtain l where l: "l \<in> set rows" "lrpOf l = lrp" "gc_ChassisName l = a" "2 \<le> gc_Priority l"
    "\<And>p. p \<in> set rows \<Longrightarrow> lrpOf p = lrp \<Longrightarrow> gc_ChassisName p \<noteq> a \<Longrightarrow> gc_Priority p < gc_Priority l"
    using assms(1) unfolding leads_def by blast
  have "gc_Priority (f p) < gc_Priority l" if "p \<in> set rows" "lrpOf p = lrp" "gc_ChassisName p \<noteq> a" for p
    using assms(4) [OF that(1,3)] l(4) l(5) [OF that] by simp
  moreover have "f l = l" using assms(3) l by simp
  then have "l \<in> set (map f rows)" using l(1) by (metis image_eqI list.set_map)
  ultimately show ?thesis
    unfolding leads_def using l assms(2) by (intro bexI [of _ l]) auto
qed

lemma ha_step_leads:
  assumes "ha_step lrp h a h'" "gc_wf (ha_rows h)" "leads (ha_active h) lrp (ha_rows h)"
    and "a \<noteq> HDrain (ha_active h)"
  shows "ha_active h' = ha_active h \<and> leads (ha_active h) lrp (ha_rows h')"
proof (cases a)
  case HBoost
  with assms show ?thesis by (auto elim!: ha_boostE simp: leads_boost)
next
  case (HDrain c)
  with assms have h': "h' = h\<lparr>ha_rows := drain.moved (ha_rows h) c\<rparr>" "c \<noteq> ha_active h"
    by (auto elim: ha_drainE)
  then show ?thesis
    using assms(3) by (auto simp: drain.moved_rows [OF assms(2)] intro!: leads_update)
next
  case (HRestore c)
  with assms have h': "h' = h\<lparr>ha_rows := restore.moved (ha_rows h) c\<rparr>" by (auto elim: ha_restoreE)
  then show ?thesis
    using assms(3) by (auto simp: restore.moved_rows [OF assms(2)] intro!: leads_update)
next
  case (HElect c)
  with assms(1) obtain l where l: "h' = h\<lparr>ha_active := c\<rparr>" "l \<in> set (ha_rows h)" "lrpOf l = lrp"
    "gc_ChassisName l = c" "\<And>p. p \<in> set (ha_rows h) \<Longrightarrow> lrpOf p = lrp \<Longrightarrow> gc_Priority p \<le> gc_Priority l"
    by (auto elim: ha_electE)
  have "c = ha_active h"
    using assms(3) l(2-5) unfolding leads_def by (metis not_less)
  with l(1) assms(3) show ?thesis by simp
qed


text \<open>
  C26. A drain gives the gateway away: after the chassis has drained its rows, if some other chassis
  of the group stands by with a positive priority, no election can choose the drained chassis, until
  its priority is raised again.
\<close>

theorem drain_moves_away:
  assumes "gc_wf (ha_rows h)" "standby \<in> set (ha_rows h)" "lrpOf standby = lrp"
    and "gc_ChassisName standby \<noteq> c" "0 < gc_Priority standby"
    and "ha_step lrp h (HDrain c) h'" "ha_step lrp h' (HElect d) h''"
  shows "d \<noteq> c \<and> ha_active h'' = d"
proof -
  have h': "ha_rows h' = drain.moved (ha_rows h) c" using assms(6) by (auto elim: ha_drainE)
  have rows: "ha_rows h' = map (\<lambda>r. if gc_ChassisName r = c \<and> 0 < gc_Priority r
      then r\<lparr>gc_Priority := 0\<rparr> else r) (ha_rows h)"
    unfolding h' by (rule drain.moved_rows [OF assms(1)])
  obtain l where l: "h'' = h'\<lparr>ha_active := d\<rparr>" "l \<in> set (ha_rows h')" "gc_ChassisName l = d"
    "\<And>p. p \<in> set (ha_rows h') \<Longrightarrow> lrpOf p = lrp \<Longrightarrow> gc_Priority p \<le> gc_Priority l"
    using assms(7) by (auto elim: ha_electE)
  have "standby \<in> set (ha_rows h')"
    unfolding rows set_map using assms(2,4) by (intro image_eqI [of _ _ standby]) simp_all
  from less_le_trans [OF assms(5) l(4) [OF this assms(3)]] have pos: "0 < gc_Priority l" .
  obtain r where "l = (if gc_ChassisName r = c \<and> 0 < gc_Priority r then r\<lparr>gc_Priority := 0\<rparr> else r)"
    using l(2) unfolding rows set_map by blast
  with pos l(3) have "d \<noteq> c" by (auto split: if_splits)
  with l(1) show ?thesis by simp
qed

section \<open>What is sent\<close>

text \<open>Priority updates of rows of one chassis whose new value is in \<open>Q\<close>, and selects.\<close>

fun prio_op :: "string \<Rightarrow> (NBGatewayChassis \<Rightarrow> bool) \<Rightarrow> ovsop \<Rightarrow> bool" where
  "prio_op c Q (OpUpdate (RowGwc g) cols) = (cols = [''priority''] \<and> gc_ChassisName g = c \<and> Q g)"
| "prio_op c Q (OpSelect t cs w) = True"
| "prio_op c Q _ = False"

lemma emits_selectLocal [emits_intros]:
  "emits (ops_ev (prio_op c Q)) (selectLocalGatewayChassis E local)"
  unfolding selectLocalGatewayChassis_def Let_def by (intro emits_intros) simp

lemma emits_selectCR [emits_intros]: "emits (ops_ev (prio_op c Q)) (selectCRPortChassis E)"
  unfolding selectCRPortChassis_def Let_def by (intro emits_intros emits_directSelect_ops) simp_all

lemma emits_listGC [emits_intros]: "P (EvQuery [''list'', ''Gateway_Chassis'']) \<Longrightarrow> emits P (listGatewayChassis E)"
  unfolding listGatewayChassis_def by (intro emits_intros)

lemma emits_pollDrain:
  assumes "\<And>q. P (EvQuery q)" "\<And>t cols. P (EvNb [OpSelect t cols None])"
    "\<And>t cols. P (EvSb [OpSelect t cols None])"
  shows "emits P (pollDrain cfg E local ticks)"
proof (induction ticks)
  have c: "emits P (countLocalCRPorts cfg E local)"
    unfolding countLocalCRPorts_def by (intro emits_intros assms)
  have w: "emits P (settleAfterDrain cfg E)"
    unfolding settleAfterDrain_def by (intro emits_intros assms)
  case 0
  show ?case by (subst pollDrain.simps) (auto intro!: emits_intros c w)
  case (Suc n)
  then show ?case
    by (subst pollDrain.simps) (auto intro!: emits_intros c w assms)
qed

lemma buildable_subset: "list_all P ops \<Longrightarrow> list_all P (buildable E ops)"
  by (auto simp: buildable_def list_all_iff)

lemma drain_ops_ok:
  "list_all (prio_op local (\<lambda>g. gc_Priority g = 0))
     (buildable E (map (\<lambda>g. prioOp (g\<lparr>gc_Priority := 0\<rparr>)) (fst (filterDrainCandidates rows local))))"
  by (intro buildable_subset) (auto simp: list_all_iff prioOp_def drain.selects)

lemma restore_ops_ok:
  "list_all (prio_op local (\<lambda>g. gc_Priority g = 1))
     (buildable E (map (\<lambda>g. prioOp (g\<lparr>gc_Priority := 1\<rparr>)) (fst (filterRestoreCandidates rows local))))"
  by (intro buildable_subset) (auto simp: list_all_iff prioOp_def restore.selects)

lemma boost_ops_ok:
  assumes "visit_order ord"
  shows "list_all (prio_op local (\<lambda>g. 2 \<le> gc_Priority g \<and> lrpOf g \<in> set active))
     (buildable E (map prioOp (boostRows ord active local rows cr crp)))"
proof (intro buildable_subset)
  have "2 \<le> gc_Priority u" if "u \<in> set (boostRows ord active local rows cr crp)" for u
    using that boostRow_SomeD unfolding boostRows_mem [OF assms] by blast
  then show "list_all (prio_op local (\<lambda>g. 2 \<le> gc_Priority g \<and> lrpOf g \<in> set active))
      (map prioOp (boostRows ord active local rows cr crp))"
    using no_boost_elsewhere [OF assms] by (auto simp: list_all_iff prioOp_def)
qed

text \<open>The candidates either come from the cache or from the server; both are filtered.\<close>

lemma run_candidates:
  assumes "pure_log sel"
  shows "outcome (let (xs, found) = flt cached local in
      if found then ret (Inr xs)
      else do { sr \<leftarrow> sel; ret (case sr of Inl e \<Rightarrow> Inl (h e) | Inr rows \<Rightarrow> Inr (fst (flt rows local))) }) s = Inr ys
    \<Longrightarrow> \<exists>rows. ys = fst (flt rows local)"
proof -
  assume out: "outcome (let (xs, found) = flt cached local in
      if found then ret (Inr xs)
      else do { sr \<leftarrow> sel; ret (case sr of Inl e \<Rightarrow> Inl (h e) | Inr rows \<Rightarrow> Inr (fst (flt rows local))) }) s = Inr ys"
  obtain xs found where flt: "flt cached local = (xs, found)" by (cases "flt cached local")
  then have xs: "xs = fst (flt cached local)" by simp
  show ?thesis
  proof (cases found)
    case True
    with out flt have "ys = xs" by simp
    with xs show ?thesis by blast
  next
    case False
    then show ?thesis
      using out flt by (cases "outcome sel s") (auto simp: run_bind assms emits_ret)
  qed
qed

lemma pure_selectLocal: "pure_log (selectLocalGatewayChassis E local)"
  unfolding selectLocalGatewayChassis_def Let_def by (intro emits_intros; simp)

lemma emits_candidates:
  "emits P (selectLocalGatewayChassis E local) \<Longrightarrow>
   emits P (let (xs, found) = flt cached local in
      if found then ret (Inr xs)
      else do { sr \<leftarrow> selectLocalGatewayChassis E local;
                ret (case sr of Inl e \<Rightarrow> Inl (h e) | Inr rows \<Rightarrow> Inr (fst (flt rows local))) })"
  by (auto intro!: emits_intros simp: Let_def)

lemma emits_DrainGateways:
  "emits (ops_ev (prio_op local (\<lambda>g. gc_Priority g = 0))) (DrainGateways cfg E local ticks)"
  unfolding DrainGateways_def
proof (rule emits_bind, rule emits_listGC, simp, rule emits_sum, rule emits_ret)
  fix cached
  show "emits (ops_ev (prio_op local (\<lambda>g. gc_Priority g = 0)))
    (do { m \<leftarrow> (let (toDrain, hasLocalRow) = filterDrainCandidates cached local in
               if hasLocalRow then ret (Inr toDrain)
               else do { sr \<leftarrow> selectLocalGatewayChassis E local;
                         ret (case sr of
                           Inl e \<Rightarrow> Inl (ErrWrap ''drain: cache miss + NB select fallback failed'' e)
                         | Inr rows \<Rightarrow> Inr (fst (filterDrainCandidates rows local))) });
          case m of Inl e \<Rightarrow> ret (Some e) | Inr toDrain \<Rightarrow>
          if toDrain = [] then ret None else
          let ops = buildable E (map (\<lambda>g. prioOp (g\<lparr>gc_Priority := 0\<rparr>)) toDrain) in
     do { e \<leftarrow> (if ops \<noteq> [] then transactOps E ops else ret None);
          case e of
            Some err \<Rightarrow> ret (Some (ErrWrap ''drain: failed to lower gateway chassis priorities'' err))
          | None \<Rightarrow> pollDrain cfg E local ticks } })" (is "emits ?P (State_Monad.bind ?m ?f)")
  proof (rule emits_bind_post [where Q = "\<lambda>x. \<forall>ys. x = Inr ys \<longrightarrow> (\<exists>rows. ys = fst (filterDrainCandidates rows local))"])
    show "emits ?P ?m" by (intro emits_candidates emits_selectLocal)
    show "\<forall>ys. outcome ?m s = Inr ys \<longrightarrow> (\<exists>rows. ys = fst (filterDrainCandidates rows local))" for s
      by (intro allI impI, erule run_candidates [OF pure_selectLocal, where flt = filterDrainCandidates
            and h = "ErrWrap ''drain: cache miss + NB select fallback failed''"])
    fix x :: "goerr + NBGatewayChassis list"
    assume "\<forall>ys. x = Inr ys \<longrightarrow> (\<exists>rows. ys = fst (filterDrainCandidates rows local))"
    then show "emits ?P (?f x)"
      by (auto simp: Let_def drain_ops_ok intro!: emits_intros emits_pollDrain split: sum.split)
  qed
qed

lemma emits_Restore:
  "emits (ops_ev (prio_op local (\<lambda>g. gc_Priority g = 1))) (RestoreDrainedGateways E local)"
  unfolding RestoreDrainedGateways_def
proof (rule emits_bind, rule emits_listGC, simp, rule emits_sum, rule emits_ret)
  fix cached
  show "emits (ops_ev (prio_op local (\<lambda>g. gc_Priority g = 1)))
    (do { m \<leftarrow> (let (toRestore, hasLocalRow) = filterRestoreCandidates cached local in
               if hasLocalRow then ret (Inr toRestore)
               else do { sr \<leftarrow> selectLocalGatewayChassis E local;
                         ret (case sr of Inl e \<Rightarrow> Inl e
                              | Inr rows \<Rightarrow> Inr (fst (filterRestoreCandidates rows local))) });
          case m of Inl e \<Rightarrow> ret () | Inr toRestore \<Rightarrow>
          let ops = buildable E (map (\<lambda>g. prioOp (g\<lparr>gc_Priority := 1\<rparr>)) toRestore) in
          if ops = [] then ret ()
          else do { _ \<leftarrow> transactOps E ops; ret () } })" (is "emits ?P (State_Monad.bind ?m ?f)")
  proof (rule emits_bind_post [where Q = "\<lambda>x. \<forall>ys. x = Inr ys \<longrightarrow> (\<exists>rows. ys = fst (filterRestoreCandidates rows local))"])
    show "emits ?P ?m" by (intro emits_candidates [where h = "\<lambda>e. e"] emits_selectLocal)
    show "\<forall>ys. outcome ?m s = Inr ys \<longrightarrow> (\<exists>rows. ys = fst (filterRestoreCandidates rows local))" for s
      by (intro allI impI, erule run_candidates [OF pure_selectLocal, where flt = filterRestoreCandidates
            and h = "\<lambda>e. e"])
    fix x :: "goerr + NBGatewayChassis list"
    assume "\<forall>ys. x = Inr ys \<longrightarrow> (\<exists>rows. ys = fst (filterRestoreCandidates rows local))"
    then show "emits ?P (?f x)"
      by (auto simp: Let_def restore_ops_ok intro!: emits_intros split: sum.split)
  qed
qed

text \<open>
  C25. The three operations write priorities of this chassis' own rows and nothing else: a boost
  writes at least 2, and only for active router ports; a drain writes 0; a restore writes 1 -
  whatever OVN answers and in whatever order the groups are visited.
\<close>

theorem priority_writes:
  assumes "visit_order ord"
  shows "emits (ops_ev (prio_op local (\<lambda>g. 2 \<le> gc_Priority g \<and> lrpOf g \<in> set (map ri_LRPName routers))))
      (EnsureActivePriorityLead ord E routers local)
    \<and> emits (ops_ev (prio_op local (\<lambda>g. gc_Priority g = 0))) (DrainGateways cfg E local ticks)
    \<and> emits (ops_ev (prio_op local (\<lambda>g. gc_Priority g = 1))) (RestoreDrainedGateways E local)"
proof (intro conjI emits_DrainGateways emits_Restore)
  show "emits (ops_ev (prio_op local (\<lambda>g. 2 \<le> gc_Priority g \<and> lrpOf g \<in> set (map ri_LRPName routers))))
      (EnsureActivePriorityLead ord E routers local)"
    unfolding EnsureActivePriorityLead_def Let_def
    by (intro emits_intros) (simp_all add: boost_ops_ok [OF assms, where active = "map ri_LRPName routers", simplified])
qed

lemma trace_call_bind:
  "pure_log (f (fst (g s))) \<Longrightarrow>
   trace (State_Monad.bind (call e g) f) s = e # trace (f (fst (g s))) (snd (g s))"
  by (simp add: run_bind emits_intros)

lemma filter_writes_readonly: "emits read_only m \<Longrightarrow> filter writes (trace m s) = []"
  using emits_traceD [of read_only m] by (auto simp: filter_empty_conv read_only_def)

lemma buildable_all: "(\<And>op. e_build_err E op = None) \<Longrightarrow> buildable E ops = ops"
  by (simp add: buildable_def)


section \<open>Instances\<close>

definition demo_gwc :: "string \<Rightarrow> string \<Rightarrow> int \<Rightarrow> NBGatewayChassis" where
  "demo_gwc u chassis prio = zeroGatewayChassis\<lparr>gc_UUID := u, gc_ChassisName := chassis,
     gc_Name := ''lrp-1_'' @ chassis, gc_Priority := prio\<rparr>"

text \<open>Two chassis, tied at priority 1, as after a restart of the peer.\<close>

definition demo_tie :: "NBGatewayChassis list" where
  "demo_tie = [demo_gwc ''g1'' ''n1'' 1, demo_gwc ''g2'' ''n2'' 1]"

definition demo_led :: "NBGatewayChassis list" where
  "demo_led = [demo_gwc ''g1'' ''n1'' 2, demo_gwc ''g2'' ''n2'' 1]"

lemma demo_gwc_sel [simp]:
  "gc_UUID (demo_gwc u c p) = u" "gc_ChassisName (demo_gwc u c p) = c" "gc_Priority (demo_gwc u c p) = p"
  "lrpOf (demo_gwc u c p) = ''lrp-1''"
proof -
  have "TrimSuffix (''lrp-1'' @ ''_'' @ c) (''_'' @ c) = ''lrp-1''" by (rule TrimSuffix_append)
  then show "lrpOf (demo_gwc u c p) = ''lrp-1''" by (simp add: lrpOf_def demo_gwc_def)
qed (simp_all add: demo_gwc_def)

lemma demo_wf: "gc_wf demo_tie" "gc_wf demo_led"
  by (simp_all add: gc_wf_def demo_tie_def demo_led_def)

theorem boost_establishes_lead_witness:
  "leads ''n1'' ''lrp-1'' (map (setPriority (boostRows rev [''lrp-1''] ''n1'' demo_tie None [])) demo_tie)"
proof -
  have "leads ''n1'' ''lrp-1'' (map (setPriority (boostRows rev [''lrp-1''] ''n1'' demo_tie None [])) demo_tie)
    \<and> filter (\<lambda>g. gc_ChassisName g \<noteq> ''n1'') (map (setPriority (boostRows rev [''lrp-1''] ''n1'' demo_tie None [])) demo_tie)
      = filter (\<lambda>g. gc_ChassisName g \<noteq> ''n1'') demo_tie"
    by (rule boost_establishes_lead [where l = "demo_gwc ''g1'' ''n1'' 1" and peer = "demo_gwc ''g2'' ''n2'' 1"])
      (simp_all add: demo_wf, simp_all add: demo_tie_def boundElsewhere_def)
  then show ?thesis by blast
qed

lemma demo_leads: "leads ''n1'' ''lrp-1'' demo_led"
  by (simp add: leads_def demo_led_def)

definition demo_ha :: ha where
  "demo_ha = \<lparr>ha_rows = demo_led, ha_active = ''n1''\<rparr>"


theorem drain_moves_away_witness:
  "\<exists>h' h''. ha_step ''lrp-1'' demo_ha (HDrain ''n1'') h' \<and> ha_step ''lrp-1'' h' (HElect ''n2'') h''
     \<and> ''n2'' \<noteq> ''n1'' \<and> ha_active h'' = ''n2''"
proof -
  define h' where "h' = demo_ha\<lparr>ha_rows := drain.moved (ha_rows demo_ha) ''n1''\<rparr>"
  have d: "ha_step ''lrp-1'' demo_ha (HDrain ''n1'') h'" unfolding h'_def by (rule ha_step.drain)
  have rows: "ha_rows h' = [(demo_gwc ''g1'' ''n1'' 2)\<lparr>gc_Priority := 0\<rparr>, demo_gwc ''g2'' ''n2'' 1]"
    by (simp add: h'_def demo_ha_def drain.moved_rows [OF demo_wf(2)]) (simp add: demo_led_def)
  have e: "ha_step ''lrp-1'' h' (HElect ''n2'') (h'\<lparr>ha_active := ''n2''\<rparr>)"
    by (rule ha_step.elect [of "demo_gwc ''g2'' ''n2'' 1"]) (auto simp: rows)
  have "''n2'' \<noteq> ''n1'' \<and> ha_active (h'\<lparr>ha_active := ''n2''\<rparr>) = ''n2''"
    by (rule drain_moves_away [OF _ _ _ _ _ d e, of "demo_gwc ''g2'' ''n2'' 1"])
      (simp_all add: demo_ha_def demo_wf, simp_all add: demo_led_def)
  with d e show ?thesis by blast
qed

theorem priority_writes_witness:
  "emits (ops_ev (prio_op ''n1'' (\<lambda>g. gc_Priority g = 0))) (DrainGateways defaultConfig quiet_ovn ''n1'' 5)"
  using priority_writes [of "\<lambda>xs. xs" "''n1''" "[]" quiet_ovn defaultConfig 5] by simp

definition led_ovn :: "unit ovnenv" where
  "led_ovn = quiet_ovn\<lparr>e_list_gc := \<lambda>s. (Inr demo_led, s)\<rparr>"


text \<open>Without the boost a restore alone makes a tie, which leaves the election open.\<close>

lemma restore_makes_tie:
  "restore.moved [demo_gwc ''g1'' ''n1'' 1, demo_gwc ''g2'' ''n2'' 0] ''n2'' =
     [demo_gwc ''g1'' ''n1'' 1, (demo_gwc ''g2'' ''n2'' 0)\<lparr>gc_Priority := 1\<rparr>]"
proof -
  have "gc_wf [demo_gwc ''g1'' ''n1'' 1, demo_gwc ''g2'' ''n2'' 0]" by (simp add: gc_wf_def)
  from restore.moved_rows [OF this] show ?thesis by simp
qed

end
