(* ===== verification/Agent.thy ===== *)
theory Agent
  imports PortForward Drain
begin

text \<open>
  The agent (\<open>agent.go\<close>): desired addresses, the routes of the bridge and of FRR, the
  reconciliation cycle, the clean-up of stale chassis, start-up and shutdown. The OVN client of
  the source enters as its state snapshot and its environment \<open>D\<close>; log lines are left out, and
  what is recorded as metrics is in Metrics. The orders in which Go visits its maps are the argument \<open>ords\<close>.
\<close>

section \<open>State\<close>

record Agent =
  a_cfg :: Config
  a_routing :: RouteManager
  a_effectiveFilters :: "ipnet list"
  a_consecutiveReAdds :: nat
  a_missingChassis :: "(string, int) gomap"
  a_staleCleanupJitter :: int

definition NewAgent :: "Config \<Rightarrow> int \<Rightarrow> Agent" where
  "NewAgent cfg jitter = \<lparr>a_cfg = cfg, a_routing = NewRouteManager cfg, a_effectiveFilters = [],
     a_consecutiveReAdds = 0, a_missingChassis = [], a_staleCleanupJitter = jitter\<rparr>"

record orders =
  od_pairs :: "(string \<times> string) list \<Rightarrow> (string \<times> string) list"
  od_keys :: "nat \<Rightarrow> string list \<Rightarrow> string list"

section \<open>Desired addresses\<close>

definition uniqueIPs :: "string list \<Rightarrow> string list" where
  "uniqueIPs ips = sort (dedup_by (\<lambda>ip. ip) [] (filter (\<lambda>ip. ip \<noteq> []) (map TrimSpace ips)))"

definition lrpAddresses :: "LocalRouterInfo \<Rightarrow> (string \<times> string) list" where
  "lrpAddresses lr = List.map_filter (\<lambda>cidr. case ParseCIDR cidr of None \<Rightarrow> None
     | Some (ip, n) \<Rightarrow> if ri_LRPMAC lr \<noteq> [] then Some (ipString ip, ri_LRPMAC lr) else None)
     (ri_LRPNetworks lr)"

definition hairpinMACMap :: "OVNState \<Rightarrow> (string, string) gomap" where
  "hairpinMACMap st = upd_all (concat (map lrpAddresses (s_LocalRouters st))) (s_NATIPToRouterMAC st)"

definition hairpinIPs :: "OVNState \<Rightarrow> string list" where
  "hairpinIPs st = sort (map_keys (hairpinMACMap st))"

definition desiredIPs :: "Config \<Rightarrow> OVNState \<Rightarrow> string list" where
  "desiredIPs cfg st = uniqueIPs (hairpinIPs st @ map v_VIP (c_PortForwards cfg))"

definition computeEffectiveNetworks :: "Config \<Rightarrow> ipnet list \<Rightarrow> ipnet list" where
  "computeEffectiveNetworks cfg discovered = effectiveNetworkFilters (c_NetworkFilters cfg) discovered"

definition isManaged :: "Agent \<Rightarrow> string \<Rightarrow> bool" where
  "isManaged a ip =
     (if a_effectiveFilters a = [] then True
      else case ParseIP ip of None \<Rightarrow> False | Some p \<Rightarrow> containedInAny p (a_effectiveFilters a))"

section \<open>Routes\<close>

definition manageKernel :: "Agent \<Rightarrow> bool" where
  "manageKernel a \<longleftrightarrow> \<not> c_PortForwardOnly (a_cfg a)"

text \<open>A listing whose error is only logged: nothing was found.\<close>

definition listedKernel :: "'s sysenv \<Rightarrow> Agent \<Rightarrow> ('s, string list) io" where
  "listedKernel E a =
     (if manageKernel a
      then do { r \<leftarrow> ListKernelRoutes E (a_routing a);
                ret (case r of Inl err \<Rightarrow> [] | Inr ips \<Rightarrow> ips) }
      else ret [])"

definition listedFRR :: "'s sysenv \<Rightarrow> Agent \<Rightarrow> ('s, string list) io" where
  "listedFRR E a =
     do { r \<leftarrow> ListFRRRoutes E (a_routing a);
          ret (case r of Inl err \<Rightarrow> [] | Inr ips \<Rightarrow> ips) }"

definition verifyRoutes :: "'s sysenv \<Rightarrow> Agent \<Rightarrow> string list \<Rightarrow> ('s, nat \<times> Agent) io" where
  "verifyRoutes E a desired =
     do { f \<leftarrow> ListFRRRoutes E (a_routing a);
          case f of Inl err \<Rightarrow> ret (0, a) | Inr frr \<Rightarrow>
     do { k \<leftarrow> (if manageKernel a then ListKernelRoutes E (a_routing a) else ret (Inr []));
          case k of Inl err \<Rightarrow> ret (0, a) | Inr kern \<Rightarrow>
          let managedIPs = filter (isManaged a) desired;
              reAddFRR = filter (\<lambda>ip. \<not> has frr ip) managedIPs;
              reAddKernel = filter (\<lambda>ip. manageKernel a \<and> \<not> has kern ip) managedIPs;
              total = length reAddFRR + length reAddKernel
          in do { _ \<leftarrow> for_each (\<lambda>ip. ignoring (AddKernelRoute E (a_routing a) ip)) reAddKernel;
                  _ \<leftarrow> (if reAddFRR \<noteq> [] then ignoring (AddFRRRoutes E (a_routing a) reAddFRR) else ret ());
                  ret (total, a\<lparr>a_consecutiveReAdds := (if total > 0 then a_consecutiveReAdds a + 1 else 0)\<rparr>) } } }"

text \<open>The stale addresses: of the kernel first, then those only FRR has.\<close>

definition staleKernel :: "Agent \<Rightarrow> string list \<Rightarrow> string list \<Rightarrow> string list" where
  "staleKernel a desired kern = filter (\<lambda>ip. \<not> has desired ip \<and> isManaged a ip) kern"

definition orphanedFRR :: "Agent \<Rightarrow> string list \<Rightarrow> string list \<Rightarrow> string list \<Rightarrow> string list" where
  "orphanedFRR a desired kern frr =
     filter (\<lambda>ip. \<not> has desired ip \<and> isManaged a ip \<and> \<not> has (staleKernel a desired kern) ip) frr"

definition ensureRoutes :: "'s sysenv \<Rightarrow> Agent \<Rightarrow> string list \<Rightarrow> ('s, Agent) io" where
  "ensureRoutes E a desired =
     do { kern \<leftarrow> listedKernel E a;
          frr \<leftarrow> listedFRR E a;
          let addKernel = filter (\<lambda>ip. manageKernel a \<and> \<not> has kern ip) desired;
              addFRR = filter (\<lambda>ip. \<not> has frr ip) desired;
              delKernel = staleKernel a desired kern;
              delFRR = delKernel @ orphanedFRR a desired kern frr
          in do { _ \<leftarrow> for_each (\<lambda>ip. ignoring (AddKernelRoute E (a_routing a) ip)) addKernel;
                  _ \<leftarrow> (if addFRR \<noteq> [] then ignoring (AddFRRRoutes E (a_routing a) addFRR) else ret ());
                  _ \<leftarrow> (if delFRR \<noteq> [] then ignoring (DelFRRRoutes E (a_routing a) delFRR) else ret ());
                  _ \<leftarrow> for_each (\<lambda>ip. ignoring (DelKernelRoute E (a_routing a) ip)) delKernel;
                  if addFRR \<noteq> [] \<or> delFRR \<noteq> []
                  then do { _ \<leftarrow> ignoring (RefreshBGP E (a_routing a));
                            r \<leftarrow> verifyRoutes E a desired; ret (snd r) }
                  else ret a } }"

definition removeAllRoutes :: "'s sysenv \<Rightarrow> Agent \<Rightarrow> ('s, unit) io" where
  "removeAllRoutes E a =
     do { frr \<leftarrow> listedFRR E a;
          let delFRR = filter (isManaged a) frr
          in do { _ \<leftarrow> (if delFRR \<noteq> [] then ignoring (DelFRRRoutes E (a_routing a) delFRR) else ret ());
                  kern \<leftarrow> listedKernel E a;
                  _ \<leftarrow> for_each (\<lambda>ip. ignoring (DelKernelRoute E (a_routing a) ip)) (filter (isManaged a) kern);
                  if delFRR \<noteq> [] then ignoring (RefreshBGP E (a_routing a)) else ret () } }"

definition checkFRRRouteActivity ::
  "(string \<Rightarrow> frrTable result) \<Rightarrow> 's sysenv \<Rightarrow> Agent \<Rightarrow> string list \<Rightarrow> ('s, unit) io" where
  "checkFRRRouteActivity unmarshal E a desired =
     do { r \<leftarrow> InactiveFRRRoutes unmarshal E (a_routing a) desired; ret () }"

section \<open>Stale chassis\<close>

text \<open>
  The tracker after one look: chassis that are back are forgotten, newly missing ones get the
  current time, and those no managed route refers to any more are dropped.
\<close>

definition trackMissing ::
  "int \<Rightarrow> string list \<Rightarrow> string list \<Rightarrow> (string, int) gomap \<Rightarrow> (string, int) gomap" where
  "trackMissing now referenced present missing =
     filter (\<lambda>(c, t). has referenced c)
       (fold (\<lambda>c m. if has present c then AList.delete c m
                     else if map_of m c = None then AList.update c now m else m) referenced missing)"

definition overdue :: "int \<Rightarrow> int \<Rightarrow> (string, int) gomap \<Rightarrow> string list" where
  "overdue now grace missing = map fst (filter (\<lambda>(c, t). now - t \<ge> grace) missing)"

definition forget :: "string list \<Rightarrow> (string, int) gomap \<Rightarrow> (string, int) gomap" where
  "forget cs m = filter (\<lambda>(c, t). \<not> has cs c) m"

definition cleanupStaleChassis ::
  "'s sysenv \<Rightarrow> 's ovnenv \<Rightarrow> Agent \<Rightarrow> string list \<Rightarrow> ('s, Agent) io" where
  "cleanupStaleChassis E D a allChassis =
     (if c_StaleChassisGracePeriod (a_cfg a) \<le> 0 then ret a
      else do { r \<leftarrow> ListManagedRouteChassis D;
                case r of None \<Rightarrow> ret a | Some referenced \<Rightarrow>
           do { now \<leftarrow> Now E;
                let missing = trackMissing now referenced allChassis (a_missingChassis a);
                    stale = overdue now (c_StaleChassisGracePeriod (a_cfg a) + a_staleCleanupJitter a) missing
                in if stale = [] then ret (a\<lparr>a_missingChassis := missing\<rparr>)
                   else do { e \<leftarrow> CleanupStaleChassisManagedEntries D stale;
                             ret (a\<lparr>a_missingChassis := (case e of Some err \<Rightarrow> missing
                                                          | None \<Rightarrow> forget stale missing)\<rparr>) } } })"

section \<open>The reconciliation cycle\<close>

text \<open>The case of locally active routers: the OVS cache may change, every error is only logged.\<close>

definition reconcileActive ::
  "orders \<Rightarrow> 's sysenv \<Rightarrow> 's ovnenv \<Rightarrow> OVNState \<Rightarrow> ipnet list \<Rightarrow> RouteManager \<Rightarrow> ('s, RouteManager) io" where
  "reconcileActive ords E D st filters rm0 =
     do { (_, rm) \<leftarrow> EnsureOVSFlows E rm0;
          _ \<leftarrow> ignoring (ReconcileOVSHairpinFlows (od_pairs ords) E rm (hairpinMACMap st));
          bridgeMAC \<leftarrow> (if rm_cachedBridgeMAC rm \<noteq> [] then ret (rm_cachedBridgeMAC rm)
            else do { m \<leftarrow> GetBridgeMAC E rm; ret (case m of Inl err \<Rightarrow> [] | Inr mac \<Rightarrow> mac) });
          _ \<leftarrow> (if bridgeMAC \<noteq> []
                then ignoring (EnsureGatewayRouting D (s_LocalChassisName st) (s_LocalRouters st) bridgeMAC)
                else ret ());
          _ \<leftarrow> ignoring (EnsureActivePriorityLead (od_keys ords 4) D (s_LocalRouters st) (s_LocalChassisName st));
          _ \<leftarrow> ignoring (ReconcileVethLeakNetworks (od_keys ords) E rm filters);
          _ \<leftarrow> ignoring (ReconcileFRRPrefixList (od_keys ords 3) E rm filters);
          ret rm }"

definition reconcileIdle :: "orders \<Rightarrow> 's sysenv \<Rightarrow> RouteManager \<Rightarrow> ('s, unit) io" where
  "reconcileIdle ords E rm =
     do { _ \<leftarrow> ignoring (ReconcileVethLeakNetworks (od_keys ords) E rm []);
          _ \<leftarrow> ignoring (ReconcileFRRPrefixList (od_keys ords 3) E rm []);
          ignoring (ReconcileOVSHairpinFlows (od_pairs ords) E rm []) }"

text \<open>Without an OVN client the cycle runs on the zero state.\<close>

definition cycleState :: "Agent \<Rightarrow> OVNState \<Rightarrow> OVNState" where
  "cycleState a st = (if c_PortForwardOnly (a_cfg a) then newOVNState else GetState st)"

definition reconcileGateway ::
  "orders \<Rightarrow> 's sysenv \<Rightarrow> 's ovnenv \<Rightarrow> OVNState \<Rightarrow> Agent \<Rightarrow> ('s, RouteManager) io" where
  "reconcileGateway ords E D st a =
     (if c_PortForwardOnly (a_cfg a) then ret (a_routing a)
      else if s_HasLocalRouters st
      then reconcileActive ords E D st (a_effectiveFilters a) (a_routing a)
      else do { _ \<leftarrow> reconcileIdle ords E (a_routing a); ret (a_routing a) })"

definition reconcile ::
  "orders \<Rightarrow> (string \<Rightarrow> frrTable result) \<Rightarrow> 's sysenv \<Rightarrow> 's ovnenv \<Rightarrow> OVNState \<Rightarrow> Agent \<Rightarrow> ('s, Agent) io" where
  "reconcile ords unmarshal E D st0 a0 =
     (let st = cycleState a0 st0;
          a1 = a0\<lparr>a_effectiveFilters := computeEffectiveNetworks (a_cfg a0) (s_DiscoveredNetworks st)\<rparr>;
          desired = desiredIPs (a_cfg a0) st
      in do { rm \<leftarrow> reconcileGateway ords E D st a1;
              let a2 = a1\<lparr>a_routing := rm\<rparr>
              in do { _ \<leftarrow> ignoring (ReconcilePortForward E rm (a_effectiveFilters a2) (s_SNATIPs st));
                      a3 \<leftarrow> (if desired \<noteq> [] \<or> s_HasLocalRouters st then ensureRoutes E a2 desired
                             else do { _ \<leftarrow> removeAllRoutes E a2; ret a2 });
                      _ \<leftarrow> checkFRRRouteActivity unmarshal E a3 desired;
                      if c_PortForwardOnly (a_cfg a3) then ret a3
                      else cleanupStaleChassis E D a3 (s_AllChassisNames st) } })"

section \<open>Start-up and shutdown\<close>

definition startup :: "orders \<Rightarrow> 's sysenv \<Rightarrow> Agent \<Rightarrow> ('s, goerr option) io" where
  "startup ords E a =
     (let rm = a_routing a;
          rest = attempt ''veth VRF leak setup'' (SetupVethLeak (od_keys ords) E rm)
            (attempt ''port forward setup'' (SetupPortForward E rm) (ret None))
      in if c_PortForwardOnly (a_cfg a) then rest
         else attempt ''bridge device check failed'' (CheckBridgeDevice E rm)
           (attempt ''ensure bridge IP'' (EnsureBridgeIP E rm (c_BridgeIP (a_cfg a)))
           (attempt ''enable proxy ARP'' (EnableProxyARP E rm) rest)))"

definition cleanup :: "orders \<Rightarrow> 's sysenv \<Rightarrow> 's ovnenv \<Rightarrow> OVNState \<Rightarrow> Agent \<Rightarrow> ('s, unit) io" where
  "cleanup ords E D st a =
     (let rm = a_routing a; full = (\<not> c_PortForwardOnly (a_cfg a)) in
      do { _ \<leftarrow> removeAllRoutes E a;
           _ \<leftarrow> ignoring (ReconcileFRRPrefixList (od_keys ords 3) E rm []);
           _ \<leftarrow> (if full
                 then do { _ \<leftarrow> ignoring (RemoveOVSFlows E rm); ignoring (CleanupRoutingTable E rm) }
                 else ret ());
           _ \<leftarrow> ignoring (TeardownPortForward E rm);
           _ \<leftarrow> ignoring (TeardownVethLeak E rm);
           if full
           then do { _ \<leftarrow> ignoring (RemoveBridgeIP E rm (c_BridgeIP (a_cfg a)));
                     ignoring (RemoveManagedNBEntries D st) }
           else ret () })"

text \<open>After the connection: priorities lowered by an earlier drain are raised again.\<close>

definition restorePhase :: "'s ovnenv \<Rightarrow> OVNState \<Rightarrow> Agent \<Rightarrow> ('s, unit) io" where
  "restorePhase D st a =
     (if \<not> c_PortForwardOnly (a_cfg a) \<and> c_DrainOnShutdown (a_cfg a)
      then RestoreDrainedGateways D (s_LocalChassisName (GetState st)) else ret ())"

text \<open>
  The branch of \<open>Run\<close> taken when the context is cancelled: the drain first, then a refresh of
  the state, then the clean-up on the refreshed state. \<open>ticks\<close> bounds the polls of the drain.
\<close>

definition drainPhase :: "'s ovnenv \<Rightarrow> nat \<Rightarrow> OVNState \<Rightarrow> Agent \<Rightarrow> ('s, OVNState) io" where
  "drainPhase D ticks st a =
     (if \<not> c_PortForwardOnly (a_cfg a) \<and> c_DrainOnShutdown (a_cfg a)
      then do { _ \<leftarrow> ignoring (DrainGateways (a_cfg a) D (s_LocalChassisName (GetState st)) ticks);
                refreshState (a_cfg a) D st }
      else ret st)"

definition shutdown :: "orders \<Rightarrow> 's sysenv \<Rightarrow> 's ovnenv \<Rightarrow> nat \<Rightarrow> OVNState \<Rightarrow> Agent \<Rightarrow> ('s, unit) io" where
  "shutdown ords E D ticks st a =
     do { st' \<leftarrow> drainPhase D ticks st a;
          if c_CleanupOnShutdown (a_cfg a) then cleanup ords E D st' a else ret () }"

end
