(* ===== verification/EventLoop.thy ===== *)
theory EventLoop
  imports Agent
begin

text \<open>
  Events and loops: the cache handlers, the signal channels and \<open>refreshLoop\<close> of \<open>ovn.go\<close>, and the
  main loop of the agent (\<open>Run\<close> of \<open>agent.go\<close>), as one step relation of threads over the shared
  channels. The contents of the databases are counted: a version stands for what a refresh reads.
\<close>

section \<open>The cache handlers\<close>

datatype sbModel = SBPort SBPortBinding | SBChass SBChassis

datatype sbEvent = OnAdd string sbModel | OnUpdate string sbModel sbModel | OnDelete string sbModel

datatype signal = NoSignal | Debounced | Immediate

definition isChassisRedirect :: "string \<Rightarrow> sbModel \<Rightarrow> bool" where
  "isChassisRedirect table m \<longleftrightarrow> table = ''Port_Binding'' \<and>
     (case m of SBPort pb \<Rightarrow> pb_Type pb = ''chassisredirect'' | SBChass c \<Rightarrow> False)"

definition sbHandleChange :: "string \<Rightarrow> signal" where
  "sbHandleChange table =
     (if table = ''Port_Binding'' \<or> table = ''Chassis'' then Debounced else NoSignal)"

fun sbEventHandler :: "sbEvent \<Rightarrow> signal" where
  "sbEventHandler (OnAdd table m) = (if isChassisRedirect table m then Immediate else sbHandleChange table)"
| "sbEventHandler (OnUpdate table old m) = (if isChassisRedirect table m then Immediate else sbHandleChange table)"
| "sbEventHandler (OnDelete table m) = (if isChassisRedirect table m then Immediate else sbHandleChange table)"

definition nbHandleChange :: "string \<Rightarrow> signal" where
  "nbHandleChange table =
     (if table \<in> {''NAT'', ''Logical_Router'', ''Logical_Router_Port''} then Debounced
      else if table = ''Gateway_Chassis'' then Debounced else NoSignal)"

text \<open>The three northbound handlers only look at the table.\<close>

datatype dbevent = SBEvent sbEvent | NBEvent string

fun handle :: "dbevent \<Rightarrow> signal" where
  "handle (SBEvent e) = sbEventHandler e"
| "handle (NBEvent table) = nbHandleChange table"

fun eventTable :: "dbevent \<Rightarrow> string" where
  "eventTable (SBEvent (OnAdd t m)) = t"
| "eventTable (SBEvent (OnUpdate t old m)) = t"
| "eventTable (SBEvent (OnDelete t m)) = t"
| "eventTable (NBEvent t) = t"

section \<open>Channels and threads\<close>

text \<open>
  Where the goroutine of \<open>Connect\<close> and \<open>refreshLoop\<close> stands: connecting, ready, in the first
  refresh, draining the signals, at the \<open>select\<close>, in a refresh (after a debounce or at once),
  about to call \<open>onChange\<close>, stopped. A refresh carries the version it began to read.
\<close>

datatype loop_pc = Connecting | ReadyPc | FirstRefresh nat | Draining | Select
  | Refreshing nat | RefreshingNow nat | Notify | Stopped

text \<open>Where \<open>Run\<close> stands: connecting, in the first cycle, draining, at the \<open>select\<close>, in a cycle, stopped.\<close>

datatype agent_pc = WaitConnect | FirstCycle nat | DrainReconcile | Idle | InCycle nat | AgentStopped

record threads =
  w_ready :: bool
  w_debounceCh :: bool
  w_immediateCh :: bool
  w_reconcileCh :: bool
  w_debounceTimer :: bool
  w_reconcileTimer :: bool
  w_loop :: loop_pc
  w_agent :: agent_pc
  w_events :: "dbevent list"
  w_cache :: nat
  w_state :: nat
  w_done :: nat

definition triggerReconcile :: "threads \<Rightarrow> threads" where
  "triggerReconcile w = w\<lparr>w_reconcileCh := True\<rparr>"

definition debounceStateRefresh :: "threads \<Rightarrow> threads" where
  "debounceStateRefresh w = (if \<not> w_ready w then w else w\<lparr>w_debounceCh := True\<rparr>)"

definition immediateStateRefresh :: "threads \<Rightarrow> threads" where
  "immediateStateRefresh w = (if \<not> w_ready w then w else w\<lparr>w_immediateCh := True\<rparr>)"

definition drainSignals :: "threads \<Rightarrow> threads" where
  "drainSignals w = w\<lparr>w_debounceCh := False, w_immediateCh := False\<rparr>"

definition deliver :: "signal \<Rightarrow> threads \<Rightarrow> threads" where
  "deliver s w = (case s of NoSignal \<Rightarrow> w | Debounced \<Rightarrow> debounceStateRefresh w
     | Immediate \<Rightarrow> immediateStateRefresh w)"

section \<open>The branches of refreshLoop\<close>

definition onDone :: "threads \<Rightarrow> threads" where
  "onDone w = w\<lparr>w_debounceTimer := False, w_reconcileTimer := False, w_loop := Stopped\<rparr>"

definition onDebounceCh :: "threads \<Rightarrow> threads" where
  "onDebounceCh w = (if \<not> w_debounceTimer w then w\<lparr>w_debounceCh := False, w_debounceTimer := True\<rparr>
     else w\<lparr>w_debounceCh := False\<rparr>)"

definition onDebounceFire :: "threads \<Rightarrow> threads" where
  "onDebounceFire w = w\<lparr>w_debounceTimer := False, w_loop := Refreshing (w_cache w)\<rparr>"

definition afterRefresh :: "nat \<Rightarrow> threads \<Rightarrow> threads" where
  "afterRefresh v w = w\<lparr>w_state := v, w_reconcileTimer := True, w_loop := Select\<rparr>"

definition onReconcileFire :: "threads \<Rightarrow> threads" where
  "onReconcileFire w = w\<lparr>w_reconcileTimer := False, w_loop := Notify\<rparr>"

definition onImmediateCh :: "threads \<Rightarrow> threads" where
  "onImmediateCh w = w\<lparr>w_immediateCh := False, w_debounceTimer := False, w_loop := RefreshingNow (w_cache w)\<rparr>"

definition afterRefreshNow :: "nat \<Rightarrow> threads \<Rightarrow> threads" where
  "afterRefreshNow v w = w\<lparr>w_state := v, w_loop := Notify\<rparr>"

definition notify :: "threads \<Rightarrow> threads" where
  "notify w = (triggerReconcile w)\<lparr>w_loop := Select\<rparr>"

section \<open>Steps\<close>

text \<open>
  The environment changes a table, cancels the context or ticks; everything else is a step of the
  program. The cache holds a change before its event reaches the handler.
\<close>

datatype label = Change dbevent | Tick | Cancel | Startup | Program

inductive step :: "threads \<Rightarrow> label \<Rightarrow> threads \<Rightarrow> bool" where
  change: "handle e \<noteq> NoSignal \<Longrightarrow>
    step w (Change e) (w\<lparr>w_cache := Suc (w_cache w), w_events := w_events w @ [e]\<rparr>)"
| change_other: "handle e = NoSignal \<Longrightarrow> step w (Change e) (w\<lparr>w_events := w_events w @ [e]\<rparr>)"
| handler: "w_events w = e # es \<Longrightarrow> step w Program (deliver (handle e) (w\<lparr>w_events := es\<rparr>))"
| connected: "w_loop w = Connecting \<Longrightarrow> step w Startup (w\<lparr>w_ready := True, w_loop := ReadyPc\<rparr>)"
| first_refresh: "w_loop w = ReadyPc \<Longrightarrow> step w Startup (w\<lparr>w_loop := FirstRefresh (w_cache w)\<rparr>)"
| first_done: "w_loop w = FirstRefresh v \<Longrightarrow> step w Startup (w\<lparr>w_state := v, w_loop := Draining\<rparr>)"
| drain: "w_loop w = Draining \<Longrightarrow> step w Startup ((drainSignals w)\<lparr>w_loop := Select\<rparr>)"
| debounce_recv: "w_loop w = Select \<Longrightarrow> w_debounceCh w \<Longrightarrow> step w Program (onDebounceCh w)"
| debounce_fire: "w_loop w = Select \<Longrightarrow> w_debounceTimer w \<Longrightarrow> step w Program (onDebounceFire w)"
| reconcile_fire: "w_loop w = Select \<Longrightarrow> w_reconcileTimer w \<Longrightarrow> step w Program (onReconcileFire w)"
| immediate_recv: "w_loop w = Select \<Longrightarrow> w_immediateCh w \<Longrightarrow> step w Program (onImmediateCh w)"
| refreshed: "w_loop w = Refreshing v \<Longrightarrow> step w Program (afterRefresh v w)"
| refreshed_now: "w_loop w = RefreshingNow v \<Longrightarrow> step w Program (afterRefreshNow v w)"
| notified: "w_loop w = Notify \<Longrightarrow> step w Program (notify w)"
| loop_done: "w_loop w = Select \<Longrightarrow> step w Cancel (onDone w)"
| first_cycle: "w_agent w = WaitConnect \<Longrightarrow> w_loop w \<in> {Select, Refreshing v, RefreshingNow v, Notify} \<Longrightarrow>
    step w Startup (w\<lparr>w_agent := FirstCycle (w_state w)\<rparr>)"
| first_cycle_done: "w_agent w = FirstCycle v \<Longrightarrow> step w Startup (w\<lparr>w_done := v, w_agent := DrainReconcile\<rparr>)"
| drain_reconcile: "w_agent w = DrainReconcile \<Longrightarrow> step w Startup (w\<lparr>w_reconcileCh := False, w_agent := Idle\<rparr>)"
| reconcile_recv: "w_agent w = Idle \<Longrightarrow> w_reconcileCh w \<Longrightarrow>
    step w Program (w\<lparr>w_reconcileCh := False, w_agent := InCycle (w_state w)\<rparr>)"
| tick: "w_agent w = Idle \<Longrightarrow> step w Tick (w\<lparr>w_agent := InCycle (w_state w)\<rparr>)"
| cycle_done: "w_agent w = InCycle v \<Longrightarrow> step w Program (w\<lparr>w_done := v, w_agent := Idle\<rparr>)"
| agent_done: "w_agent w = Idle \<Longrightarrow> step w Cancel (w\<lparr>w_agent := AgentStopped\<rparr>)"

inductive run :: "threads \<Rightarrow> label list \<Rightarrow> threads \<Rightarrow> bool" where
  run_nil: "run w [] w"
| run_snoc: "run w ls u \<Longrightarrow> step u l v \<Longrightarrow> run w (ls @ [l]) v"

section \<open>No lost wake-up\<close>

text \<open>A change the state does not show yet is on its way to a refresh, and likewise for the routes.\<close>

definition refresh_pending :: "threads \<Rightarrow> bool" where
  "refresh_pending w \<longleftrightarrow> (\<exists>e\<in>set (w_events w). handle e \<noteq> NoSignal)
     \<or> w_debounceCh w \<or> w_immediateCh w \<or> w_debounceTimer w"

definition refresh_ok :: "threads \<Rightarrow> bool" where
  "refresh_ok w \<longleftrightarrow> refresh_pending w \<or>
     (case w_loop w of Refreshing v \<Rightarrow> v = w_cache w | RefreshingNow v \<Rightarrow> v = w_cache w | _ \<Rightarrow> w_state w = w_cache w)"

definition reconcile_ok :: "threads \<Rightarrow> bool" where
  "reconcile_ok w \<longleftrightarrow> w_reconcileTimer w \<or> w_reconcileCh w \<or> w_loop w = Notify \<or>
     (case w_agent w of InCycle v \<Rightarrow> v = w_state w | _ \<Rightarrow> w_done w = w_state w)"

definition serving :: "threads \<Rightarrow> bool" where
  "serving w \<longleftrightarrow> w_ready w
     \<and> (case w_loop w of Select \<Rightarrow> True | Refreshing v \<Rightarrow> True | RefreshingNow v \<Rightarrow> True | Notify \<Rightarrow> True | _ \<Rightarrow> False)
     \<and> (case w_agent w of Idle \<Rightarrow> True | InCycle v \<Rightarrow> True | _ \<Rightarrow> False)"

definition wakeup_inv :: "threads \<Rightarrow> bool" where
  "wakeup_inv w \<longleftrightarrow> serving w \<and> refresh_ok w \<and> reconcile_ok w"

lemmas branch_defs = triggerReconcile_def debounceStateRefresh_def immediateStateRefresh_def drainSignals_def
  deliver_def onDone_def onDebounceCh_def onDebounceFire_def afterRefresh_def onReconcileFire_def
  onImmediateCh_def afterRefreshNow_def notify_def

lemmas inv_defs = wakeup_inv_def serving_def refresh_ok_def reconcile_ok_def refresh_pending_def

lemma wakeup_inv_step:
  assumes "step w l w'" "wakeup_inv w" "l \<noteq> Cancel"
  shows "wakeup_inv w'"
  using assms
  by (induction rule: step.induct)
    (auto simp: inv_defs branch_defs split: loop_pc.splits agent_pc.splits signal.splits if_splits)


section \<open>Settling\<close>

text \<open>How much work of the program's own is outstanding.\<close>

definition loop_weight :: "loop_pc \<Rightarrow> nat" where
  "loop_weight pc = (case pc of Refreshing v \<Rightarrow> 5 | RefreshingNow v \<Rightarrow> 4 | Notify \<Rightarrow> 3 | _ \<Rightarrow> 0)"

definition agent_weight :: "agent_pc \<Rightarrow> nat" where
  "agent_weight pc = (case pc of InCycle v \<Rightarrow> 1 | _ \<Rightarrow> 0)"

definition weight :: "threads \<Rightarrow> nat" where
  "weight w = 8 * length (w_events w) + (if w_debounceCh w then 7 else 0) + (if w_debounceTimer w then 6 else 0)
     + (if w_immediateCh w then 5 else 0) + loop_weight (w_loop w) + (if w_reconcileTimer w then 4 else 0)
     + (if w_reconcileCh w then 2 else 0) + agent_weight (w_agent w)"

lemma weight_deliver: "weight (deliver s w) \<le> weight w + 7"
  by (cases s) (simp_all add: deliver_def debounceStateRefresh_def immediateStateRefresh_def weight_def)

lemma weight_step:
  assumes "step w Program w'"
  shows "weight w' < weight w"
  using assms
proof (cases rule: step.cases)
  case (handler e es)
  have "weight (w\<lparr>w_events := es\<rparr>) + 8 = weight w" using handler by (simp add: weight_def)
  then show ?thesis using handler weight_deliver [of "handle e" "w\<lparr>w_events := es\<rparr>"] by simp
qed (auto simp: weight_def loop_weight_def agent_weight_def branch_defs)

lemma weight_run: "run w ls w' \<Longrightarrow> set ls \<subseteq> {Program} \<Longrightarrow> length ls + weight w' \<le> weight w"
proof (induction rule: run.induct)
  case (run_snoc w ls u l v)
  then have "weight v < weight u" by (auto intro: weight_step)
  with run_snoc show ?case by simp
qed simp

lemma weight_bound: "weight w \<le> 8 * length (w_events w) + 30"
  by (simp add: weight_def loop_weight_def agent_weight_def split: loop_pc.split agent_pc.split)

lemma program_enabled:
  assumes "serving w" "weight w \<noteq> 0"
  shows "\<exists>w'. step w Program w'"
proof (cases "w_events w")
  case (Cons e es)
  then show ?thesis using step.handler by blast
next
  case Nil
  note steps = step.debounce_recv step.debounce_fire step.reconcile_fire step.immediate_recv
    step.refreshed step.refreshed_now step.notified step.reconcile_recv step.cycle_done
  from Nil assms show ?thesis
    by (cases "w_loop w"; cases "w_agent w")
      (auto simp: serving_def weight_def loop_weight_def agent_weight_def split: if_splits
        intro: steps [THEN exI [where P = "step w Program"]])
qed

lemma cache_run: "run w ls w' \<Longrightarrow> set ls \<subseteq> {Program} \<Longrightarrow> w_cache w' = w_cache w"
proof (induction rule: run.induct)
  case (run_snoc w ls u l v)
  from run_snoc(2) have "l = Program \<Longrightarrow> w_cache v = w_cache u"
    by (induction rule: step.induct) (auto simp: branch_defs split: signal.split)
  with run_snoc show ?case by simp
qed simp

lemma wakeup_inv_run: "run w ls w' \<Longrightarrow> wakeup_inv w \<Longrightarrow> Cancel \<notin> set ls \<Longrightarrow> wakeup_inv w'"
  by (induction rule: run.induct) (auto intro: wakeup_inv_step)


section \<open>The two windows before the loops serve\<close>

text \<open>
  Both drains of queued signals assume that the work before them has seen every change. A change
  that arrives after \<open>Connect\<close> began its first refresh and whose handler runs before
  \<open>drainSignals\<close> is discarded: everything is quiet, and the state does not show it. Periodic
  cycles read the state and never refresh it, so only a later change repairs this.
\<close>

definition start :: threads where
  "start = \<lparr>w_ready = False, w_debounceCh = False, w_immediateCh = False, w_reconcileCh = False,
     w_debounceTimer = False, w_reconcileTimer = False, w_loop = Connecting, w_agent = WaitConnect,
     w_events = [], w_cache = 0, w_state = 0, w_done = 0\<rparr>"

definition lossy :: "label list" where
  "lossy = [Startup, Startup, Change (NBEvent ''NAT''), Program, Startup, Startup, Startup, Startup, Startup]"

definition snap :: "bool \<Rightarrow> bool \<Rightarrow> loop_pc \<Rightarrow> agent_pc \<Rightarrow> dbevent list \<Rightarrow> nat \<Rightarrow> threads" where
  "snap ready queued lp ag es cache = start\<lparr>w_ready := ready, w_debounceCh := queued, w_loop := lp,
     w_agent := ag, w_events := es, w_cache := cache\<rparr>"

lemma lossy_run: "run start lossy (snap True False Select Idle [] 1)"
proof -
  let ?e = "NBEvent ''NAT''"
  have h: "nbHandleChange ''NAT'' = Debounced" by (simp add: nbHandleChange_def)
  note [simp] = snap_def start_def h branch_defs
  have s0: "start = snap False False Connecting WaitConnect [] 0" by simp
  have 1: "step start Startup (snap True False ReadyPc WaitConnect [] 0)"
    using step.connected [of start] by simp
  have 2: "step (snap True False ReadyPc WaitConnect [] 0) Startup (snap True False (FirstRefresh 0) WaitConnect [] 0)"
    using step.first_refresh [of "snap True False ReadyPc WaitConnect [] 0"] by simp
  have 3: "step (snap True False (FirstRefresh 0) WaitConnect [] 0) (Change ?e)
      (snap True False (FirstRefresh 0) WaitConnect [?e] 1)"
    using step.change [of ?e "snap True False (FirstRefresh 0) WaitConnect [] 0"] by simp
  have 4: "step (snap True False (FirstRefresh 0) WaitConnect [?e] 1) Program
      (snap True True (FirstRefresh 0) WaitConnect [] 1)"
    using step.handler [of "snap True False (FirstRefresh 0) WaitConnect [?e] 1" ?e "[]"] by simp
  have 5: "step (snap True True (FirstRefresh 0) WaitConnect [] 1) Startup (snap True True Draining WaitConnect [] 1)"
    using step.first_done [of "snap True True (FirstRefresh 0) WaitConnect [] 1" 0] by simp
  have 6: "step (snap True True Draining WaitConnect [] 1) Startup (snap True False Select WaitConnect [] 1)"
    using step.drain [of "snap True True Draining WaitConnect [] 1"] by simp
  have 7: "step (snap True False Select WaitConnect [] 1) Startup (snap True False Select (FirstCycle 0) [] 1)"
    using step.first_cycle [of "snap True False Select WaitConnect [] 1" 0] by simp
  have 8: "step (snap True False Select (FirstCycle 0) [] 1) Startup (snap True False Select DrainReconcile [] 1)"
    using step.first_cycle_done [of "snap True False Select (FirstCycle 0) [] 1" 0] by simp
  have 9: "step (snap True False Select DrainReconcile [] 1) Startup (snap True False Select Idle [] 1)"
    using step.drain_reconcile [of "snap True False Select DrainReconcile [] 1"] by simp
  have "run start ((((((((([] @ [Startup]) @ [Startup]) @ [Change ?e]) @ [Program]) @ [Startup]) @ [Startup])
      @ [Startup]) @ [Startup]) @ [Startup]) (snap True False Select Idle [] 1)"
    by (rule run_snoc [OF run_snoc [OF run_snoc [OF run_snoc [OF run_snoc [OF run_snoc [OF run_snoc
        [OF run_snoc [OF run_snoc [OF run_nil 1] 2] 3] 4] 5] 6] 7] 8] 9])
  then show ?thesis by (simp add: lossy_def del: snap_def start_def)
qed

text \<open>What ticks and cycles keep: nothing is on its way to a refresh.\<close>

definition unnoticed :: "threads \<Rightarrow> bool" where
  "unnoticed w \<longleftrightarrow> \<not> refresh_pending w \<and> w_events w = [] \<and> w_loop w \<in> {Select, Notify} \<and> w_state w < w_cache w
     \<and> w_done w = w_state w \<and> (case w_agent w of Idle \<Rightarrow> True | InCycle v \<Rightarrow> v = w_state w | _ \<Rightarrow> False)"

lemma unnoticed_step: "step w l w' \<Longrightarrow> unnoticed w \<Longrightarrow> l \<in> {Tick, Program} \<Longrightarrow> unnoticed w'"
  by (induction rule: step.induct)
    (auto simp: unnoticed_def refresh_pending_def branch_defs split: agent_pc.splits)

lemma unnoticed_run: "run w ls w' \<Longrightarrow> unnoticed w \<Longrightarrow> set ls \<subseteq> {Tick, Program} \<Longrightarrow> unnoticed w'"
  by (induction rule: run.induct) (auto intro: unnoticed_step)

text \<open>
  The window of the start is real: there is a run of both start-up sequences, with one NAT
  change, after which nothing is queued, armed or running, and yet neither the state nor the routes
  show the change; and no number of ticks with their cycles mends it.
\<close>

theorem startup_loses_change:
  "\<exists>w. run start lossy w \<and> weight w = 0 \<and> serving w \<and> w_state w < w_cache w
    \<and> (\<forall>ls w'. run w ls w' \<longrightarrow> set ls \<subseteq> {Tick, Program} \<longrightarrow> w_done w' < w_cache w')"
proof (intro exI conjI allI impI)
  let ?w = "snap True False Select Idle [] 1"
  show "run start lossy ?w" by (rule lossy_run)
  show "weight ?w = 0" "serving ?w" "w_state ?w < w_cache ?w"
    by (simp_all add: snap_def start_def weight_def loop_weight_def agent_weight_def serving_def)
  have u: "unnoticed ?w" by (simp add: unnoticed_def refresh_pending_def snap_def start_def)
  show "w_done w' < w_cache w'" if "run ?w ls w'" "set ls \<subseteq> {Tick, Program}" for ls w'
    using unnoticed_run [OF that(1) u that(2)] by (simp add: unnoticed_def)
qed

section \<open>Connecting\<close>

text \<open>
  \<open>connectWithRetry\<close>: the attempt and the wait between attempts act on a state of their own; the
  wait tells whether the context was cancelled before the timer fired. The loop may run forever.
\<close>

partial_function (option) connectWithRetry ::
  "('s \<Rightarrow> goerr option \<times> 's) \<Rightarrow> ('s \<Rightarrow> goerr option \<times> 's) \<Rightarrow> 's \<Rightarrow> (goerr option \<times> 's) option" where
  "connectWithRetry connect pause s =
     (case connect s of
        (None, s1) \<Rightarrow> Some (None, s1)
      | (Some err, s1) \<Rightarrow> (case pause s1 of
          (Some ctxErr, s2) \<Rightarrow> Some (Some ctxErr, s2)
        | (None, s2) \<Rightarrow> connectWithRetry connect pause s2))"

declare connectWithRetry.simps [simp del]

text \<open>The state before the n-th attempt, when all earlier ones failed and were followed by a full wait.\<close>

fun attemptState :: "('s \<Rightarrow> goerr option \<times> 's) \<Rightarrow> ('s \<Rightarrow> goerr option \<times> 's) \<Rightarrow> nat \<Rightarrow> 's \<Rightarrow> 's" where
  "attemptState connect pause 0 s = s"
| "attemptState connect pause (Suc n) s = attemptState connect pause n (snd (pause (snd (connect s))))"

definition roundFails :: "('s \<Rightarrow> goerr option \<times> 's) \<Rightarrow> ('s \<Rightarrow> goerr option \<times> 's) \<Rightarrow> 's \<Rightarrow> bool" where
  "roundFails connect pause s \<longleftrightarrow> fst (connect s) \<noteq> None \<and> fst (pause (snd (connect s))) = None"

lemma retry_unfold:
  "connectWithRetry connect pause s = (if roundFails connect pause s
     then connectWithRetry connect pause (attemptState connect pause 1 s)
     else Some (if fst (connect s) = None then connect s else pause (snd (connect s))))"
  by (subst connectWithRetry.simps) (auto simp: roundFails_def split: prod.splits option.splits)

lemma retry_after:
  "(\<And>k. k < n \<Longrightarrow> roundFails connect pause (attemptState connect pause k s)) \<Longrightarrow>
   connectWithRetry connect pause s = connectWithRetry connect pause (attemptState connect pause n s)"
proof (induction n arbitrary: s)
  case (Suc n)
  have "roundFails connect pause s" using Suc.prems [of 0] by simp
  then have "connectWithRetry connect pause s = connectWithRetry connect pause (attemptState connect pause 1 s)"
    using retry_unfold [of connect pause s] by simp
  also have "\<dots> = connectWithRetry connect pause (attemptState connect pause n (attemptState connect pause 1 s))"
    by (rule Suc.IH) (use Suc.prems [of "Suc k" for k] in simp)
  finally show ?case by simp
qed simp

lemma retry_returns_round:
  assumes "connectWithRetry connect pause s = Some r"
  shows "\<exists>n. \<not> roundFails connect pause (attemptState connect pause n s)"
proof (rule connectWithRetry.raw_induct [where P = "\<lambda>c p s r. \<exists>n. \<not> roundFails c p (attemptState c p n s)", OF _ assms])
  fix f and c p :: "'a \<Rightarrow> goerr option \<times> 'a" and s :: 'a and r
  assume IH: "\<And>c p s r. f c p s = Some r \<Longrightarrow> \<exists>n. \<not> roundFails c p (attemptState c p n s)"
    and eq: "(case c s of (None, s1) \<Rightarrow> Some (None, s1)
      | (Some err, s1) \<Rightarrow> (case p s1 of (None, s2) \<Rightarrow> f c p s2 | (Some ctxErr, s2) \<Rightarrow> Some (Some ctxErr, s2))) = Some r"
  show "\<exists>n. \<not> roundFails c p (attemptState c p n s)"
  proof (cases "roundFails c p s")
    case True
    then have "f c p (attemptState c p 1 s) = Some r"
      using eq by (auto simp: roundFails_def split: prod.splits option.splits)
    from IH [OF this] obtain n where "\<not> roundFails c p (attemptState c p n (attemptState c p 1 s))" by blast
    then show ?thesis by (intro exI [of _ "Suc n"]) simp
  next
    case False
    then show ?thesis by (intro exI [of _ 0]) simp
  qed
qed

text \<open>
  C33. When \<open>connectWithRetry\<close> returns: exactly when some attempt succeeds or some wait ends by
  cancellation; and it returns what the first such round gives, the nil error with the state
  of the successful attempt or the error of the context. No failed attempt ever ends it.
\<close>

theorem connectWithRetry_returns:
  "(connectWithRetry connect pause s \<noteq> None
      \<longleftrightarrow> (\<exists>n. \<not> roundFails connect pause (attemptState connect pause n s)))
   \<and> (connectWithRetry connect pause s = Some r \<longleftrightarrow> (\<exists>n. (\<forall>k<n. roundFails connect pause (attemptState connect pause k s))
        \<and> \<not> roundFails connect pause (attemptState connect pause n s)
        \<and> r = (let t = attemptState connect pause n s
               in if fst (connect t) = None then connect t else pause (snd (connect t)))))"
proof -
  let ?at = "\<lambda>n. attemptState connect pause n s"
  let ?out = "\<lambda>n. if fst (connect (?at n)) = None then connect (?at n) else pause (snd (connect (?at n)))"
  have first: "connectWithRetry connect pause s = Some (?out n)"
    if "\<forall>k<n. roundFails connect pause (?at k)" "\<not> roundFails connect pause (?at n)" for n
    using retry_after [of n connect pause s] that retry_unfold [of connect pause "?at n"] by simp
  have least: "\<exists>n. (\<forall>k<n. roundFails connect pause (?at k)) \<and> \<not> roundFails connect pause (?at n)"
    if "\<exists>n. \<not> roundFails connect pause (?at n)"
    using that exists_least_iff [of "\<lambda>n. \<not> roundFails connect pause (?at n)"] by blast
  have ret: "\<exists>n. \<not> roundFails connect pause (?at n)" if "connectWithRetry connect pause s = Some r" for r
    by (rule retry_returns_round [OF that])
  have some: "connectWithRetry connect pause s = Some r \<longleftrightarrow> (\<exists>n. (\<forall>k<n. roundFails connect pause (?at k))
      \<and> \<not> roundFails connect pause (?at n) \<and> r = ?out n)" (is "_ \<longleftrightarrow> ?R")
  proof
    assume r: "connectWithRetry connect pause s = Some r"
    with least ret obtain n where n: "\<forall>k<n. roundFails connect pause (?at k)" "\<not> roundFails connect pause (?at n)"
      by blast
    with first [OF n] r have "r = ?out n" by simp
    with n show ?R by blast
  next
    assume ?R
    then show "connectWithRetry connect pause s = Some r" using first by blast
  qed
  have "connectWithRetry connect pause s \<noteq> None \<longleftrightarrow> (\<exists>n. \<not> roundFails connect pause (?at n))"
    using least first ret by (metis not_Some_eq)
  with some show ?thesis unfolding Let_def by blast
qed
section \<open>Examples\<close>

text \<open>A failover: the chassisredirect port moves, and seven steps later the routes follow.\<close>

definition moved_port :: dbevent where
  "moved_port = SBEvent (OnUpdate ''Port_Binding'' (SBPort demo_cached) (SBPort (demo_cached\<lparr>pb_Type := ''chassisredirect''\<rparr>)))"

definition live :: "bool \<Rightarrow> bool \<Rightarrow> loop_pc \<Rightarrow> agent_pc \<Rightarrow> dbevent list \<Rightarrow> nat \<Rightarrow> nat \<Rightarrow> nat \<Rightarrow> threads" where
  "live imm rec lp ag es c st d = start\<lparr>w_ready := True, w_immediateCh := imm, w_reconcileCh := rec, w_loop := lp,
     w_agent := ag, w_events := es, w_cache := c, w_state := st, w_done := d\<rparr>"

lemma handle_moved: "handle moved_port = Immediate"
  by (simp add: moved_port_def isChassisRedirect_def)

lemma live_inv: "wakeup_inv (live False False Select Idle [] 0 0 0)" "wakeup_inv (live False False Select Idle [moved_port] 1 0 0)"
  by (simp_all add: inv_defs live_def start_def handle_moved)

lemma failover_run:
  "run (live False False Select Idle [] 0 0 0)
     [Change moved_port, Program, Program, Program, Program, Program, Program] (live False False Select Idle [] 1 1 1)"
proof -
  note d = live_def start_def handle_moved branch_defs
  have 1: "step (live False False Select Idle [] 0 0 0) (Change moved_port) (live False False Select Idle [moved_port] 1 0 0)"
    using step.change [of moved_port "live False False Select Idle [] 0 0 0"] by (simp add: d)
  have 2: "step (live False False Select Idle [moved_port] 1 0 0) Program (live True False Select Idle [] 1 0 0)"
    using step.handler [of "live False False Select Idle [moved_port] 1 0 0" moved_port "[]"] by (simp add: d)
  have 3: "step (live True False Select Idle [] 1 0 0) Program (live False False (RefreshingNow 1) Idle [] 1 0 0)"
    using step.immediate_recv [of "live True False Select Idle [] 1 0 0"] by (simp add: d)
  have 4: "step (live False False (RefreshingNow 1) Idle [] 1 0 0) Program (live False False Notify Idle [] 1 1 0)"
    using step.refreshed_now [of "live False False (RefreshingNow 1) Idle [] 1 0 0" 1] by (simp add: d)
  have 5: "step (live False False Notify Idle [] 1 1 0) Program (live False True Select Idle [] 1 1 0)"
    using step.notified [of "live False False Notify Idle [] 1 1 0"] by (simp add: d)
  have 6: "step (live False True Select Idle [] 1 1 0) Program (live False False Select (InCycle 1) [] 1 1 0)"
    using step.reconcile_recv [of "live False True Select Idle [] 1 1 0"] by (simp add: d)
  have 7: "step (live False False Select (InCycle 1) [] 1 1 0) Program (live False False Select Idle [] 1 1 1)"
    using step.cycle_done [of "live False False Select (InCycle 1) [] 1 1 0" 1] by (simp add: d)
  have "run (live False False Select Idle [] 0 0 0) ((((((([] @ [Change moved_port]) @ [Program]) @ [Program]) @ [Program])
      @ [Program]) @ [Program]) @ [Program]) (live False False Select Idle [] 1 1 1)"
    by (rule run_snoc [OF run_snoc [OF run_snoc [OF run_snoc [OF run_snoc [OF run_snoc [OF run_snoc
        [OF run_nil 1] 2] 3] 4] 5] 6] 7])
  then show ?thesis by simp
qed



theorem startup_loses_change_witness: "\<exists>w. run start lossy w \<and> w_done w < w_cache w"
proof -
  obtain w where "run start lossy w"
    and w: "\<forall>ls w'. run w ls w' \<longrightarrow> set ls \<subseteq> {Tick, Program} \<longrightarrow> w_done w' < w_cache w'"
    using startup_loses_change by blast
  moreover have "w_done w < w_cache w" using w run_nil [of w] by force
  ultimately show ?thesis by blast
qed

text \<open>Attempts fail while the counter is below two; the third succeeds.\<close>

theorem connectWithRetry_returns_witness:
  "connectWithRetry (\<lambda>n. (if n < 2 then Some (ErrMsg ''down'') else None, n)) (\<lambda>n. (None, Suc n)) (0 :: nat)
     = Some (None, 2)"
proof -
  let ?c = "\<lambda>n :: nat. (if n < 2 then Some (ErrMsg ''down'') else None, n)" and ?p = "\<lambda>n :: nat. (None :: goerr option, Suc n)"
  have a: "attemptState ?c ?p k n = n + k" for k n by (induction k arbitrary: n) simp_all
  have "\<exists>n. (\<forall>k<n. roundFails ?c ?p (attemptState ?c ?p k 0)) \<and> \<not> roundFails ?c ?p (attemptState ?c ?p n 0)
      \<and> (None, 2) = (let t = attemptState ?c ?p n 0 in if fst (?c t) = None then ?c t else ?p (snd (?c t)))"
    by (rule exI [of _ 2]) (simp add: a roundFails_def)
  then show ?thesis using connectWithRetry_returns [of ?c ?p 0 "(None, 2)"] by blast
qed

end
