(* ===== verification/Connection.thy ===== *)
theory Connection
  imports OvnState
begin

text \<open>
  Connecting to the databases (\<open>Connect\<close>, \<open>Close\<close> and \<open>closeClients\<close> of \<open>ovn.go\<close>). The OVSDB client
  library is the environment \<open>X\<close>; whether a client of the source is nil is a flag.
\<close>

datatype db = SB | NB

record OVNClient =
  cl_sb :: bool
  cl_nb :: bool
  cl_ready :: bool
  cl_loop :: bool
  cl_state :: OVNState

definition NewOVNClient :: OVNClient where
  "NewOVNClient = \<lparr>cl_sb = False, cl_nb = False, cl_ready = False, cl_loop = False, cl_state = newOVNState\<rparr>"

record 's connenv =
  x_hostname :: "'s \<Rightarrow> string result \<times> 's"
  x_model :: "db \<Rightarrow> 's \<Rightarrow> goerr option \<times> 's"
  x_new :: "db \<Rightarrow> string list \<Rightarrow> 's \<Rightarrow> goerr option \<times> 's"
  x_dial :: "db \<Rightarrow> 's \<Rightarrow> goerr option \<times> 's"
  x_monitor :: "db \<Rightarrow> string list \<Rightarrow> 's \<Rightarrow> goerr option \<times> 's"
  x_close :: "db \<Rightarrow> 's \<Rightarrow> unit \<times> 's"

fun dbName :: "db \<Rightarrow> string" where
  "dbName SB = ''SB''"
| "dbName NB = ''NB''"

text \<open>The tables of each schema, all of which are monitored.\<close>

fun databaseModel :: "db \<Rightarrow> string list" where
  "databaseModel SB = [''Port_Binding'', ''Chassis'']"
| "databaseModel NB = [''NAT'', ''Logical_Router'', ''Logical_Router_Port'', ''Logical_Router_Static_Route'',
     ''Static_MAC_Binding'', ''Gateway_Chassis'']"

fun isOpen :: "db \<Rightarrow> OVNClient \<Rightarrow> bool" where
  "isOpen SB c = cl_sb c"
| "isOpen NB c = cl_nb c"

fun setOpen :: "db \<Rightarrow> bool \<Rightarrow> OVNClient \<Rightarrow> OVNClient" where
  "setOpen SB b c = c\<lparr>cl_sb := b\<rparr>"
| "setOpen NB b c = c\<lparr>cl_nb := b\<rparr>"

abbreviation ask :: "string \<Rightarrow> db \<Rightarrow> string list \<Rightarrow> ('s \<Rightarrow> 'a \<times> 's) \<Rightarrow> ('s, 'a) io" where
  "ask what db args f \<equiv> call (EvQuery (what # dbName db # args)) f"

text \<open>One database: model, client, connection, monitor. A failing constructor leaves a nil client.\<close>

definition openDB ::
  "'s connenv \<Rightarrow> db \<Rightarrow> string \<Rightarrow> OVNClient \<Rightarrow> ('s, goerr option \<times> OVNClient) io" where
  "openDB X db remote c =
     do { e \<leftarrow> ask ''model'' db (databaseModel db) (x_model X db);
          case e of Some err \<Rightarrow> ret (Some (ErrWrap (''create '' @ dbName db @ '' database model'') err), c) | None \<Rightarrow>
     do { e \<leftarrow> ask ''new'' db (ovsdbEndpoints remote) (x_new X db (ovsdbEndpoints remote));
          case e of Some err \<Rightarrow> ret (Some (ErrWrap (''create '' @ dbName db @ '' client'') err), setOpen db False c) | None \<Rightarrow>
     do { e \<leftarrow> ask ''connect'' db [] (x_dial X db);
          case e of Some err \<Rightarrow> ret (Some (ErrWrap (''connect '' @ dbName db) err), setOpen db True c) | None \<Rightarrow>
     do { e \<leftarrow> ask ''monitor'' db (databaseModel db) (x_monitor X db (databaseModel db));
          case e of Some err \<Rightarrow> ret (Some (ErrWrap (''monitor '' @ dbName db) err), setOpen db True c)
          | None \<Rightarrow> ret (None, setOpen db True c) } } } }"

definition closeDB :: "'s connenv \<Rightarrow> db \<Rightarrow> OVNClient \<Rightarrow> ('s, OVNClient) io" where
  "closeDB X db c = (if isOpen db c
     then do { _ \<leftarrow> ask ''close'' db [] (x_close X db); ret (setOpen db False c) } else ret c)"

definition closeClients :: "'s connenv \<Rightarrow> OVNClient \<Rightarrow> ('s, OVNClient) io" where
  "closeClients X c = do { c \<leftarrow> closeDB X SB c; closeDB X NB c }"

text \<open>The steps up to the first error; the refresh loop is only recorded as started.\<close>

definition connectSteps ::
  "'s connenv \<Rightarrow> 's ovnenv \<Rightarrow> Config \<Rightarrow> OVNClient \<Rightarrow> ('s, goerr option \<times> OVNClient) io" where
  "connectSteps X D cfg c =
     do { (e, c) \<leftarrow> openDB X SB (c_OVNSBRemote cfg) c;
          case e of Some err \<Rightarrow> ret (Some err, c) | None \<Rightarrow>
     do { (e, c) \<leftarrow> openDB X NB (c_OVNNBRemote cfg) c;
          case e of Some err \<Rightarrow> ret (Some err, c) | None \<Rightarrow>
     do { st \<leftarrow> refreshState cfg D (cl_state c);
          ret (None, c\<lparr>cl_ready := True, cl_state := st, cl_loop := True\<rparr>) } } }"

definition Connect ::
  "'s connenv \<Rightarrow> 's ovnenv \<Rightarrow> Config \<Rightarrow> OVNClient \<Rightarrow> ('s, goerr option \<times> OVNClient) io" where
  "Connect X D cfg c =
     do { h \<leftarrow> call (EvQuery [''hostname'']) (x_hostname X);
          case getHostname h of Inl err \<Rightarrow> ret (Some (ErrWrap ''get hostname'' err), c) | Inr hostname \<Rightarrow>
     do { (e, c) \<leftarrow> connectSteps X D cfg (c\<lparr>cl_state := (cl_state c)\<lparr>s_LocalChassisName := hostname\<rparr>\<rparr>);
          case e of None \<Rightarrow> ret (None, c)
          | Some err \<Rightarrow> do { c \<leftarrow> closeClients X c; ret (Some err, c) } } }"

text \<open>\<open>Close\<close> waits for a started loop before it closes the clients.\<close>

definition Close :: "'s connenv \<Rightarrow> OVNClient \<Rightarrow> ('s, OVNClient) io" where
  "Close X c =
     do { _ \<leftarrow> (if cl_loop c then call (EvQuery [''loopDone'']) (Pair ()) else ret ());
          closeClients X (c\<lparr>cl_ready := False\<rparr>) }"

section \<open>No leaked connection\<close>

definition dialled :: "db \<Rightarrow> ev list \<Rightarrow> bool" where
  "dialled db t \<longleftrightarrow> EvQuery [''connect'', dbName db] \<in> set t"

definition closed :: "db \<Rightarrow> ev list \<Rightarrow> bool" where
  "closed db t \<longleftrightarrow> EvQuery [''close'', dbName db] \<in> set t"

lemma setOpen_simps [simp]:
  "isOpen db (setOpen db b c) = b" "isOpen SB (setOpen NB b c) = isOpen SB c" "isOpen NB (setOpen SB b c) = isOpen NB c"
  "cl_ready (setOpen db b c) = cl_ready c" "cl_loop (setOpen db b c) = cl_loop c" "cl_state (setOpen db b c) = cl_state c"
  by (cases db; simp)+

lemma isOpen_upd [simp]:
  "isOpen db (c\<lparr>cl_ready := r\<rparr>) = isOpen db c" "isOpen db (c\<lparr>cl_state := st\<rparr>) = isOpen db c"
  "isOpen db (c\<lparr>cl_loop := l\<rparr>) = isOpen db c"
  by (cases db; simp)+

lemma pure_connection:
  "pure_log (openDB X db remote c)" "pure_log (closeDB X db c)" "pure_log (closeClients X c)"
  "pure_log (refreshState cfg D st)" "pure_log (connectSteps X D cfg c)"
proof -
  show o: "pure_log (openDB X db remote c)" for db remote c
    unfolding openDB_def by (intro emits_intros) simp_all
  show c: "pure_log (closeDB X db c)" for db c
    unfolding closeDB_def by (intro emits_intros) simp_all
  show "pure_log (closeClients X c)" unfolding closeClients_def by (intro emits_intros c)
  show r: "pure_log (refreshState cfg D st)" for st
    unfolding refreshState_def by (intro emits_intros emits_lists) simp_all
  show "pure_log (connectSteps X D cfg c)"
    unfolding connectSteps_def by (intro emits_intros o r)
qed

lemma openDB_run:
  fixes X :: "'s connenv" and s :: 's and remote :: string
  assumes "\<not> isOpen db c"
  defines "r \<equiv> outcome (openDB X db remote c) s" and "t \<equiv> trace (openDB X db remote c) s"
  shows "\<exists>b. snd r = setOpen db b c \<and> (fst r = None \<longrightarrow> b) \<and> (dialled db t \<longrightarrow> b)"
    and "\<not> closed db' t" and "db' \<noteq> db \<Longrightarrow> \<not> dialled db' t"
proof -
  have n: "setOpen db False c = c" using assms(1) by (cases db) simp_all
  have b: "P False \<or> P True \<Longrightarrow> \<exists>b. P b" for P by blast
  show "\<exists>b. snd r = setOpen db b c \<and> (fst r = None \<longrightarrow> b) \<and> (dialled db t \<longrightarrow> b)"
    unfolding r_def t_def openDB_def
    by (rule b) (simp add: run_bind emits_intros dialled_def n split: option.split)
  show "\<not> closed db' t" "db' \<noteq> db \<Longrightarrow> \<not> dialled db' t"
    unfolding t_def openDB_def
    by (cases db'; cases db; simp add: run_bind emits_intros dialled_def closed_def split: option.split)+
qed

lemma closeDB_run:
  "outcome (closeDB X db c) s = setOpen db False c" "closed db (trace (closeDB X db c) s) \<longleftrightarrow> isOpen db c"
  "\<not> dialled db' (trace (closeDB X db c) s)"
  by (cases db; cases db'; simp add: closeDB_def closed_def dialled_def run_bind emits_intros)+

lemma closed_append [simp]: "closed db (t @ u) \<longleftrightarrow> closed db t \<or> closed db u"
  and dialled_append [simp]: "dialled db (t @ u) \<longleftrightarrow> dialled db t \<or> dialled db u"
  by (auto simp: closed_def dialled_def)

lemma closeClients_run:
  "outcome (closeClients X c) s = c\<lparr>cl_sb := False, cl_nb := False\<rparr>"
  "isOpen db c \<Longrightarrow> closed db (trace (closeClients X c) s)" "\<not> dialled db (trace (closeClients X c) s)"
  by (cases db; simp add: closeClients_def run_bind pure_connection closeDB_run)+

lemma refresh_quiet:
  "\<not> closed db (trace (refreshState cfg D st) s)" "\<not> dialled db (trace (refreshState cfg D st) s)"
proof -
  have "emits (\<lambda>e. e \<noteq> EvQuery [''close'', dbName db] \<and> e \<noteq> EvQuery [''connect'', dbName db]) (refreshState cfg D st)"
    unfolding refreshState_def by (intro emits_intros emits_lists) simp_all
  then show "\<not> closed db (trace (refreshState cfg D st) s)" "\<not> dialled db (trace (refreshState cfg D st) s)"
    unfolding closed_def dialled_def by (auto dest!: emits_traceD)
qed

lemma connectSteps_run:
  fixes X :: "'s connenv" and s :: 's and D :: "'s ovnenv" and cfg :: Config
  assumes "\<not> cl_sb c" "\<not> cl_nb c"
  defines "r \<equiv> outcome (connectSteps X D cfg c) s" and "t \<equiv> trace (connectSteps X D cfg c) s"
  shows "(\<forall>db. dialled db t \<longrightarrow> isOpen db (snd r)) \<and> \<not> closed db t
    \<and> (if fst r = None then cl_sb (snd r) \<and> cl_nb (snd r) \<and> cl_ready (snd r) \<and> cl_loop (snd r)
       else cl_ready (snd r) = cl_ready c \<and> cl_loop (snd r) = cl_loop c)"
proof -
  obtain e1 c1 where o1: "outcome (openDB X SB (c_OVNSBRemote cfg) c) s = (e1, c1)" by force
  define s1 where "s1 = final (openDB X SB (c_OVNSBRemote cfg) c) s"
  obtain e2 c2 where o2: "outcome (openDB X NB (c_OVNNBRemote cfg) c1) s1 = (e2, c2)" by force
  define s2 where "s2 = final (openDB X NB (c_OVNNBRemote cfg) c1) s1"
  define t1 where "t1 = trace (openDB X SB (c_OVNSBRemote cfg) c) s"
  define t2 where "t2 = trace (openDB X NB (c_OVNNBRemote cfg) c1) s1"
  define K2 where "K2 = (\<lambda>(e :: goerr option, c :: OVNClient). case e of Some err \<Rightarrow> ret (Some err, c) | None \<Rightarrow>
     do { st \<leftarrow> refreshState cfg D (cl_state c);
          ret (None, c\<lparr>cl_ready := True, cl_state := st, cl_loop := True\<rparr>) })"
  define K1 where "K1 = (\<lambda>(e :: goerr option, c :: OVNClient). case e of Some err \<Rightarrow> ret (Some err, c) | None \<Rightarrow>
     State_Monad.bind (openDB X NB (c_OVNNBRemote cfg) c) K2)"
  have pK2: "pure_log (K2 x)" for x unfolding K2_def by (intro emits_intros pure_connection)
  have pK1: "pure_log (K1 x)" for x unfolding K1_def by (intro emits_intros pure_connection pK2)
  have steps: "connectSteps X D cfg c = State_Monad.bind (openDB X SB (c_OVNSBRemote cfg) c) K1"
    unfolding connectSteps_def K1_def K2_def ..
  have sb: "\<not> isOpen SB c" using assms(1) by simp
  note a = openDB_run [OF sb, where X = X and remote = "c_OVNSBRemote cfg" and s = s, unfolded o1 t1_def [symmetric], simplified]
  have nb: "\<not> isOpen NB c1" using a(1) assms(2) by auto
  note b = openDB_run [OF nb, where X = X and remote = "c_OVNNBRemote cfg" and s = s1, unfolded o2 t2_def [symmetric], simplified]
  show ?thesis
  proof (cases e1)
    case (Some err)
    then have "K1 (e1, c1) = ret (Some err, c1)" by (simp add: K1_def)
    then have "r = (Some err, c1)" "t = t1"
      unfolding r_def t_def steps t1_def by (simp_all add: run_bind [OF pure_connection(1) pK1] o1)
    moreover have "dialled db t1 \<longrightarrow> isOpen db c1" for db
      using a by (cases db) auto
    ultimately show ?thesis using a Some by auto
  next
    case None
    have k1: "outcome (K1 (e1, c1)) s1 = outcome (K2 (e2, c2)) s2" "trace (K1 (e1, c1)) s1 = t2 @ trace (K2 (e2, c2)) s2"
    proof -
      have "K1 (e1, c1) = State_Monad.bind (openDB X NB (c_OVNNBRemote cfg) c1) K2" using None by (simp add: K1_def)
      then show "outcome (K1 (e1, c1)) s1 = outcome (K2 (e2, c2)) s2" "trace (K1 (e1, c1)) s1 = t2 @ trace (K2 (e2, c2)) s2"
        unfolding t2_def s2_def by (simp_all add: run_bind [OF pure_connection(1) pK2] o2)
    qed
    then have r: "r = outcome (K2 (e2, c2)) s2" "t = t1 @ t2 @ trace (K2 (e2, c2)) s2"
      unfolding r_def t_def steps t1_def s1_def
      by (simp_all add: run_bind [OF pure_connection(1) pK1] o1)
    have d: "dialled db (t1 @ t2) \<longrightarrow> isOpen db c2" for db
      using a b by (cases db) auto
    show ?thesis
    proof (cases e2)
      case e2: None
      have "c1 = setOpen SB True c" "c2 = setOpen NB True c1" using a(1) b(1) None e2 by auto
      then have "cl_sb c2" "cl_nb c2" by simp_all
      then show ?thesis
        using a b d e2 unfolding r K2_def
        by (simp add: run_bind pure_connection emits_intros refresh_quiet)
    next
      case (Some err)
      then show ?thesis using a b d by (auto simp: r K2_def)
    qed
  qed
qed

text \<open>
  C15. No connection leaks from a failed attempt, whatever step failed: from a client without
  connections, \<open>Connect\<close> either fails, having closed every connection it dialled, with both clients
  nil again and no loop started, so that the next attempt begins like this one; or it succeeds
  with both clients open, ready, its loop started and nothing closed.
\<close>

theorem Connect_no_leak:
  fixes X :: "'s connenv" and s :: 's and D :: "'s ovnenv" and cfg :: Config
  assumes "\<not> cl_sb c" "\<not> cl_nb c"
  shows "let (e, c') = outcome (Connect X D cfg c) s; t = trace (Connect X D cfg c) s
    in if e = None then cl_sb c' \<and> cl_nb c' \<and> cl_ready c' \<and> cl_loop c' \<and> \<not> closed db t
       else \<not> cl_sb c' \<and> \<not> cl_nb c' \<and> cl_ready c' = cl_ready c \<and> cl_loop c' = cl_loop c
         \<and> (\<not> dialled db t \<or> closed db t)"
proof -
  define K where "K = (\<lambda>(e :: goerr option, c :: OVNClient). case e of None \<Rightarrow> ret (None, c)
     | Some err \<Rightarrow> do { c \<leftarrow> closeClients X c; ret (Some err, c) })"
  have pK: "pure_log (K x)" for x unfolding K_def by (intro emits_intros pure_connection)
  define h where "h = fst (x_hostname X s)"
  define s1 where "s1 = snd (x_hostname X s)"
  define b where "b n = State_Monad.bind (connectSteps X D cfg (c\<lparr>cl_state := (cl_state c)\<lparr>s_LocalChassisName := n\<rparr>\<rparr>)) K" for n
  have pb: "pure_log (b n)" for n unfolding b_def by (intro emits_intros pure_connection pK)
  have pc: "pure_log (case getHostname h of Inl err \<Rightarrow> ret (Some (ErrWrap ''get hostname'' err), c) | Inr n \<Rightarrow> b n)" for h
    by (intro emits_intros pb)
  have C: "Connect X D cfg c = State_Monad.bind (call (EvQuery [''hostname'']) (x_hostname X))
      (\<lambda>h. case getHostname h of Inl err \<Rightarrow> ret (Some (ErrWrap ''get hostname'' err), c) | Inr n \<Rightarrow> b n)"
    unfolding Connect_def b_def K_def ..
  have ph: "pure_log (call (EvQuery [''hostname'']) (x_hostname X))" by (intro emits_intros) simp
  show ?thesis
  proof (cases "getHostname h")
    case (Inl err)
    then show ?thesis
      using assms unfolding C
      by (simp add: run_bind [OF ph pc] h_def dialled_def closed_def)
  next
    case (Inr n)
    let ?c = "c\<lparr>cl_state := (cl_state c)\<lparr>s_LocalChassisName := n\<rparr>\<rparr>"
    obtain e c1 where o: "outcome (connectSteps X D cfg ?c) s1 = (e, c1)" by force
    have k: "outcome (b n) s1 = outcome (K (e, c1)) (final (connectSteps X D cfg ?c) s1)"
      "trace (b n) s1 = trace (connectSteps X D cfg ?c) s1 @ trace (K (e, c1)) (final (connectSteps X D cfg ?c) s1)"
      unfolding b_def by (simp_all add: run_bind [OF pure_connection(5) pK] o)
    have hd: "outcome (Connect X D cfg c) s = outcome (b n) s1"
      "trace (Connect X D cfg c) s = EvQuery [''hostname''] # trace (b n) s1"
      unfolding C using Inr by (simp_all add: run_bind [OF ph pc] h_def s1_def)
    have st: "(\<forall>db. dialled db (trace (connectSteps X D cfg ?c) s1) \<longrightarrow> isOpen db c1)
        \<and> \<not> closed db (trace (connectSteps X D cfg ?c) s1)
        \<and> (if e = None then cl_sb c1 \<and> cl_nb c1 \<and> cl_ready c1 \<and> cl_loop c1
           else cl_ready c1 = cl_ready c \<and> cl_loop c1 = cl_loop c)" for db
    proof -
      have c: "\<not> cl_sb ?c" "\<not> cl_nb ?c" using assms by simp_all
      from connectSteps_run [OF c, where db = db and X = X and D = D and cfg = cfg and s = s1, unfolded o]
      show ?thesis by (cases e) simp_all
    qed
    have q: "closed db (EvQuery [''hostname''] # t) = closed db t" "dialled db (EvQuery [''hostname''] # t) = dialled db t" for t
      by (simp_all add: closed_def dialled_def)
    show ?thesis
    proof (cases e)
      case None
      then have "K (e, c1) = ret (None, c1)" by (simp add: K_def)
      then show ?thesis using st [of db] None by (simp add: hd k q)
    next
      case (Some err)
      then have "K (e, c1) = do { c \<leftarrow> closeClients X c1; ret (Some err, c) }" by (simp add: K_def)
      then show ?thesis
        using st [of db] Some
        by (auto simp: hd k q run_bind pure_connection emits_intros closeClients_run)
    qed
  qed
qed
section \<open>Examples\<close>

text \<open>The northbound database refuses: the southbound connection is closed again.\<close>

definition nb_down :: "unit connenv" where
  "nb_down = \<lparr>x_hostname = \<lambda>s. (Inr ''n1.example'', s), x_model = \<lambda>db s. (None, s), x_new = \<lambda>db es s. (None, s),
     x_dial = \<lambda>db s. (if db = NB then Some (ErrMsg ''refused'') else None, s), x_monitor = \<lambda>db ts s. (None, s),
     x_close = \<lambda>db s. ((), s)\<rparr>"

theorem Connect_no_leak_witness:
  "let (e, c') = outcome (Connect nb_down quiet_ovn defaultConfig NewOVNClient) ();
       t = trace (Connect nb_down quiet_ovn defaultConfig NewOVNClient) ()
   in e \<noteq> None \<and> \<not> cl_sb c' \<and> \<not> cl_nb c' \<and> \<not> cl_ready c' \<and> \<not> cl_loop c' \<and> dialled SB t \<and> closed SB t"
proof -
  have n: "\<not> cl_sb NewOVNClient" "\<not> cl_nb NewOVNClient" "\<not> cl_ready NewOVNClient" "\<not> cl_loop NewOVNClient"
    by (simp_all add: NewOVNClient_def)
  have f: "fst (outcome (Connect nb_down quiet_ovn defaultConfig NewOVNClient) ()) \<noteq> None
      \<and> dialled SB (trace (Connect nb_down quiet_ovn defaultConfig NewOVNClient) ())"
    by (simp add: outcome_def trace_def Connect_def connectSteps_def openDB_def closeClients_def closeDB_def
        nb_down_def getHostname_def dialled_def NewOVNClient_def)
  with n Connect_no_leak [of NewOVNClient nb_down quiet_ovn defaultConfig "()" SB] show ?thesis
    by (simp add: Let_def case_prod_unfold)
qed

end
