(* ===== verification/RouteSync.thy ===== *)
theory RouteSync
  imports Agent
begin

text \<open>
  Route synchronisation (\<open>ensureRoutes\<close> and \<open>verifyRoutes\<close> of \<open>agent.go\<close>): the abstract
  specification of a synchronised route set, and the proof that the detailed code implements it on
  an environment that does what it is told; and what holds on every environment.
\<close>

section \<open>What the steps may do\<close>

lemma emits_frr:
  "(\<And>c. P (EvVtysh (batchArgs rm (map (routeCmd rm) c)))) \<Longrightarrow> emits P (AddFRRRoutes E rm ips)"
  "(\<And>c. P (EvVtysh (batchArgs rm (map (noRouteCmd rm) c)))) \<Longrightarrow> emits P (DelFRRRoutes E rm ips)"
  "P (EvVtysh [''-c'', ''show ip route vrf '' @ rm_vrfName rm @ '' static'']) \<Longrightarrow> emits P (ListFRRRoutes E rm)"
  "P (EvVtysh [''-c'', ''clear ip bgp vrf '' @ rm_vrfName rm @ '' * soft out'']) \<Longrightarrow> emits P (RefreshBGP E rm)"
  by (auto simp: ListFRRRoutes_def RefreshBGP_def runVtysh_def intro!: emits_intros frrAdd.emits_run frrDel.emits_run)

lemma pure_routes:
  "pure_log (AddFRRRoutes E rm ips)" "pure_log (DelFRRRoutes E rm ips)" "pure_log (ListFRRRoutes E rm)"
  "pure_log (RefreshBGP E rm)" "pure_log (AddKernelRoute E rm ip)" "pure_log (DelKernelRoute E rm ip)"
  "pure_log (ListKernelRoutes E rm)"
  by (intro emits_frr emits_AddKernelRoute emits_DelKernelRoute emits_ListKernelRoutes; simp)+

lemma pure_listed: "pure_log (listedKernel E a)" "pure_log (listedFRR E a)"
  unfolding listedKernel_def listedFRR_def by (intro emits_intros pure_routes)+

lemma pure_verifyRoutes: "pure_log (verifyRoutes E a desired)"
  unfolding verifyRoutes_def by (intro emits_intros pure_routes)

lemma run_ignoring:
  assumes "pure_log m"
  shows "outcome (ignoring m) s = ()" "trace (ignoring m) s = trace m s" "final (ignoring m) s = final m s"
  using assms by (simp_all add: ignoring_def run_bind emits_intros)

lemma for_each_final:
  assumes "\<And>x. pure_log (f x)" "\<And>x s. x \<in> set xs \<Longrightarrow> view (final (f x) s) = g x (view s)"
  shows "view (final (for_each f xs) s) = fold g xs (view s)"
  using assms(2)
proof (induction xs arbitrary: s)
  case (Cons x xs)
  have "pure_log (for_each f xs)" by (intro emits_intros assms(1))
  then show ?case using Cons by (simp add: run_bind assms(1))
qed simp

lemma for_err_final:
  assumes "\<And>x. pure_log (f x)"
    and "\<And>x s. x \<in> set xs \<Longrightarrow> outcome (f x) s = None \<and> view (final (f x) s) = g x (view s)"
  shows "outcome (for_err f xs) s = None \<and> view (final (for_err f xs) s) = fold g xs (view s)"
  using assms(2)
proof (induction xs arbitrary: s)
  case (Cons x xs)
  have p: "pure_log (case e of Some err \<Rightarrow> ret (Some err) | None \<Rightarrow> for_err f xs)" for e
    by (intro emits_intros assms(1))
  show ?case using Cons by (simp add: run_bind [OF assms(1) p])
qed simp

section \<open>An environment that does what it is told\<close>

text \<open>
  The hypothesis of the refinement, in terms of two views of the environment: the host routes of
  the bridge and the static routes of FRR. It says of netlink and vtysh what their documentation
  does: listings report the views, replacing and deleting a route and the two batches change them
  by exactly the routes named, and policy rules and the BGP refresh leave them alone.
\<close>

definition ip4s :: "string set \<Rightarrow> bool" where
  "ip4s S \<longleftrightarrow> S \<subseteq> range dotted"

definition obedient ::
  "'s sysenv \<Rightarrow> RouteManager \<Rightarrow> lnk \<Rightarrow> ('s \<Rightarrow> string set) \<Rightarrow> ('s \<Rightarrow> string set) \<Rightarrow> bool" where
  "obedient E rm link kern frr \<longleftrightarrow>
     (\<forall>s. ip4s (kern s) \<and> ip4s (frr s))
   \<and> (\<forall>s. e_link E (rm_bridgeDev rm) s = (Inr link, s))
   \<and> (\<forall>s. \<exists>rs. e_routes E (bridgeFilter rm link) s = (Inr rs, s) \<and> set (hostRoutes rs) = kern s)
   \<and> (\<forall>s w. \<exists>s'. e_netlink E (RouteReplace (hostRoute rm link (IPv4 w))) s = (None, s')
        \<and> kern s' = insert (dotted w) (kern s) \<and> frr s' = frr s)
   \<and> (\<forall>s w. \<exists>s'. e_netlink E (RouteDel (hostRoute rm link (IPv4 w))) s = (None, s')
        \<and> kern s' = kern s - {dotted w} \<and> frr s' = frr s)
   \<and> (\<forall>s d. \<exists>s'. e_netlink E (RuleAdd (ipRule rm d)) s = (None, s') \<and> kern s' = kern s \<and> frr s' = frr s)
   \<and> (\<forall>s d. \<exists>e s'. e_netlink E (RuleDel (ipRule rm d)) s = (e, s') \<and> kern s' = kern s \<and> frr s' = frr s)
   \<and> (\<forall>s. \<exists>out. e_vtysh E [''-c'', ''show ip route vrf '' @ rm_vrfName rm @ '' static''] s = ((out, None), s)
        \<and> set (List.map_filter parseRouteLine (Split newline out)) = frr s)
   \<and> (\<forall>s ips. ip4s (set ips) \<longrightarrow> (\<exists>out s'. e_vtysh E (batchArgs rm (map (routeCmd rm) ips)) s = ((out, None), s')
        \<and> kern s' = kern s \<and> frr s' = frr s \<union> set ips))
   \<and> (\<forall>s ips. ip4s (set ips) \<longrightarrow> (\<exists>out s'. e_vtysh E (batchArgs rm (map (noRouteCmd rm) ips)) s = ((out, None), s')
        \<and> kern s' = kern s \<and> frr s' = frr s - set ips))
   \<and> (\<forall>s. \<exists>r s'. e_vtysh E [''-c'', ''clear ip bgp vrf '' @ rm_vrfName rm @ '' * soft out''] s = (r, s')
        \<and> kern s' = kern s \<and> frr s' = frr s)"

lemma obedientD:
  assumes "obedient E rm link kern frr"
  shows "ip4s (kern s)" "ip4s (frr s)" "e_link E (rm_bridgeDev rm) s = (Inr link, s)"
    and "\<exists>rs. e_routes E (bridgeFilter rm link) s = (Inr rs, s) \<and> set (hostRoutes rs) = kern s"
    and "\<exists>s'. e_netlink E (RouteReplace (hostRoute rm link (IPv4 w))) s = (None, s')
        \<and> kern s' = insert (dotted w) (kern s) \<and> frr s' = frr s"
    and "\<exists>s'. e_netlink E (RouteDel (hostRoute rm link (IPv4 w))) s = (None, s')
        \<and> kern s' = kern s - {dotted w} \<and> frr s' = frr s"
    and "\<exists>s'. e_netlink E (RuleAdd (ipRule rm d)) s = (None, s') \<and> kern s' = kern s \<and> frr s' = frr s"
    and "\<exists>e s'. e_netlink E (RuleDel (ipRule rm d)) s = (e, s') \<and> kern s' = kern s \<and> frr s' = frr s"
    and "\<exists>out. e_vtysh E [''-c'', ''show ip route vrf '' @ rm_vrfName rm @ '' static''] s = ((out, None), s)
        \<and> set (List.map_filter parseRouteLine (Split newline out)) = frr s"
    and "ip4s (set ips) \<Longrightarrow> \<exists>out s'. e_vtysh E (batchArgs rm (map (routeCmd rm) ips)) s = ((out, None), s')
        \<and> kern s' = kern s \<and> frr s' = frr s \<union> set ips"
    and "ip4s (set ips) \<Longrightarrow> \<exists>out s'. e_vtysh E (batchArgs rm (map (noRouteCmd rm) ips)) s = ((out, None), s')
        \<and> kern s' = kern s \<and> frr s' = frr s - set ips"
    and "\<exists>r s'. e_vtysh E [''-c'', ''clear ip bgp vrf '' @ rm_vrfName rm @ '' * soft out''] s = (r, s')
        \<and> kern s' = kern s \<and> frr s' = frr s"
  using assms unfolding obedient_def by - (elim conjE, meson)+

lemma ip4s_parse: "ip4s S \<Longrightarrow> x \<in> S \<Longrightarrow> \<exists>w. x = dotted w \<and> ParseIP x = Some (IPv4 w)"
  using ParseIP_dotted by (auto simp: ip4s_def)

lemma ip4s_valid: "ip4s (set ips) \<Longrightarrow> validateAll ips = None"
  unfolding validateAll_iff list_all_iff using ip4s_parse by force

text \<open>The two views together.\<close>

definition view :: "('s \<Rightarrow> string set) \<Rightarrow> ('s \<Rightarrow> string set) \<Rightarrow> 's \<Rightarrow> string set \<times> string set" where
  "view kern frr s = (kern s, frr s)"

lemma ob_ListKernelRoutes:
  assumes "obedient E rm link kern frr" "\<not> rm_dryRun rm"
  shows "final (ListKernelRoutes E rm) s = s"
    and "\<exists>l. outcome (ListKernelRoutes E rm) s = Inr l \<and> set l = kern s"
proof -
  obtain rs where "e_routes E (bridgeFilter rm link) s = (Inr rs, s)" "set (hostRoutes rs) = kern s"
    using obedientD(4) [OF assms(1)] by blast
  with obedientD(3) [OF assms(1)] assms(2)
  show "final (ListKernelRoutes E rm) s = s" "\<exists>l. outcome (ListKernelRoutes E rm) s = Inr l \<and> set l = kern s"
    by (simp_all add: ListKernelRoutes_def run_prims)
qed

lemma ob_ListFRRRoutes:
  assumes "obedient E rm link kern frr" "\<not> rm_dryRun rm"
  shows "final (ListFRRRoutes E rm) s = s"
    and "\<exists>l. outcome (ListFRRRoutes E rm) s = Inr l \<and> set l = frr s"
proof -
  obtain out where "e_vtysh E [''-c'', ''show ip route vrf '' @ rm_vrfName rm @ '' static''] s = ((out, None), s)"
    "set (List.map_filter parseRouteLine (Split newline out)) = frr s"
    using obedientD(9) [OF assms(1)] by blast
  with assms(2)
  show "final (ListFRRRoutes E rm) s = s" "\<exists>l. outcome (ListFRRRoutes E rm) s = Inr l \<and> set l = frr s"
    by (simp_all add: ListFRRRoutes_def runVtysh_def run_prims)
qed

lemma ob_AddKernelRoute:
  assumes "obedient E rm link kern frr" "\<not> rm_dryRun rm" "ip4s {ip}"
  shows "view kern frr (final (AddKernelRoute E rm ip) s) = (insert ip (kern s), frr s)"
proof -
  obtain w where w: "ip = dotted w" "ParseIP ip = Some (IPv4 w)" using ip4s_parse [OF assms(3)] by auto
  obtain s1 where s1: "e_netlink E (RouteReplace (hostRoute rm link (IPv4 w))) s = (None, s1)"
      "kern s1 = insert (dotted w) (kern s)" "frr s1 = frr s"
    using obedientD(5) [OF assms(1)] by blast
  obtain s2 where s2: "e_netlink E (RuleAdd (ipRule rm (host32 (IPv4 w)))) s1 = (None, s2)"
      "kern s2 = kern s1" "frr s2 = frr s1"
    using obedientD(7) [OF assms(1)] by blast
  show ?thesis
    using obedientD(3) [OF assms(1)] assms(2) s1 s2
    by (simp add: view_def AddKernelRoute_def ensureIPRule_def run_prims w(2)) (simp add: w(1))
qed

lemma ob_DelKernelRoute:
  assumes "obedient E rm link kern frr" "\<not> rm_dryRun rm" "ip4s {ip}"
  shows "view kern frr (final (DelKernelRoute E rm ip) s) = (kern s - {ip}, frr s)"
proof -
  obtain w where w: "ip = dotted w" "ParseIP ip = Some (IPv4 w)" using ip4s_parse [OF assms(3)] by auto
  obtain e s1 where s1: "e_netlink E (RuleDel (ipRule rm (host32 (IPv4 w)))) s = (e, s1)"
      "kern s1 = kern s" "frr s1 = frr s"
    using obedientD(8) [OF assms(1)] by blast
  let ?s = "if 0 < rm_routeTableID rm then s1 else s"
  obtain s2 where s2: "e_netlink E (RouteDel (hostRoute rm link (IPv4 w))) ?s = (None, s2)"
      "kern s2 = kern ?s - {dotted w}" "frr s2 = frr ?s"
    using obedientD(6) [OF assms(1)] by blast
  show ?thesis
    using obedientD(3) [OF assms(1)] assms(2) s1 s2
    by (cases "0 < rm_routeTableID rm")
      (simp_all add: view_def DelKernelRoute_def removeIPRule_def run_prims w(2), simp_all add: w(1))
qed

lemma ob_addBatch:
  assumes "obedient E rm link kern frr" "ip4s (set c)"
  shows "outcome (addBatch E rm c) s = None \<and> view kern frr (final (addBatch E rm c) s) = (kern s, frr s \<union> set c)"
proof -
  obtain out s' where "e_vtysh E (batchArgs rm (map (routeCmd rm) c)) s = ((out, None), s')"
      "kern s' = kern s" "frr s' = frr s \<union> set c"
    using obedientD(10) [OF assms] by blast
  then show ?thesis by (simp add: addBatch_def runVtysh_def run_prims view_def)
qed

lemma ob_delBatch:
  assumes "obedient E rm link kern frr" "ip4s (set c)"
  shows "outcome (delBatch E rm c) s = None \<and> view kern frr (final (delBatch E rm c) s) = (kern s, frr s - set c)"
proof -
  obtain out s' where "e_vtysh E (batchArgs rm (map (noRouteCmd rm) c)) s = ((out, None), s')"
      "kern s' = kern s" "frr s' = frr s - set c"
    using obedientD(11) [OF assms] by blast
  then show ?thesis by (simp add: delBatch_def runVtysh_def run_prims view_def)
qed

lemma chunk_subset: "c \<in> set (chunks 500 ips) \<Longrightarrow> set c \<subseteq> set ips"
  using chunks_concat [of 500 ips] by (metis UN_I set_concat subsetI zero_less_numeral)

lemma fold_union: "fold (\<lambda>c v. (fst v, snd v \<union> set c)) cs v = (fst v, snd v \<union> set (concat cs))"
  by (induction cs arbitrary: v) auto

lemma fold_minus: "fold (\<lambda>c v. (fst v, snd v - set c)) cs v = (fst v, snd v - set (concat cs))"
  by (induction cs arbitrary: v) auto

lemma ob_AddFRRRoutes:
  assumes "obedient E rm link kern frr" "\<not> rm_dryRun rm" "ip4s (set ips)"
  shows "view kern frr (final (AddFRRRoutes E rm ips) s) = (kern s, frr s \<union> set ips)"
proof (cases "ips = []")
  case False
  have c: "ip4s (set c)" if "c \<in> set (chunks 500 ips)" for c
    using that chunk_subset assms(3) by (fastforce simp: ip4s_def)
  have "view kern frr (final (for_err (addBatch E rm) (chunks 500 ips)) s) =
      fold (\<lambda>c v. (fst v, snd v \<union> set c)) (chunks 500 ips) (view kern frr s)"
    by (rule conjunct2 [OF for_err_final [where view = "view kern frr"]])
      (use ob_addBatch [OF assms(1) c] in \<open>auto simp: view_def intro: frrAdd.batch_pure\<close>)
  then show ?thesis
    using False assms(2) ip4s_valid [OF assms(3)]
    by (simp add: AddFRRRoutes_def frrBatchSize_def fold_union chunks_concat view_def)
qed (simp add: AddFRRRoutes_def view_def)

lemma ob_DelFRRRoutes:
  assumes "obedient E rm link kern frr" "\<not> rm_dryRun rm" "ip4s (set ips)"
  shows "view kern frr (final (DelFRRRoutes E rm ips) s) = (kern s, frr s - set ips)"
proof (cases "ips = []")
  case False
  have c: "ip4s (set c)" if "c \<in> set (chunks 500 ips)" for c
    using that chunk_subset assms(3) by (fastforce simp: ip4s_def)
  have "view kern frr (final (for_err (delBatch E rm) (chunks 500 ips)) s) =
      fold (\<lambda>c v. (fst v, snd v - set c)) (chunks 500 ips) (view kern frr s)"
    by (rule conjunct2 [OF for_err_final [where view = "view kern frr"]])
      (use ob_delBatch [OF assms(1) c] in \<open>auto simp: view_def intro: frrDel.batch_pure\<close>)
  then show ?thesis
    using False assms(2) ip4s_valid [OF assms(3)]
    by (simp add: DelFRRRoutes_def frrBatchSize_def fold_minus chunks_concat view_def)
qed (simp add: DelFRRRoutes_def view_def)

lemma ob_RefreshBGP:
  assumes "obedient E rm link kern frr"
  shows "view kern frr (final (RefreshBGP E rm) s) = (kern s, frr s)"
proof -
  obtain r s' where "e_vtysh E [''-c'', ''clear ip bgp vrf '' @ rm_vrfName rm @ '' * soft out''] s = (r, s')"
      "kern s' = kern s" "frr s' = frr s"
    using obedientD(12) [OF assms] by blast
  then show ?thesis by (cases r) (simp add: RefreshBGP_def runVtysh_def run_prims view_def)
qed

lemma fold_insert: "fold (\<lambda>x v. (insert x (fst v), snd v)) xs v = (fst v \<union> set xs, snd v)"
  by (induction xs arbitrary: v) auto

lemma fold_delete: "fold (\<lambda>x v. (fst v - {x}, snd v)) xs v = (fst v - set xs, snd v)"
  by (induction xs arbitrary: v) auto

lemma ob_addKernelRoutes:
  assumes "obedient E rm link kern frr" "\<not> rm_dryRun rm" "ip4s (set ips)"
  shows "view kern frr (final (for_each (\<lambda>ip. ignoring (AddKernelRoute E rm ip)) ips) s) = (kern s \<union> set ips, frr s)"
proof -
  have "ip4s {ip}" if "ip \<in> set ips" for ip using that assms(3) by (auto simp: ip4s_def)
  then have "view kern frr (final (for_each (\<lambda>ip. ignoring (AddKernelRoute E rm ip)) ips) s) =
      fold (\<lambda>x v. (insert x (fst v), snd v)) ips (view kern frr s)"
    by (intro for_each_final) (simp_all add: run_ignoring pure_routes emits_ignoring ob_AddKernelRoute [OF assms(1,2)], simp add: view_def)
  then show ?thesis by (simp add: fold_insert view_def)
qed

lemma ob_delKernelRoutes:
  assumes "obedient E rm link kern frr" "\<not> rm_dryRun rm" "ip4s (set ips)"
  shows "view kern frr (final (for_each (\<lambda>ip. ignoring (DelKernelRoute E rm ip)) ips) s) = (kern s - set ips, frr s)"
proof -
  have "ip4s {ip}" if "ip \<in> set ips" for ip using that assms(3) by (auto simp: ip4s_def)
  then have "view kern frr (final (for_each (\<lambda>ip. ignoring (DelKernelRoute E rm ip)) ips) s) =
      fold (\<lambda>x v. (fst v - {x}, snd v)) ips (view kern frr s)"
    by (intro for_each_final) (simp_all add: run_ignoring pure_routes emits_ignoring ob_DelKernelRoute [OF assms(1,2)], simp add: view_def)
  then show ?thesis by (simp add: fold_delete view_def)
qed

section \<open>The refinement\<close>

text \<open>
  The abstract specification of a synchronisation: on both sides, the desired addresses and
  whatever is not managed by the agent.
\<close>

definition syncSpec ::
  "(string \<Rightarrow> bool) \<Rightarrow> string set \<Rightarrow> string set \<times> string set \<Rightarrow> string set \<times> string set" where
  "syncSpec mine desired v =
     (desired \<union> {x \<in> fst v. \<not> mine x}, desired \<union> {x \<in> snd v. \<not> mine x})"

lemma ob_listed:
  assumes "obedient E (a_routing a) link kern frr" "\<not> rm_dryRun (a_routing a)" "manageKernel a"
  shows "set (outcome (listedKernel E a) s) = kern s" "final (listedKernel E a) s = s"
    and "set (outcome (listedFRR E a) s) = frr s" "final (listedFRR E a) s = s"
proof -
  obtain l where "outcome (ListKernelRoutes E (a_routing a)) s = Inr l" "set l = kern s"
    using ob_ListKernelRoutes(2) [OF assms(1,2)] by blast
  with assms(3) show "set (outcome (listedKernel E a) s) = kern s" "final (listedKernel E a) s = s"
    by (simp_all add: listedKernel_def run_bind pure_routes emits_intros ob_ListKernelRoutes(1) [OF assms(1,2)])
  obtain l where "outcome (ListFRRRoutes E (a_routing a)) s = Inr l" "set l = frr s"
    using ob_ListFRRRoutes(2) [OF assms(1,2)] by blast
  then show "set (outcome (listedFRR E a) s) = frr s" "final (listedFRR E a) s = s"
    by (simp_all add: listedFRR_def run_bind pure_routes emits_intros ob_ListFRRRoutes(1) [OF assms(1,2)])
qed

text \<open>Verification finds nothing to do when the desired routes are there.\<close>

lemma ob_verifyRoutes:
  assumes "obedient E (a_routing a) link kern frr" "\<not> rm_dryRun (a_routing a)" "manageKernel a"
    and "set desired \<subseteq> kern s" "set desired \<subseteq> frr s"
  shows "outcome (verifyRoutes E a desired) s = (0, a\<lparr>a_consecutiveReAdds := 0\<rparr>)"
    and "final (verifyRoutes E a desired) s = s"
proof -
  let ?rm = "a_routing a"
  define K where "K = (\<lambda>frr kern. let managedIPs = filter (isManaged a) desired;
              reAddFRR = filter (\<lambda>ip. \<not> has frr ip) managedIPs;
              reAddKernel = filter (\<lambda>ip. manageKernel a \<and> \<not> has kern ip) managedIPs;
              total = length reAddFRR + length reAddKernel
          in do { _ \<leftarrow> for_each (\<lambda>ip. ignoring (AddKernelRoute E ?rm ip)) reAddKernel;
                  _ \<leftarrow> (if reAddFRR \<noteq> [] then ignoring (AddFRRRoutes E ?rm reAddFRR) else ret ());
                  ret (total, a\<lparr>a_consecutiveReAdds := (if total > 0 then a_consecutiveReAdds a + 1 else 0)\<rparr>) })"
  define J where "J = (\<lambda>frr. State_Monad.bind (ListKernelRoutes E ?rm) (\<lambda>k. case k of
      Inl err \<Rightarrow> ret (0, a) | Inr kern \<Rightarrow> K frr kern))"
  have run: "verifyRoutes E a desired = State_Monad.bind (ListFRRRoutes E ?rm) (\<lambda>f. case f of
      Inl err \<Rightarrow> ret (0, a) | Inr frr \<Rightarrow> J frr)"
    unfolding verifyRoutes_def J_def K_def if_P [OF assms(3)] ..
  have pK: "pure_log (K f k)" for f k
    unfolding K_def Let_def by (intro emits_intros pure_routes)
  have pJ: "pure_log (J f)" for f
    unfolding J_def by (intro emits_intros pure_routes pK)
  have pj: "pure_log (case f of Inl err \<Rightarrow> ret (0, a) | Inr frr \<Rightarrow> J frr)" for f :: "string list result"
    by (intro emits_intros pJ)
  have pk: "pure_log (case k of Inl err \<Rightarrow> ret (0, a) | Inr kern \<Rightarrow> K f kern)" for f and k :: "string list result"
    by (intro emits_intros pK)
  obtain k where k: "outcome (ListKernelRoutes E ?rm) s = Inr k" "set k = kern s"
    using ob_ListKernelRoutes(2) [OF assms(1,2)] by blast
  obtain f where f: "outcome (ListFRRRoutes E ?rm) s = Inr f" "set f = frr s"
    using ob_ListFRRRoutes(2) [OF assms(1,2)] by blast
  have none: "filter (\<lambda>ip. \<not> has f ip) (filter (isManaged a) desired) = []"
    "filter (\<lambda>ip. manageKernel a \<and> \<not> has k ip) (filter (isManaged a) desired) = []"
    using assms(4,5) k(2) f(2) by (auto simp: filter_empty_conv)
  have "K f k = ret (0, a\<lparr>a_consecutiveReAdds := 0\<rparr>)"
    unfolding K_def Let_def none by (simp add: State_Monad.bind_def State_Monad.return_def)
  then show "outcome (verifyRoutes E a desired) s = (0, a\<lparr>a_consecutiveReAdds := 0\<rparr>)"
    "final (verifyRoutes E a desired) s = s"
    by (simp_all add: run run_bind [OF pure_routes(3) pj] f J_def run_bind [OF pure_routes(7) pk] k
        ob_ListFRRRoutes(1) [OF assms(1,2)] ob_ListKernelRoutes(1) [OF assms(1,2)])
qed


lemma view_pair: "view kern frr s = (K, F) \<Longrightarrow> kern s = K \<and> frr s = F"
  by (simp add: view_def)

text \<open>The four changes of \<open>ensureRoutes\<close>, in order, with the lists it computes.\<close>

definition applyChanges ::
  "'s sysenv \<Rightarrow> Agent \<Rightarrow> string list \<Rightarrow> string list \<Rightarrow> string list \<Rightarrow> string list \<Rightarrow> ('s, unit) io" where
  "applyChanges E a addKernel addFRR delFRR delKernel =
     do { _ \<leftarrow> for_each (\<lambda>ip. ignoring (AddKernelRoute E (a_routing a) ip)) addKernel;
          _ \<leftarrow> (if addFRR \<noteq> [] then ignoring (AddFRRRoutes E (a_routing a) addFRR) else ret ());
          _ \<leftarrow> (if delFRR \<noteq> [] then ignoring (DelFRRRoutes E (a_routing a) delFRR) else ret ());
          for_each (\<lambda>ip. ignoring (DelKernelRoute E (a_routing a) ip)) delKernel }"

lemma pure_applyChanges: "pure_log (applyChanges E a ak af df dk)"
  unfolding applyChanges_def by (intro emits_intros pure_routes)

lemma bind_assoc_io: "State_Monad.bind (State_Monad.bind m f) g = State_Monad.bind m (\<lambda>x. State_Monad.bind (f x) g)"
  by (rule State_Monad.bind_assoc)

lemma ensureRoutes_steps:
  "ensureRoutes E a desired =
     do { kern \<leftarrow> listedKernel E a;
          frr \<leftarrow> listedFRR E a;
          _ \<leftarrow> applyChanges E a (filter (\<lambda>ip. manageKernel a \<and> \<not> has kern ip) desired)
                 (filter (\<lambda>ip. \<not> has frr ip) desired)
                 (staleKernel a desired kern @ orphanedFRR a desired kern frr)
                 (staleKernel a desired kern);
          if filter (\<lambda>ip. \<not> has frr ip) desired \<noteq> []
             \<or> staleKernel a desired kern @ orphanedFRR a desired kern frr \<noteq> []
          then do { _ \<leftarrow> ignoring (RefreshBGP E (a_routing a));
                    r \<leftarrow> verifyRoutes E a desired; ret (snd r) }
          else ret a }"
  unfolding ensureRoutes_def applyChanges_def Let_def State_Monad.bind_assoc ..

lemma ob_applyChanges:
  assumes "obedient E (a_routing a) link kern frr" "\<not> rm_dryRun (a_routing a)"
    and "ip4s (set ak)" "ip4s (set af)" "ip4s (set df)" "ip4s (set dk)"
  shows "view kern frr (final (applyChanges E a ak af df dk) s) =
    ((kern s \<union> set ak) - set dk, (frr s \<union> set af) - set df)"
proof -
  let ?rm = "a_routing a"
  define m1 where "m1 = for_each (\<lambda>ip. ignoring (AddKernelRoute E ?rm ip)) ak"
  define m2 where "m2 = (if af \<noteq> [] then ignoring (AddFRRRoutes E ?rm af) else ret ())"
  define m3 where "m3 = (if df \<noteq> [] then ignoring (DelFRRRoutes E ?rm df) else ret ())"
  define m4 where "m4 = for_each (\<lambda>ip. ignoring (DelKernelRoute E ?rm ip)) dk"
  have p: "pure_log m1" "pure_log m2" "pure_log m3" "pure_log m4"
    unfolding m1_def m2_def m3_def m4_def by (intro emits_intros pure_routes)+
  have 1: "view kern frr (final m1 s) = (kern s \<union> set ak, frr s)" for s
    unfolding m1_def by (rule ob_addKernelRoutes [OF assms(1-3)])
  have 2: "view kern frr (final m2 s) = (kern s, frr s \<union> set af)" for s
    unfolding m2_def using ob_AddFRRRoutes [OF assms(1,2,4)]
    by (simp add: run_ignoring pure_routes) (simp add: view_def)
  have 3: "view kern frr (final m3 s) = (kern s, frr s - set df)" for s
    unfolding m3_def using ob_DelFRRRoutes [OF assms(1,2,5)]
    by (simp add: run_ignoring pure_routes) (simp add: view_def)
  have 4: "view kern frr (final m4 s) = (kern s - set dk, frr s)" for s
    unfolding m4_def by (rule ob_delKernelRoutes [OF assms(1,2,6)])
  have "applyChanges E a ak af df dk = do { _ \<leftarrow> m1; _ \<leftarrow> m2; _ \<leftarrow> m3; m4 }"
    unfolding applyChanges_def m1_def m2_def m3_def m4_def ..
  then have "final (applyChanges E a ak af df dk) s = final m4 (final m3 (final m2 (final m1 s)))"
    by (simp add: run_bind p emits_intros)
  then show ?thesis
    using 1 [of s] 2 [of "final m1 s"] 3 [of "final m2 (final m1 s)"] 4 [of "final m3 (final m2 (final m1 s))"]
    by (simp add: view_def)
qed

lemma ob_ensureRoutes:
  assumes "obedient E (a_routing a) link kern frr" "\<not> rm_dryRun (a_routing a)"
    and "\<not> c_PortForwardOnly (a_cfg a)" "ip4s (set desired)"
  shows "view kern frr (final (ensureRoutes E a desired) s) =
      syncSpec (isManaged a) (set desired) (view kern frr s)
    \<and> outcome (ensureRoutes E a desired) s \<in> {a, a\<lparr>a_consecutiveReAdds := 0\<rparr>}"
proof -
  have mk: "manageKernel a" using assms(3) by (simp add: manageKernel_def)
  let ?k = "outcome (listedKernel E a) s" and ?f = "outcome (listedFRR E a) s"
  let ?ak = "filter (\<lambda>ip. manageKernel a \<and> \<not> has ?k ip) desired" and ?af = "filter (\<lambda>ip. \<not> has ?f ip) desired"
  let ?dk = "staleKernel a desired ?k"
  let ?df = "?dk @ orphanedFRR a desired ?k ?f"
  note l = ob_listed [OF assms(1,2) mk]
  have ip: "ip4s (set ?ak)" "ip4s (set ?af)" "ip4s (set ?df)" "ip4s (set ?dk)"
    using assms(4) obedientD(1,2) [OF assms(1), of s] l
    by (auto simp: ip4s_def staleKernel_def orphanedFRR_def)
  define m where "m = applyChanges E a ?ak ?af ?df ?dk"
  define r where "r = (if ?af \<noteq> [] \<or> ?df \<noteq> []
    then do { _ \<leftarrow> ignoring (RefreshBGP E (a_routing a)); r \<leftarrow> verifyRoutes E a desired; ret (snd r) } else ret a)"
  have p: "pure_log m" "pure_log r"
    unfolding m_def r_def by (intro emits_intros pure_applyChanges pure_routes pure_verifyRoutes)+
  let ?s = "final m s"
  have k: "kern ?s = fst (syncSpec (isManaged a) (set desired) (view kern frr s))"
    and f: "frr ?s = snd (syncSpec (isManaged a) (set desired) (view kern frr s))"
    using ob_applyChanges [OF assms(1,2) ip, of s] l(1,3) [of s] mk
    unfolding m_def by (auto simp: view_def syncSpec_def staleKernel_def orphanedFRR_def)
  let ?g = "final (RefreshBGP E (a_routing a)) ?s"
  have g: "kern ?g = kern ?s" "frr ?g = frr ?s"
    using ob_RefreshBGP [OF assms(1), of ?s] by (simp_all add: view_def)
  have "outcome (verifyRoutes E a desired) ?g = (0, a\<lparr>a_consecutiveReAdds := 0\<rparr>)
      \<and> final (verifyRoutes E a desired) ?g = ?g"
    using ob_verifyRoutes [OF assms(1,2) mk, of desired ?g] g k f by (auto simp: syncSpec_def)
  then have "view kern frr (final r ?s) = view kern frr ?s" "outcome r ?s \<in> {a, a\<lparr>a_consecutiveReAdds := 0\<rparr>}"
    using g by (simp_all add: r_def run_bind run_ignoring pure_routes pure_verifyRoutes emits_intros view_def)
  moreover have "final (ensureRoutes E a desired) s = final r ?s" "outcome (ensureRoutes E a desired) s = outcome r ?s"
    unfolding ensureRoutes_steps
    by (simp_all only: run_bind pure_listed pure_applyChanges emits_intros pure_routes pure_verifyRoutes
        l(2,4) m_def [symmetric] r_def [symmetric] p)
  ultimately show ?thesis using k f by (simp add: view_def)
qed

text \<open>
  C2. Synchronising the routes implements its specification: on an environment that does what it
  is told, afterwards the kernel and FRR hold exactly the desired addresses and those the agent
  does not manage, the safety net finds nothing to repair, and the instability counter does not
  grow.
\<close>

theorem ensureRoutes_refines:
  assumes "obedient E (a_routing a) link kern frr" "\<not> rm_dryRun (a_routing a)"
    and "\<not> c_PortForwardOnly (a_cfg a)" "ip4s (set desired)"
  shows "view kern frr (final (ensureRoutes E a desired) s) =
      syncSpec (isManaged a) (set desired) (view kern frr s)
    \<and> outcome (ensureRoutes E a desired) s \<in> {a, a\<lparr>a_consecutiveReAdds := 0\<rparr>}"
  by (rule ob_ensureRoutes [OF assms])

section \<open>Example\<close>

text \<open>A simulated host: the state is the list of host routes and the list of FRR routes.\<close>

definition addedWord :: "string \<Rightarrow> ip4 option" where
  "addedWord c = (case Fields c of
     [a, b, p, n] \<Rightarrow> if a = ''ip'' \<and> b = ''route'' then Option.bind (ParseIP (TrimSuffix p ''/32'')) To4 else None
   | _ \<Rightarrow> None)"

definition removedWord :: "string \<Rightarrow> ip4 option" where
  "removedWord c = (case Fields c of
     [a, b, d, p, n] \<Rightarrow> if a = ''no'' \<and> b = ''ip'' then Option.bind (ParseIP (TrimSuffix p ''/32'')) To4 else None
   | _ \<Rightarrow> None)"

definition simVtysh :: "string list \<Rightarrow> ip4 list \<times> ip4 list \<Rightarrow> (string \<times> goerr option) \<times> (ip4 list \<times> ip4 list)" where
  "simVtysh args s =
     (if length args = 2 \<and> HasPrefix (args ! 1) ''show''
      then ((Join (map (\<lambda>w. routeLine w []) (snd s)) [newline], None), s)
      else (([], None), (fst s, filter (\<lambda>w. w \<notin> set (List.map_filter removedWord args)) (snd s)
             @ List.map_filter addedWord args)))"

fun routeWord :: "nlroute \<Rightarrow> ip4 list" where
  "routeWord r = (case rt_dst r of Some d \<Rightarrow> (case net_ip d of IPv4 w \<Rightarrow> [w] | IPv6 v \<Rightarrow> []) | None \<Rightarrow> [])"

fun simNetlink :: "nlop \<Rightarrow> ip4 list \<times> ip4 list \<Rightarrow> goerr option \<times> (ip4 list \<times> ip4 list)" where
  "simNetlink (RouteReplace r) s = (None, (routeWord r @ fst s, snd s))"
| "simNetlink (RouteDel r) s = (None, (filter (\<lambda>w. w \<notin> set (routeWord r)) (fst s), snd s))"
| "simNetlink _ s = (None, s)"

definition simEnv :: "RouteManager \<Rightarrow> (ip4 list \<times> ip4 list) sysenv" where
  "simEnv rm = \<lparr>e_vtysh = simVtysh, e_ovs = (\<lambda>argv s. (([], None), s)),
     e_nft = (\<lambda>args i s. (([], None), s)), e_lookpath = (\<lambda>n s. (None, s)), e_euid = (\<lambda>s. (0, s)),
     e_link = (\<lambda>n s. (Inr demo_link, s)), e_addrs = (\<lambda>l s. (Inr [], s)),
     e_routes = (\<lambda>f s. (Inr (map (hostRoute rm demo_link) (map IPv4 (fst s))), s)),
     e_rules = (\<lambda>s. (Inr [], s)), e_netlink = simNetlink, e_write = (\<lambda>p c s. (None, s)), e_now = (\<lambda>s. (0, s))\<rparr>"

lemma demo_names [simp]: "rm_vrfName demo_rm = ''vrf-provider''" "rm_vethNexthop demo_rm = ''169.254.0.1''"
  by (simp_all add: demo_rm_def NewRouteManager_def defaultConfig_def)

lemma TrimSuffix_32: "TrimSuffix (u @ ''/32'') ''/32'' = u"
  by (rule TrimSuffix_append)

lemma words_route:
  "Fields (routeCmd demo_rm (dotted w)) = [''ip'', ''route'', dotted w @ ''/32'', ''169.254.0.1'']"
  "Fields (noRouteCmd demo_rm (dotted w)) = [''no'', ''ip'', ''route'', dotted w @ ''/32'', ''169.254.0.1'']"
  using Fields_Join [of "[''ip'', ''route'', dotted w @ ''/32'', ''169.254.0.1'']"]
    Fields_Join [of "[''no'', ''ip'', ''route'', dotted w @ ''/32'', ''169.254.0.1'']"] dotted_word [of w]
  by (simp_all add: routeCmd_def noRouteCmd_def is_word_def is_space_def)

lemma decoded:
  "addedWord (routeCmd demo_rm (dotted w)) = Some w" "removedWord (routeCmd demo_rm (dotted w)) = None"
  "addedWord (noRouteCmd demo_rm (dotted w)) = None" "removedWord (noRouteCmd demo_rm (dotted w)) = Some w"
  using TrimSuffix_32 [of "dotted w"]
  by (simp_all add: addedWord_def removedWord_def words_route ParseIP_dotted To4_def)

lemma undecoded: "c \<in> {''-c'', ''conf t'', ''vrf vrf-provider'', ''exit-vrf'', ''end''} \<Longrightarrow>
  addedWord c = None \<and> removedWord c = None"
proof -
  have "list_all (\<lambda>c. addedWord c = None \<and> removedWord c = None)
      [''-c'', ''conf t'', ''vrf vrf-provider'', ''exit-vrf'', ''end'']" by code_simp
  then show "c \<in> {''-c'', ''conf t'', ''vrf vrf-provider'', ''exit-vrf'', ''end''} \<Longrightarrow>
      addedWord c = None \<and> removedWord c = None" by auto
qed

lemma decoded_batch:
  "List.map_filter addedWord (batchArgs demo_rm (map (routeCmd demo_rm) (map dotted ws))) = ws"
  "List.map_filter removedWord (batchArgs demo_rm (map (routeCmd demo_rm) (map dotted ws))) = []"
  "List.map_filter addedWord (batchArgs demo_rm (map (noRouteCmd demo_rm) (map dotted ws))) = []"
  "List.map_filter removedWord (batchArgs demo_rm (map (noRouteCmd demo_rm) (map dotted ws))) = ws"
proof -
  have app: "List.map_filter f (xs @ ys) = List.map_filter f xs @ List.map_filter f ys"
    for f :: "string \<Rightarrow> ip4 option" and xs ys by (simp add: List.map_filter_def)
  have cmds: "List.map_filter addedWord (concat (map (\<lambda>c. [''-c'', c]) (map (routeCmd demo_rm) (map dotted ws)))) = ws"
    "List.map_filter removedWord (concat (map (\<lambda>c. [''-c'', c]) (map (routeCmd demo_rm) (map dotted ws)))) = []"
    "List.map_filter addedWord (concat (map (\<lambda>c. [''-c'', c]) (map (noRouteCmd demo_rm) (map dotted ws)))) = []"
    "List.map_filter removedWord (concat (map (\<lambda>c. [''-c'', c]) (map (noRouteCmd demo_rm) (map dotted ws)))) = ws"
    by (induction ws) (simp_all add: map_filter_simps decoded undecoded)
  show "List.map_filter addedWord (batchArgs demo_rm (map (routeCmd demo_rm) (map dotted ws))) = ws"
    "List.map_filter removedWord (batchArgs demo_rm (map (routeCmd demo_rm) (map dotted ws))) = []"
    "List.map_filter addedWord (batchArgs demo_rm (map (noRouteCmd demo_rm) (map dotted ws))) = []"
    "List.map_filter removedWord (batchArgs demo_rm (map (noRouteCmd demo_rm) (map dotted ws))) = ws"
    unfolding batchArgs_def app cmds by (simp_all add: map_filter_simps undecoded)
qed

lemma map_ipString: "map ipString (map IPv4 ws) = map dotted ws"
  by (simp add: ipString_def)

lemma dotted_image: "ip4s (dotted ` S)"
  by (auto simp: ip4s_def)

lemma ip4s_words: "ip4s (set ips) \<Longrightarrow> \<exists>ws. ips = map dotted ws"
  by (simp add: ip4s_def ex_map_conv subset_eq image_iff)

lemma listed_words: "List.map_filter parseRouteLine (Split newline (Join (map (\<lambda>w. routeLine w []) ws) [newline])) = map dotted ws"
proof (cases ws)
  case Nil
  have "parseRouteLine [] = None" by code_simp
  with Nil show ?thesis by (simp add: map_filter_simps)
next
  case (Cons w ws')
  then have "Split newline (Join (map (\<lambda>w. routeLine w []) ws) [newline]) = map (\<lambda>w. routeLine w []) ws"
    by (intro Split_Join) (auto simp: routeLine_no_newline)
  moreover have "List.map_filter parseRouteLine (map (\<lambda>w. routeLine w []) vs) = map dotted vs" for vs
    by (induction vs) (simp_all add: map_filter_simps parseRouteLine_routeLine)
  ultimately show ?thesis by simp
qed

lemma inj_dotted_image: "dotted ` (S - T) = dotted ` S - dotted ` T"
  using dotted_inj by (auto simp: image_iff)

definition simKern :: "ip4 list \<times> ip4 list \<Rightarrow> string set" where
  "simKern s = dotted ` set (fst s)"

definition simFRR :: "ip4 list \<times> ip4 list \<Rightarrow> string set" where
  "simFRR s = dotted ` set (snd s)"

lemma batch_length: "length (batchArgs rm cmds) \<noteq> 2"
  by (simp add: batchArgs_def)

lemma simVtysh_batch:
  "simVtysh (batchArgs demo_rm (map (routeCmd demo_rm) (map dotted ws))) s = (([], None), (fst s, snd s @ ws))"
  "simVtysh (batchArgs demo_rm (map (noRouteCmd demo_rm) (map dotted ws))) s =
     (([], None), (fst s, filter (\<lambda>w. w \<notin> set ws) (snd s)))"
  unfolding simVtysh_def using batch_length by (simp_all only: decoded_batch if_False de_Morgan_conj simp_thms) simp_all

lemma routeWord_hostRoute: "routeWord (hostRoute rm link (IPv4 w)) = [w]"
  by (simp add: host32_def)

lemma simEnv_obedient: "obedient (simEnv demo_rm) demo_rm demo_link simKern simFRR"
  unfolding obedient_def
proof (intro conjI allI)
  show "ip4s (simKern s)" "ip4s (simFRR s)" for s
    by (simp_all add: simKern_def simFRR_def dotted_image)
  show "e_link (simEnv demo_rm) (rm_bridgeDev demo_rm) s = (Inr demo_link, s)" for s
    by (simp add: simEnv_def)
  show "\<exists>rs. e_routes (simEnv demo_rm) (bridgeFilter demo_rm demo_link) s = (Inr rs, s)
      \<and> set (hostRoutes rs) = simKern s" for s
    by (rule exI [of _ "map (hostRoute demo_rm demo_link) (map IPv4 (fst s))"])
      (simp only: simEnv_def sysenv.simps hostRoutes_hostRoute map_ipString simKern_def set_map)
  show "\<exists>s'. e_netlink (simEnv demo_rm) (RouteReplace (hostRoute demo_rm demo_link (IPv4 w))) s = (None, s')
      \<and> simKern s' = insert (dotted w) (simKern s) \<and> simFRR s' = simFRR s" for s w
    by (simp add: simEnv_def routeWord_hostRoute simKern_def simFRR_def del: routeWord.simps)
  show "\<exists>s'. e_netlink (simEnv demo_rm) (RouteDel (hostRoute demo_rm demo_link (IPv4 w))) s = (None, s')
      \<and> simKern s' = simKern s - {dotted w} \<and> simFRR s' = simFRR s" for s w
    by (auto simp: simEnv_def routeWord_hostRoute simKern_def simFRR_def image_iff dest: dotted_inj
        simp del: routeWord.simps)
  show "\<exists>s'. e_netlink (simEnv demo_rm) (RuleAdd (ipRule demo_rm d)) s = (None, s')
      \<and> simKern s' = simKern s \<and> simFRR s' = simFRR s" for s d
    by (simp add: simEnv_def)
  show "\<exists>e s'. e_netlink (simEnv demo_rm) (RuleDel (ipRule demo_rm d)) s = (e, s')
      \<and> simKern s' = simKern s \<and> simFRR s' = simFRR s" for s d
    by (simp add: simEnv_def)
  show "\<exists>out. e_vtysh (simEnv demo_rm) [''-c'', ''show ip route vrf '' @ rm_vrfName demo_rm @ '' static''] s =
      ((out, None), s) \<and> set (List.map_filter parseRouteLine (Split newline out)) = simFRR s" for s
    by (rule exI [of _ "Join (map (\<lambda>w. routeLine w []) (snd s)) [newline]"])
      (simp add: simEnv_def simVtysh_def HasPrefix_def listed_words simFRR_def)
  show "ip4s (set ips) \<longrightarrow> (\<exists>out s'. e_vtysh (simEnv demo_rm) (batchArgs demo_rm (map (routeCmd demo_rm) ips)) s =
      ((out, None), s') \<and> simKern s' = simKern s \<and> simFRR s' = simFRR s \<union> set ips)" for s ips
  proof
    assume "ip4s (set ips)"
    then obtain ws where "ips = map dotted ws" using ip4s_words by blast
    then show "\<exists>out s'. e_vtysh (simEnv demo_rm) (batchArgs demo_rm (map (routeCmd demo_rm) ips)) s =
        ((out, None), s') \<and> simKern s' = simKern s \<and> simFRR s' = simFRR s \<union> set ips"
      by (simp only: simEnv_def sysenv.simps simVtysh_batch) (simp add: simKern_def simFRR_def image_Un)
  qed
  show "ip4s (set ips) \<longrightarrow> (\<exists>out s'. e_vtysh (simEnv demo_rm) (batchArgs demo_rm (map (noRouteCmd demo_rm) ips)) s =
      ((out, None), s') \<and> simKern s' = simKern s \<and> simFRR s' = simFRR s - set ips)" for s ips
  proof
    assume "ip4s (set ips)"
    then obtain ws where "ips = map dotted ws" using ip4s_words by blast
    then show "\<exists>out s'. e_vtysh (simEnv demo_rm) (batchArgs demo_rm (map (noRouteCmd demo_rm) ips)) s =
        ((out, None), s') \<and> simKern s' = simKern s \<and> simFRR s' = simFRR s - set ips"
      by (simp only: simEnv_def sysenv.simps simVtysh_batch)
        (auto simp: simKern_def simFRR_def dest: dotted_inj)
  qed
  show "\<exists>r s'. e_vtysh (simEnv demo_rm) [''-c'', ''clear ip bgp vrf '' @ rm_vrfName demo_rm @ '' * soft out''] s = (r, s')
      \<and> simKern s' = simKern s \<and> simFRR s' = simFRR s" for s
  proof -
    have "HasPrefix (''clear ip bgp vrf '' @ rm_vrfName demo_rm @ '' * soft out'') ''show'' = False"
      "List.map_filter addedWord [''-c'', ''clear ip bgp vrf '' @ rm_vrfName demo_rm @ '' * soft out''] = []"
      "List.map_filter removedWord [''-c'', ''clear ip bgp vrf '' @ rm_vrfName demo_rm @ '' * soft out''] = []"
      unfolding demo_names by code_simp+
    then show ?thesis
      by (simp only: simEnv_def sysenv.simps simVtysh_def) (simp add: simKern_def simFRR_def)
  qed
qed

definition demo_agent :: Agent where
  "demo_agent = (NewAgent defaultConfig 0)\<lparr>a_routing := demo_rm\<rparr>"

theorem ensureRoutes_refines_witness:
  "view simKern simFRR (final (ensureRoutes (simEnv demo_rm) demo_agent [dotted 1]) ([2], [])) =
     ({dotted 1}, {dotted 1})"
proof -
  have "view simKern simFRR (final (ensureRoutes (simEnv demo_rm) demo_agent [dotted 1]) ([2], [])) =
      syncSpec (isManaged demo_agent) (set [dotted 1]) (view simKern simFRR ([2], []))"
    by (rule conjunct1 [OF ensureRoutes_refines [where link = demo_link]])
      (simp_all add: demo_agent_def NewAgent_def simEnv_obedient defaultConfig_def ip4s_def)
  then show ?thesis
    by (simp add: syncSpec_def view_def isManaged_def demo_agent_def NewAgent_def simKern_def simFRR_def)
qed

section \<open>On every environment\<close>

lemma emits_frr_batches:
  "(\<And>c. set c \<subseteq> set ips \<Longrightarrow> P (EvVtysh (batchArgs rm (map (routeCmd rm) c)))) \<Longrightarrow> emits P (AddFRRRoutes E rm ips)"
  "(\<And>c. set c \<subseteq> set ips \<Longrightarrow> P (EvVtysh (batchArgs rm (map (noRouteCmd rm) c)))) \<Longrightarrow> emits P (DelFRRRoutes E rm ips)"
  unfolding AddFRRRoutes_def DelFRRRoutes_def frrBatchSize_def
  by (intro emits_intros frrAdd.batch_pure frrDel.batch_pure; drule chunk_subset; simp)+

definition reading :: "ev \<Rightarrow> bool" where
  "reading e \<longleftrightarrow> (\<exists>q. e = EvQuery q) \<or> (\<exists>args. e = EvVtysh args \<and> is_show args)"

text \<open>Installing a desired address; the removal is the rollback of \<open>AddKernelRoute\<close>.\<close>

definition kernelAdd :: "RouteManager \<Rightarrow> string set \<Rightarrow> ev \<Rightarrow> bool" where
  "kernelAdd rm S e \<longleftrightarrow> reading e \<or> (\<exists>ip\<in>S. \<exists>p l. ParseIP ip = Some p \<and>
     (e = EvNl (RouteReplace (hostRoute rm l p)) \<or> e = EvNl (RuleAdd (ipRule rm (host32 p)))
      \<or> e = EvNl (RouteDel (hostRoute rm l p))))"

definition kernelDel :: "RouteManager \<Rightarrow> string set \<Rightarrow> ev \<Rightarrow> bool" where
  "kernelDel rm S e \<longleftrightarrow> reading e \<or> (\<exists>ip\<in>S. \<exists>p l. ParseIP ip = Some p \<and>
     (e = EvNl (RouteDel (hostRoute rm l p)) \<or> e = EvNl (RuleDel (ipRule rm (host32 p)))))"

definition frrAnnounce :: "RouteManager \<Rightarrow> string set \<Rightarrow> ev \<Rightarrow> bool" where
  "frrAnnounce rm S e \<longleftrightarrow> (\<exists>c. set c \<subseteq> S \<and> e = EvVtysh (batchArgs rm (map (routeCmd rm) c)))"

definition frrWithdraw :: "RouteManager \<Rightarrow> string set \<Rightarrow> ev \<Rightarrow> bool" where
  "frrWithdraw rm S e \<longleftrightarrow> (\<exists>c. set c \<subseteq> S \<and> e = EvVtysh (batchArgs rm (map (noRouteCmd rm) c)))"

definition refreshCmd :: "RouteManager \<Rightarrow> ev" where
  "refreshCmd rm = EvVtysh [''-c'', ''clear ip bgp vrf '' @ rm_vrfName rm @ '' * soft out'']"

lemma is_show_route: "is_show [''-c'', ''show ip route vrf '' @ u]"
  by (simp add: is_show_def HasPrefix_def)

lemma reading_simps [simp]:
  "reading (EvQuery q)" "reading (EvVtysh [''-c'', ''show ip route vrf '' @ u])"
  using is_show_route by (auto simp: reading_def)

lemma emits_reading: "emits reading (ListKernelRoutes E rm)" "emits reading (ListFRRRoutes E rm)"
  "emits reading (listedKernel E a)" "emits reading (listedFRR E a)"
proof -
  show k: "emits reading (ListKernelRoutes E rm)" for E rm by (rule emits_ListKernelRoutes) simp
  have "emits reading (ListFRRRoutes E rm)" for E rm
    by (rule emits_frr(3)) (rule reading_simps)
  then show f: "emits reading (ListFRRRoutes E rm)" for E rm .
  show "emits reading (listedKernel E a)" "emits reading (listedFRR E a)"
    unfolding listedKernel_def listedFRR_def by (intro emits_intros k f)+
qed

lemma emits_kernel_add: "set ips \<subseteq> S \<Longrightarrow>
  emits (kernelAdd rm S) (for_each (\<lambda>ip. ignoring (AddKernelRoute E rm ip)) ips)"
  by (intro emits_intros emits_AddKernelRoute) (auto simp: kernelAdd_def)

lemma emits_kernel_del: "set ips \<subseteq> S \<Longrightarrow>
  emits (kernelDel rm S) (for_each (\<lambda>ip. ignoring (DelKernelRoute E rm ip)) ips)"
  by (intro emits_intros emits_DelKernelRoute) (auto simp: kernelDel_def)

definition repair :: "RouteManager \<Rightarrow> string set \<Rightarrow> ev \<Rightarrow> bool" where
  "repair rm S e \<longleftrightarrow> reading e \<or> e = refreshCmd rm \<or> kernelAdd rm S e \<or> frrAnnounce rm S e"

lemma emits_verifyRoutes: "emits (repair (a_routing a) (set desired)) (verifyRoutes E a desired)"
proof -
  let ?P = "repair (a_routing a) (set desired)"
  have k: "emits ?P (for_each (\<lambda>ip. ignoring (AddKernelRoute E (a_routing a) ip)) ips)"
    if "set ips \<subseteq> set desired" for ips
    by (rule emits_mono [OF emits_kernel_add [OF that]]) (simp add: repair_def)
  have f: "emits ?P (AddFRRRoutes E (a_routing a) ips)" if "set ips \<subseteq> set desired" for ips
    using that by (intro emits_frr_batches) (unfold repair_def frrAnnounce_def, blast)
  have l: "emits ?P (ListFRRRoutes E (a_routing a))" "emits ?P (ListKernelRoutes E (a_routing a))"
    by (rule emits_mono [OF emits_reading(2)], simp add: repair_def)
      (rule emits_mono [OF emits_reading(1)], simp add: repair_def)
  show ?thesis
    unfolding verifyRoutes_def by (intro emits_intros l k f) auto
qed

text \<open>The changes of a synchronisation, phase by phase.\<close>

lemma applyChanges_order:
  assumes "set ak \<subseteq> D" "set af \<subseteq> D" "set df \<subseteq> S" "set dk \<subseteq> S"
  shows "\<exists>ka fa fd kd. trace (applyChanges E a ak af df dk) s = ka @ fa @ fd @ kd
    \<and> list_all (kernelAdd (a_routing a) D) ka \<and> list_all (frrAnnounce (a_routing a) D) fa
    \<and> list_all (frrWithdraw (a_routing a) S) fd \<and> list_all (kernelDel (a_routing a) S) kd"
proof -
  let ?rm = "a_routing a"
  define m1 where "m1 = for_each (\<lambda>ip. ignoring (AddKernelRoute E ?rm ip)) ak"
  define m2 where "m2 = (if af \<noteq> [] then ignoring (AddFRRRoutes E ?rm af) else ret ())"
  define m3 where "m3 = (if df \<noteq> [] then ignoring (DelFRRRoutes E ?rm df) else ret ())"
  define m4 where "m4 = for_each (\<lambda>ip. ignoring (DelKernelRoute E ?rm ip)) dk"
  have e1: "emits (kernelAdd ?rm D) m1"
    unfolding m1_def by (rule emits_kernel_add [OF assms(1)])
  have e2: "emits (frrAnnounce ?rm D) m2"
    unfolding m2_def using assms(2) by (intro emits_intros emits_frr_batches) (auto simp: frrAnnounce_def)
  have e3: "emits (frrWithdraw ?rm S) m3"
    unfolding m3_def using assms(3) by (intro emits_intros emits_frr_batches) (auto simp: frrWithdraw_def)
  have e4: "emits (kernelDel ?rm S) m4"
    unfolding m4_def by (rule emits_kernel_del [OF assms(4)])
  note e = e1 e2 e3 e4
  have "applyChanges E a ak af df dk = do { _ \<leftarrow> m1; _ \<leftarrow> m2; _ \<leftarrow> m3; m4 }"
    unfolding applyChanges_def m1_def m2_def m3_def m4_def ..
  then have "trace (applyChanges E a ak af df dk) s = trace m1 s @ trace m2 (final m1 s) @
      trace m3 (final m2 (final m1 s)) @ trace m4 (final m3 (final m2 (final m1 s)))"
    by (simp add: run_bind e [THEN emits_pure] emits_intros)
  then show ?thesis using e [THEN emits_trace] by blast
qed

text \<open>
  C10. The order of a synchronisation, whatever the kernel and FRR answer: after reading, the
  desired addresses that are missing are installed in the kernel and announced; only then stale
  addresses are withdrawn from FRR, and after that removed from the kernel; at the end come the
  refresh and repairs of desired addresses. What is withdrawn or removed is never desired and is
  always managed by the agent.
\<close>

theorem ensureRoutes_order:
  "\<exists>q ka fa fd kd v. trace (ensureRoutes E a desired) s = q @ ka @ fa @ fd @ kd @ v
    \<and> list_all reading q
    \<and> list_all (kernelAdd (a_routing a) (set desired)) ka
    \<and> list_all (frrAnnounce (a_routing a) (set desired)) fa
    \<and> list_all (frrWithdraw (a_routing a) {ip. ip \<notin> set desired \<and> isManaged a ip}) fd
    \<and> list_all (kernelDel (a_routing a) {ip. ip \<notin> set desired \<and> isManaged a ip}) kd
    \<and> list_all (repair (a_routing a) (set desired)) v"
proof -
  let ?rm = "a_routing a" and ?stale = "{ip. ip \<notin> set desired \<and> isManaged a ip}"
  let ?s1 = "final (listedKernel E a) s"
  let ?s2 = "final (listedFRR E a) ?s1"
  let ?k = "outcome (listedKernel E a) s" and ?f = "outcome (listedFRR E a) ?s1"
  define ak where "ak = filter (\<lambda>ip. manageKernel a \<and> \<not> has ?k ip) desired"
  define af where "af = filter (\<lambda>ip. \<not> has ?f ip) desired"
  define dk where "dk = staleKernel a desired ?k"
  define df where "df = dk @ orphanedFRR a desired ?k ?f"
  define v where "v = (if af \<noteq> [] \<or> df \<noteq> []
    then do { _ \<leftarrow> ignoring (RefreshBGP E ?rm); r \<leftarrow> verifyRoutes E a desired; ret (snd r) } else ret a)"
  have sets: "set ak \<subseteq> set desired" "set af \<subseteq> set desired" "set df \<subseteq> ?stale" "set dk \<subseteq> ?stale"
    by (auto simp: ak_def af_def dk_def df_def staleKernel_def orphanedFRR_def)
  have ev: "emits (repair ?rm (set desired)) v"
    unfolding v_def by (intro emits_intros emits_verifyRoutes emits_frr) (simp add: repair_def refreshCmd_def)
  define q where "q = trace (listedKernel E a) s @ trace (listedFRR E a) ?s1"
  have eq: "trace (ensureRoutes E a desired) s = q @
      trace (applyChanges E a ak af df dk) ?s2 @ trace v (final (applyChanges E a ak af df dk) ?s2)"
    unfolding ensureRoutes_steps append_assoc q_def
    by (simp only: run_bind ev [THEN emits_pure] pure_listed pure_applyChanges emits_intros pure_routes pure_verifyRoutes
        ak_def [symmetric] af_def [symmetric] dk_def [symmetric] df_def [symmetric] v_def [symmetric])
  have q: "list_all reading q"
    by (simp add: q_def emits_trace [OF emits_reading(3)] emits_trace [OF emits_reading(4)])
  obtain ka fa fd kd where "trace (applyChanges E a ak af df dk) ?s2 = ka @ fa @ fd @ kd"
      "list_all (kernelAdd ?rm (set desired)) ka" "list_all (frrAnnounce ?rm (set desired)) fa"
      "list_all (frrWithdraw ?rm ?stale) fd" "list_all (kernelDel ?rm ?stale) kd"
    using applyChanges_order [OF sets, where E = E and a = a and s = ?s2] by (elim exE conjE) (rule that)
  note p = this
  show ?thesis
    by (rule exI, rule exI, rule exI, rule exI, rule exI, rule exI, rule conjI, rule eq [unfolded p(1) append_assoc])
      (intro conjI q p(2-5) emits_trace [OF ev])
qed

text \<open>
  A VIP in a spelling that is not canonical (an IPv4-mapped one) passes validation, but the
  listings only show the canonical form, which counts as stale: the route installed for the VIP is
  withdrawn again in the next cycle.
\<close>

lemma noncanonical_vip_withdrawn:
  "ParseIP vip = Some (IPv4 w) \<Longrightarrow> vip \<noteq> dotted w \<Longrightarrow> isManaged a (dotted w) \<Longrightarrow>
   hostRoutes [hostRoute rm link (IPv4 w)] = [dotted w] \<and> staleKernel a [vip] [dotted w] = [dotted w]"
  using hostRoutes_hostRoute [of rm link "[IPv4 w]"] by (auto simp: staleKernel_def ipString_def)

end
