(* ===== verification/Converge.thy ===== *)
theory Converge
  imports RouteSync
begin

text \<open>
  Convergence of route synchronisation, on an environment that does what it is told: a second
  synchronisation finds nothing to do, and the removal of all routes leaves exactly the foreign ones.
\<close>

section \<open>A second synchronisation\<close>

lemma reading_writes: "reading e \<Longrightarrow> \<not> writes e"
  by (auto simp: reading_def)

lemma no_writes_reading: "emits reading m \<Longrightarrow> filter writes (trace m s) = []"
  using reading_writes by (auto simp: filter_empty_conv dest!: emits_traceD)

text \<open>Nothing is missing and nothing managed is left over.\<close>

definition in_sync :: "(string \<Rightarrow> bool) \<Rightarrow> string set \<Rightarrow> string set \<times> string set \<Rightarrow> bool" where
  "in_sync mine desired v \<longleftrightarrow> desired \<subseteq> fst v \<and> desired \<subseteq> snd v
     \<and> (\<forall>x\<in>fst v \<union> snd v. mine x \<longrightarrow> x \<in> desired)"

lemma syncSpec_in_sync: "in_sync mine desired (syncSpec mine desired v)"
  by (auto simp: in_sync_def syncSpec_def)

lemma ensureRoutes_in_sync:
  assumes "obedient E (a_routing a) link kern frr" "\<not> rm_dryRun (a_routing a)" "manageKernel a"
    and "in_sync (isManaged a) (set desired) (view kern frr s)"
  shows "filter writes (trace (ensureRoutes E a desired) s) = []"
    and "final (ensureRoutes E a desired) s = s" "outcome (ensureRoutes E a desired) s = a"
proof -
  let ?k = "outcome (listedKernel E a) s" and ?f = "outcome (listedFRR E a) s"
  note l = ob_listed [OF assms(1-3)]
  have e: "filter (\<lambda>ip. manageKernel a \<and> \<not> has ?k ip) desired = []" "filter (\<lambda>ip. \<not> has ?f ip) desired = []"
    "staleKernel a desired ?k = []" "orphanedFRR a desired ?k ?f = []"
    using assms(4) l(1,3) [of s]
    by (auto simp: filter_empty_conv in_sync_def view_def staleKernel_def orphanedFRR_def)
  have n: "applyChanges E a [] [] [] [] = ret ()"
    by (simp add: applyChanges_def State_Monad.bind_def State_Monad.return_def)
  define K where "K = (\<lambda>kern frr. State_Monad.bind (applyChanges E a (filter (\<lambda>ip. manageKernel a \<and> \<not> has kern ip) desired)
                 (filter (\<lambda>ip. \<not> has frr ip) desired)
                 (staleKernel a desired kern @ orphanedFRR a desired kern frr) (staleKernel a desired kern))
      (\<lambda>_. if filter (\<lambda>ip. \<not> has frr ip) desired \<noteq> []
             \<or> staleKernel a desired kern @ orphanedFRR a desired kern frr \<noteq> []
          then do { _ \<leftarrow> ignoring (RefreshBGP E (a_routing a)); r \<leftarrow> verifyRoutes E a desired; ret (snd r) }
          else ret a))"
  define J where "J = (\<lambda>kern. State_Monad.bind (listedFRR E a) (K kern))"
  have run: "ensureRoutes E a desired = State_Monad.bind (listedKernel E a) J"
    unfolding ensureRoutes_steps J_def K_def ..
  have pK: "pure_log (K k f)" for k f
    unfolding K_def by (intro emits_intros pure_applyChanges pure_routes pure_verifyRoutes)
  have pJ: "pure_log (J k)" for k
    unfolding J_def by (intro emits_intros pure_listed pK)
  have r: "K ?k ?f = ret a"
    unfolding K_def e append_Nil n by (simp add: State_Monad.bind_def State_Monad.return_def)
  have J: "trace (J ?k) s = trace (listedFRR E a) s" "final (J ?k) s = s" "outcome (J ?k) s = a"
    unfolding J_def using r by (simp_all add: run_bind [OF pure_listed(2) pK] l(4))
  have t: "trace (ensureRoutes E a desired) s = trace (listedKernel E a) s @ trace (listedFRR E a) s"
    "final (ensureRoutes E a desired) s = s" "outcome (ensureRoutes E a desired) s = a"
    unfolding run by (simp_all add: run_bind [OF pure_listed(1) pJ] l(2) J)
  show "filter writes (trace (ensureRoutes E a desired) s) = []"
    unfolding t(1) by (simp add: no_writes_reading emits_reading)
  show "final (ensureRoutes E a desired) s = s" "outcome (ensureRoutes E a desired) s = a" by (rule t)+
qed

lemma counter_irrelevant [simp]:
  "isManaged (a\<lparr>a_consecutiveReAdds := n\<rparr>) = isManaged a"
  "manageKernel (a\<lparr>a_consecutiveReAdds := n\<rparr>) = manageKernel a"
  by (simp_all add: isManaged_def manageKernel_def fun_eq_iff split: option.split)


section \<open>Removing all routes\<close>

lemma ob_removeAllRoutes:
  assumes "obedient E (a_routing a) link kern frr" "\<not> rm_dryRun (a_routing a)" "manageKernel a"
  shows "view kern frr (final (removeAllRoutes E a) s) = syncSpec (isManaged a) {} (view kern frr s)"
proof -
  let ?rm = "a_routing a"
  let ?f = "filter (isManaged a) (outcome (listedFRR E a) s)"
  note l = ob_listed [OF assms]
  define D where "D = (\<lambda>f. if f \<noteq> [] then ignoring (DelFRRRoutes E ?rm f) else ret ())"
  define B where "B = (\<lambda>f :: string list. if f \<noteq> [] then ignoring (RefreshBGP E ?rm) else ret ())"
  define K where "K = (\<lambda>k. for_each (\<lambda>ip. ignoring (DelKernelRoute E ?rm ip)) (filter (isManaged a) k))"
  define R where "R = (\<lambda>f. State_Monad.bind (D f) (\<lambda>_. State_Monad.bind (listedKernel E a)
      (\<lambda>k. State_Monad.bind (K k) (\<lambda>_. B f))))"
  have run: "removeAllRoutes E a = State_Monad.bind (listedFRR E a) (\<lambda>frr. R (filter (isManaged a) frr))"
    unfolding removeAllRoutes_def R_def D_def K_def B_def Let_def ..
  have p: "pure_log (D f)" "pure_log (K k)" "pure_log (B f)" for f k
    unfolding D_def K_def B_def by (intro emits_intros pure_routes)+
  have pR: "pure_log (R f)" for f
    unfolding R_def by (intro emits_intros p pure_listed)
  have i: "ip4s (set ?f)" "ip4s (set (filter (isManaged a) (outcome (listedKernel E a) t)))" for t
    using obedientD(1) [OF assms(1), of t] obedientD(2) [OF assms(1), of s] l(1) [of t] l(3) [of s]
    by (auto simp: ip4s_def)
  have D: "view kern frr (final (D ?f) s) = (kern s, frr s - set ?f)"
    using ob_DelFRRRoutes [OF assms(1,2) i(1), of s]
    by (cases "?f = []") (auto simp: D_def run_ignoring pure_routes view_def filter_empty_conv)
  have K: "view kern frr (final (K (outcome (listedKernel E a) t)) t) = (kern t - {x \<in> kern t. isManaged a x}, frr t)" for t
    unfolding K_def using ob_delKernelRoutes [OF assms(1,2) i(2), of t] l(1) [of t] by simp
  have B: "view kern frr (final (B f) t) = view kern frr t" for f t
    using ob_RefreshBGP [OF assms(1), of t]
    by (auto simp: B_def run_ignoring pure_routes) (simp_all add: view_def)
  let ?t = "final (D ?f) s"
  have "final (removeAllRoutes E a) s = final (B ?f) (final (K (outcome (listedKernel E a) ?t)) ?t)"
    unfolding run R_def
    by (simp add: run_bind [OF pure_listed(2)] pR [unfolded R_def] l(2,4) run_bind p emits_intros pure_listed)
  then show ?thesis
    using B K [of ?t] D l(3) [of s] by (auto simp: view_def syncSpec_def)
qed

text \<open>
  Removing all routes, as the agent does on a clean shutdown and on a chassis without a
  router, removes every managed route from the kernel and from FRR and leaves every other one.
\<close>

theorem removeAllRoutes_clears:
  assumes "obedient E (a_routing a) link kern frr" "\<not> rm_dryRun (a_routing a)"
    and "\<not> c_PortForwardOnly (a_cfg a)"
  shows "kern (final (removeAllRoutes E a) s) = {x \<in> kern s. \<not> isManaged a x}
    \<and> frr (final (removeAllRoutes E a) s) = {x \<in> frr s. \<not> isManaged a x}"
proof -
  have "manageKernel a" using assms(3) by (simp add: manageKernel_def)
  from ob_removeAllRoutes [OF assms(1,2) this, of s]
  show ?thesis
    by (simp add: view_def syncSpec_def)
qed


theorem removeAllRoutes_clears_witness:
  "simKern (final (removeAllRoutes (simEnv demo_rm) demo_agent) ([2], [1])) = {}"
proof -
  have "simKern (final (removeAllRoutes (simEnv demo_rm) demo_agent) ([2], [1])) =
      {x \<in> simKern ([2], [1]). \<not> isManaged demo_agent x}"
    by (rule conjunct1 [OF removeAllRoutes_clears [where link = demo_link and frr = simFRR]])
      (simp_all add: demo_agent_def NewAgent_def simEnv_obedient defaultConfig_def)
  then show ?thesis by (simp add: isManaged_def demo_agent_def NewAgent_def)
qed

end
