(* ===== verification/Cycle.thy ===== *)
theory Cycle
  imports RouteSync
begin

text \<open>
  The reconciliation cycle as a whole (\<open>reconcile\<close>, start-up and shutdown of \<open>agent.go\<close>): which
  addresses it wants, and what it may touch in dry-run and in port-forward-only mode.
\<close>

section \<open>What the OVN operations touch\<close>

fun ovn_ev :: "ev \<Rightarrow> bool" where
  "ovn_ev (EvQuery q) = True"
| "ovn_ev (EvNb ops) = True"
| "ovn_ev (EvSb ops) = list_all is_select ops"
| "ovn_ev _ = False"

lemma routing_ovn: "routing_ev local e \<Longrightarrow> ovn_ev e"
  by (cases e) auto

lemma ops_ovn: "ops_ev P e \<Longrightarrow> ovn_ev e"
  by (cases e) auto

lemma emits_EnsureGatewayRouting: "emits ovn_ev (EnsureGatewayRouting D local routers mac)"
proof -
  have "emits (routing_ev local) (EnsureGatewayRouting D local routers mac)"
    unfolding EnsureGatewayRouting_def ensureRouter_def
    by (intro emits_intros emits_ensureDefaultRoute emits_ensureStaticMACBinding)
  then show ?thesis by (rule emits_mono) (rule routing_ovn)
qed

lemma emits_EnsureActivePriorityLead: "emits ovn_ev (EnsureActivePriorityLead ord D routers local)"
  unfolding EnsureActivePriorityLead_def Let_def selectLocalGatewayChassis_def selectCRPortChassis_def
    listGatewayChassis_def directSelect_def
  by (intro emits_intros) simp_all

lemma emits_Drain:
  "emits ovn_ev (DrainGateways cfg D local ticks)" "emits ovn_ev (RestoreDrainedGateways D local)"
  by (rule emits_mono [OF emits_DrainGateways], erule ops_ovn) (rule emits_mono [OF emits_Restore], erule ops_ovn)

lemma emits_NB_cleanup:
  "emits ovn_ev (CleanupStaleChassisManagedEntries D stale)" "emits ovn_ev (RemoveManagedNBEntries D st)"
  "emits ovn_ev (ListManagedRouteChassis D)" "emits ovn_ev (refreshState cfg D st)"
proof -
  have l: "emits (ops_ev (\<lambda>_. True)) (listStaticRoutes D)" "emits (ops_ev (\<lambda>_. True)) (listRouters D)"
    "emits (ops_ev (\<lambda>_. True)) (listMACBindings D)" for D :: "'a ovnenv"
    by (intro emits_listing; simp)+
  have "emits (ops_ev (\<lambda>_. True)) (CleanupStaleChassisManagedEntries D stale)"
    unfolding CleanupStaleChassisManagedEntries_def Let_def
    by (intro emits_intros emits_deleteBinding l emits_deleteRoute) auto
  then show "emits ovn_ev (CleanupStaleChassisManagedEntries D stale)" by (rule emits_mono) (rule ops_ovn)
  have "emits (ops_ev (\<lambda>_. True)) (RemoveManagedNBEntries D st)"
    unfolding RemoveManagedNBEntries_def Let_def removeRouteIfLocal_def
    by (intro emits_intros emits_deleteBinding l emits_deleteRoute) auto
  then show "emits ovn_ev (RemoveManagedNBEntries D st)" by (rule emits_mono) (rule ops_ovn)
  have "emits (ops_ev (\<lambda>_. True)) (ListManagedRouteChassis D)"
    unfolding ListManagedRouteChassis_def by (intro emits_intros l)
  then show "emits ovn_ev (ListManagedRouteChassis D)" by (rule emits_mono) (rule ops_ovn)
  show "emits ovn_ev (refreshState cfg D st)"
    unfolding refreshState_def by (intro emits_intros emits_lists) simp_all
qed


section \<open>The desired addresses\<close>

lemma uniqueIPs_set: "set (uniqueIPs ips) = TrimSpace ` set ips - {[]}"
  by (auto simp: uniqueIPs_def dedup_id_set)

lemma lrpAddresses_keys:
  "fst ` set (lrpAddresses lr) = {ipString ip | ip n cidr. ri_LRPMAC lr \<noteq> [] \<and> cidr \<in> set (ri_LRPNetworks lr)
     \<and> ParseCIDR cidr = Some (ip, n)}"
  unfolding lrpAddresses_def set_map_filter by (force split: option.splits prod.splits if_splits)

lemma hairpinMACMap_keys:
  "x \<in> set (map_keys (hairpinMACMap st)) \<longleftrightarrow> x \<in> set (map_keys (s_NATIPToRouterMAC st))
     \<or> (\<exists>lr\<in>set (s_LocalRouters st). \<exists>cidr\<in>set (ri_LRPNetworks lr). \<exists>ip n.
          ri_LRPMAC lr \<noteq> [] \<and> ParseCIDR cidr = Some (ip, n) \<and> x = ipString ip)"
proof -
  have "set (map_keys (hairpinMACMap st)) =
      (\<Union>lr\<in>set (s_LocalRouters st). fst ` set (lrpAddresses lr)) \<union> set (map_keys (s_NATIPToRouterMAC st))"
    by (simp add: hairpinMACMap_def map_keys_def upd_all_keys image_UN)
  then show ?thesis unfolding lrpAddresses_keys by blast
qed

lemma nonempty_trimmed: "x \<in> TrimSpace ` A - {[]} \<longleftrightarrow> x \<noteq> [] \<and> (\<exists>y. x = TrimSpace y \<and> y \<in> A)"
  by blast

lemma desiredIPs_sorted: "sorted (desiredIPs cfg st) \<and> distinct (desiredIPs cfg st)"
  by (simp add: desiredIPs_def uniqueIPs_def dedup_id_distinct)

text \<open>
  C11. What a cycle wants: the desired addresses are sorted, without repetition, and are exactly
  the non-empty ones among the NAT addresses with a router MAC, the gateway addresses of local
  routers whose port has a MAC, and the configured VIPs.
\<close>

theorem desiredIPs_exact:
  "sorted (desiredIPs cfg st) \<and> distinct (desiredIPs cfg st)
   \<and> (\<forall>x. x \<in> set (desiredIPs cfg st) \<longleftrightarrow> x \<noteq> [] \<and> (\<exists>y. x = TrimSpace y
       \<and> (y \<in> set (map_keys (s_NATIPToRouterMAC st))
          \<or> (\<exists>lr\<in>set (s_LocalRouters st). \<exists>cidr\<in>set (ri_LRPNetworks lr). \<exists>ip n.
               ri_LRPMAC lr \<noteq> [] \<and> ParseCIDR cidr = Some (ip, n) \<and> y = ipString ip)
          \<or> y \<in> v_VIP ` set (c_PortForwards cfg))))"
proof -
  have "x \<in> set (desiredIPs cfg st) \<longleftrightarrow> x \<noteq> [] \<and> (\<exists>y. x = TrimSpace y
       \<and> (y \<in> set (map_keys (s_NATIPToRouterMAC st))
          \<or> (\<exists>lr\<in>set (s_LocalRouters st). \<exists>cidr\<in>set (ri_LRPNetworks lr). \<exists>ip n.
               ri_LRPMAC lr \<noteq> [] \<and> ParseCIDR cidr = Some (ip, n) \<and> y = ipString ip)
          \<or> y \<in> v_VIP ` set (c_PortForwards cfg)))" for x
    unfolding desiredIPs_def uniqueIPs_set hairpinIPs_def nonempty_trimmed
    by (simp only: set_append set_sort set_map Un_iff hairpinMACMap_keys disj_assoc)
  with desiredIPs_sorted [of cfg st] show ?thesis by blast
qed

section \<open>Dry-run\<close>

text \<open>The agent after a step that may only change the counter of re-added routes.\<close>

definition same_agent :: "Agent \<Rightarrow> Agent \<Rightarrow> bool" where
  "same_agent a b \<longleftrightarrow> (\<exists>n. b = a\<lparr>a_consecutiveReAdds := n\<rparr>)"

lemma same_agentD:
  "same_agent a b \<Longrightarrow> a_routing b = a_routing a \<and> a_cfg b = a_cfg a \<and> a_effectiveFilters b = a_effectiveFilters a
     \<and> a_missingChassis b = a_missingChassis a \<and> a_staleCleanupJitter b = a_staleCleanupJitter a"
  by (auto simp: same_agent_def)

lemma same_agent_refl [simp]: "same_agent a a"
  unfolding same_agent_def by (rule exI [of _ "a_consecutiveReAdds a"]) simp

definition returns :: "('a \<Rightarrow> bool) \<Rightarrow> ('s, 'a) io \<Rightarrow> bool" where
  "returns Q m \<longleftrightarrow> pure_log m \<and> (\<forall>s. Q (outcome m s))"

lemma returnsI: "pure_log m \<Longrightarrow> (\<And>s. Q (outcome m s)) \<Longrightarrow> returns Q m"
  by (simp add: returns_def)

lemma returns_ret: "Q x \<Longrightarrow> returns Q (ret x)"
  by (simp add: returns_def emits_ret)

lemma returns_bind:
  assumes "pure_log m" "\<And>x. returns Q (f x)"
  shows "returns Q (State_Monad.bind m f)"
  using assms by (auto simp: returns_def run_bind intro!: emits_bind)

lemma returns_sum:
  "(\<And>y. returns Q (f y)) \<Longrightarrow> (\<And>z. returns Q (g z)) \<Longrightarrow> returns Q (case x of Inl y \<Rightarrow> f y | Inr z \<Rightarrow> g z)"
  by (cases x) simp_all

lemma returns_option:
  "returns Q m \<Longrightarrow> (\<And>y. returns Q (f y)) \<Longrightarrow> returns Q (case x of None \<Rightarrow> m | Some y \<Rightarrow> f y)"
  by (cases x) simp_all

lemma returns_if: "returns Q m \<Longrightarrow> returns Q n \<Longrightarrow> returns Q (if b then m else n)"
  by simp

lemmas returns_intros = returns_ret returns_bind returns_sum returns_option returns_if

lemma verifyRoutes_same: "returns (\<lambda>r. same_agent a (snd r)) (verifyRoutes E a desired)"
  unfolding verifyRoutes_def Let_def
  by (intro returns_intros emits_intros pure_routes; auto simp: same_agent_def intro: exI [of _ "a_consecutiveReAdds a"])

lemma ensureRoutes_same: "returns (same_agent a) (ensureRoutes E a desired)"
proof -
  have v: "returns (same_agent a) (do { r \<leftarrow> verifyRoutes E a desired; ret (snd r) })"
    using verifyRoutes_same [of a E desired] by (auto simp: returns_def run_bind emits_intros)
  show ?thesis
    unfolding ensureRoutes_def Let_def
    by (intro returns_intros v pure_listed emits_intros pure_routes same_agent_refl)
qed

text \<open>What may change outside in dry-run: only the northbound database.\<close>

definition nb_only :: "ev \<Rightarrow> bool" where
  "nb_only e \<longleftrightarrow> (writes e \<longrightarrow> (\<exists>ops. e = EvNb ops))"

lemma ovn_nb_only: "ovn_ev e \<Longrightarrow> nb_only e"
  by (cases e) (auto simp: nb_only_def)

lemma frr_dry_run:
  assumes "rm_dryRun rm"
  shows "emits P (AddFRRRoutes E rm ips)" "emits P (DelFRRRoutes E rm ips)" "RefreshBGP E rm = ret None"
    "ListFRRRoutes E rm = ret (Inr [])" "InactiveFRRRoutes u E rm ips = ret (Inr [])"
    "ReconcileFRRPrefixList ord E rm nets = ret None"
  using assms
  by (auto simp: AddFRRRoutes_def DelFRRRoutes_def RefreshBGP_def ListFRRRoutes_def InactiveFRRRoutes_def
      ReconcileFRRPrefixList_def intro!: emits_intros)

lemmas dry_run = kernel_dry_run veth_dry_run ovs_dry_run portforward_dry_run frr_dry_run(3-6)

lemma ensureRoutes_dry_run:
  assumes "rm_dryRun (a_routing a)"
  shows "emits P (ensureRoutes E a desired)" "emits P (removeAllRoutes E a)"
    "emits P (checkFRRRouteActivity u E a desired)"
proof -
  show "emits P (ensureRoutes E a desired)"
    unfolding ensureRoutes_def listedKernel_def listedFRR_def verifyRoutes_def Let_def
    by (simp only: dry_run [OF assms], intro emits_intros frr_dry_run(1,2) assms)
  show "emits P (removeAllRoutes E a)"
    unfolding removeAllRoutes_def listedKernel_def listedFRR_def Let_def
    by (simp only: dry_run [OF assms], intro emits_intros frr_dry_run(1,2) assms)
  show "emits P (checkFRRRouteActivity u E a desired)"
    unfolding checkFRRRouteActivity_def by (simp only: dry_run [OF assms], intro emits_intros)
qed

lemma emits_cleanupStaleChassis: "emits ovn_ev (cleanupStaleChassis E D a chassis)"
  unfolding cleanupStaleChassis_def Let_def by (intro emits_intros emits_NB_cleanup) simp

lemma emits_reconcileActive_dry:
  assumes "rm_dryRun rm"
  shows "emits nb_only (reconcileActive ords E D st filters rm)" "returns (\<lambda>r. r = rm) (reconcileActive ords E D st filters rm)"
proof -
  have g: "emits nb_only (EnsureGatewayRouting D c rs m)" "emits nb_only (EnsureActivePriorityLead ord D rs c)" for c rs m ord
    by (rule emits_mono [OF emits_EnsureGatewayRouting ovn_nb_only], assumption)
      (rule emits_mono [OF emits_EnsureActivePriorityLead ovn_nb_only], assumption)
  show e: "emits nb_only (reconcileActive ords E D st filters rm)"
    unfolding reconcileActive_def dry_run [OF assms]
    by (rule emits_bind_post [where Q = "\<lambda>x. x = (None, rm)"])
      (auto simp: dry_run [OF assms] nb_only_def intro!: emits_intros g)
  show "returns (\<lambda>r. r = rm) (reconcileActive ords E D st filters rm)"
    unfolding reconcileActive_def dry_run [OF assms]
    by (auto simp: dry_run [OF assms] intro!: returns_intros emits_intros
        emits_pure [OF g(1)] emits_pure [OF g(2)])
qed

lemma returns_post: "returns Q m \<Longrightarrow> emits P m \<Longrightarrow> (\<And>x. Q x \<Longrightarrow> emits P (f x)) \<Longrightarrow> emits P (State_Monad.bind m f)"
  by (rule emits_bind_post [of P m Q]) (simp_all add: returns_def)

text \<open>The steps of a cycle after the gateway.\<close>

lemma emits_cycle_tail:
  assumes "emits P (ReconcilePortForward E rm nets snat)"
    and "emits P (ensureRoutes E a desired)" "emits P (removeAllRoutes E a)"
    and "\<And>b. same_agent a b \<Longrightarrow> emits P (checkFRRRouteActivity u E b desired)"
    and "\<And>b. same_agent a b \<Longrightarrow> \<not> c_PortForwardOnly (a_cfg a) \<Longrightarrow> emits P (cleanupStaleChassis E D b chassis)"
  shows "emits P (do { _ \<leftarrow> ignoring (ReconcilePortForward E rm nets snat);
                      a3 \<leftarrow> (if desired \<noteq> [] \<or> some_local then ensureRoutes E a desired
                             else do { _ \<leftarrow> removeAllRoutes E a; ret a });
                      _ \<leftarrow> checkFRRRouteActivity u E a3 desired;
                      if c_PortForwardOnly (a_cfg a3) then ret a3
                      else cleanupStaleChassis E D a3 chassis })"
proof (rule emits_bind, rule emits_ignoring [OF assms(1)], rule returns_post [where Q = "same_agent a"])
  show "returns (same_agent a) (if desired \<noteq> [] \<or> some_local then ensureRoutes E a desired
      else do { _ \<leftarrow> removeAllRoutes E a; ret a })"
    by (intro returns_if ensureRoutes_same returns_bind returns_ret emits_pure [OF assms(3)] same_agent_refl)
  show "emits P (if desired \<noteq> [] \<or> some_local then ensureRoutes E a desired
      else do { _ \<leftarrow> removeAllRoutes E a; ret a })"
    by (intro emits_intros assms)
  show "emits P (do { _ \<leftarrow> checkFRRRouteActivity u E b desired;
      if c_PortForwardOnly (a_cfg b) then ret b else cleanupStaleChassis E D b chassis })" if "same_agent a b" for b
    using same_agentD [OF that] by (intro emits_intros assms(4,5) that) auto
qed

lemma dry_run_phases:
  assumes "rm_dryRun (a_routing a)"
  shows "emits read_only (startup ords E a) \<and> emits nb_only (reconcile ords u E D st a)
    \<and> emits nb_only (shutdown ords E D ticks st a)"
proof (intro conjI)
  show "emits read_only (startup ords E a)"
    unfolding startup_def Let_def dry_run [OF assms] by (intro emits_intros)
  have nb: "emits ovn_ev m \<Longrightarrow> emits nb_only m" for m :: "('b, 'c) io"
    by (erule emits_mono) (rule ovn_nb_only)
  note nbs = emits_NB_cleanup [THEN nb] emits_Drain [THEN nb] emits_cleanupStaleChassis [THEN nb]
  show "emits nb_only (shutdown ords E D ticks st a)"
    unfolding shutdown_def drainPhase_def cleanup_def Let_def dry_run [OF assms]
    by (intro emits_intros nbs ensureRoutes_dry_run assms)
  show "emits nb_only (reconcile ords u E D st a)"
    unfolding reconcile_def Let_def
  proof (rule returns_post [where Q = "\<lambda>r. r = a_routing a"], goal_cases)
    case 1
    then show ?case
      using emits_reconcileActive_dry [OF assms]
      by (auto simp: reconcileGateway_def reconcileIdle_def dry_run [OF assms] intro!: returns_intros emits_intros)
  next
    case 2
    then show ?case
      using emits_reconcileActive_dry [OF assms]
      by (auto simp: reconcileGateway_def reconcileIdle_def dry_run [OF assms] intro!: emits_intros)
  next
    case (3 rm)
    let ?b = "a\<lparr>a_effectiveFilters := computeEffectiveNetworks (a_cfg a) (s_DiscoveredNetworks (cycleState a st)), a_routing := rm\<rparr>"
    have d: "rm_dryRun rm" "rm_dryRun (a_routing ?b)" using 3 assms by simp_all
    have b: "rm_dryRun (a_routing b)" if "same_agent ?b b" for b
      using same_agentD [OF that] d by simp
    show ?case
      by (rule emits_cycle_tail) (simp_all add: dry_run [OF d(1)] emits_ret ensureRoutes_dry_run d b nbs)
  qed
qed

text \<open>
  In dry-run, start-up changes nothing at all, and a cycle and the shutdown change nothing but
  the northbound database: no route, rule, address, flow, FRR command or nft load is written.
\<close>

theorem dry_run_writes:
  assumes "rm_dryRun (a_routing a)"
  shows "emits read_only (startup ords E a) \<and> emits nb_only (reconcile ords u E D st a)
    \<and> emits nb_only (shutdown ords E D ticks st a)"
  by (rule dry_run_phases [OF assms])

section \<open>Port-forward-only mode\<close>

text \<open>What a cycle without OVN may do, and which parts of the system it leaves alone.\<close>

definition pf_cycle_ev :: "RouteManager \<Rightarrow> ipnet list \<Rightarrow> ev \<Rightarrow> bool" where
  "pf_cycle_ev rm nets e \<longleftrightarrow> (\<exists>args. e = EvVtysh args) \<or> pf_write rm nets [] e"

fun ovn_untouched :: "ev \<Rightarrow> bool" where
  "ovn_untouched (EvOVS argv) = False"
| "ovn_untouched (EvNb ops) = False"
| "ovn_untouched (EvSb ops) = False"
| "ovn_untouched _ = True"

lemma pf_only_routes:
  assumes "c_PortForwardOnly (a_cfg a)" "\<And>args. P (EvVtysh args)"
  shows "emits P (ensureRoutes E a desired)" "emits P (removeAllRoutes E a)"
    "emits P (checkFRRRouteActivity u E a desired)"
proof -
  have m: "\<not> manageKernel a" using assms(1) by (simp add: manageKernel_def)
  then have k: "listedKernel E a = ret []" by (simp add: listedKernel_def)
  have v: "emits P (verifyRoutes E a desired)"
    unfolding verifyRoutes_def Let_def using m by (auto intro!: emits_intros emits_frr assms(2))
  show "emits P (ensureRoutes E a desired)"
    unfolding ensureRoutes_def Let_def k using m
    by (auto simp: staleKernel_def listedFRR_def intro!: emits_intros emits_frr v assms(2))
  show "emits P (removeAllRoutes E a)"
    unfolding removeAllRoutes_def Let_def k
    by (auto simp: listedFRR_def intro!: emits_intros emits_frr assms(2))
  show "emits P (checkFRRRouteActivity u E a desired)"
    unfolding checkFRRRouteActivity_def InactiveFRRRoutes_def runVtysh_def
    by (intro emits_intros assms(2))
qed

lemma pf_only_cycle:
  assumes "c_PortForwardOnly (a_cfg a)"
  shows "emits (pf_cycle_ev (a_routing a) (c_NetworkFilters (a_cfg a))) (reconcile ords u E D st a)"
proof -
  have n: "computeEffectiveNetworks (a_cfg a) [] = c_NetworkFilters (a_cfg a)"
    by (simp add: computeEffectiveNetworks_def effectiveNetworkFilters_def)
  have z: "cycleState a st = newOVNState" "s_DiscoveredNetworks newOVNState = []" "s_SNATIPs newOVNState = []"
    using assms by (simp_all add: cycleState_def newOVNState_def)
  let ?b = "a\<lparr>a_effectiveFilters := c_NetworkFilters (a_cfg a), a_routing := a_routing a\<rparr>"
  have c: "c_PortForwardOnly (a_cfg b)" if "same_agent ?b b" for b
    using same_agentD [OF that] assms by simp
  show ?thesis
    unfolding reconcile_def Let_def
  proof (rule returns_post [where Q = "\<lambda>r. r = a_routing a"], goal_cases)
    case (3 rm)
    show ?case
      unfolding 3 z n
      by (rule emits_cycle_tail)
        (use assms c in \<open>simp_all add: pf_only_routes pf_cycle_ev_def emits_mono [OF emits_ReconcilePortForward]\<close>)
  qed (use assms in \<open>auto simp: reconcileGateway_def intro: returns_ret emits_ret\<close>)
qed

lemma pf_only_startup:
  assumes "c_PortForwardOnly (a_cfg a)"
  shows "emits ovn_untouched (startup ords E a)"
proof -
  have sp: "emits ovn_untouched (reconcilePortForwardVIPs E rm)" "emits ovn_untouched (applyNftRuleset E rm n2 sn)"
    "emits ovn_untouched (ensureDNATRouting E rm)" for rm n2 sn
    by (intro emits_reconcilePortForwardVIPs emits_applyNftRuleset emits_ensureDNATRouting; simp)+
  have rv: "emits ovn_untouched (ReconcileVethLeakNetworks ords2 E rm ns)" for ords2 rm ns
    unfolding ReconcileVethLeakNetworks_def getVRFTableID_def addLeakRoute_def addLeakRule_def removeStale_def
    by (intro emits_intros) simp_all
  show ?thesis
    unfolding startup_def Let_def SetupVethLeak_def vethPair_def vethNeighbours_def SetupPortForward_def ensureVethForwarding_def
    using assms by (auto intro!: emits_intros sp rv)
qed

lemma pf_only_shutdown:
  assumes "c_PortForwardOnly (a_cfg a)"
  shows "emits ovn_untouched (shutdown ords E D ticks st a)"
proof -
  have pl: "emits ovn_untouched (ReconcileFRRPrefixList ord E rm ns)" for ord rm ns
    unfolding ReconcileFRRPrefixList_def addEntry_def delEntry_def runVtysh_def by (intro emits_intros) simp_all
  have td: "emits ovn_untouched (TeardownVethLeak E rm)" "emits ovn_untouched (TeardownPortForward E rm)" for rm
    unfolding TeardownVethLeak_def teardownRules_def teardownDefault_def teardownNetworks_def getVRFTableID_def
      TeardownPortForward_def deleteTable_def cleanupDNATRouting_def
    by (intro emits_intros emits_removeVIPs; simp)+
  show ?thesis
    unfolding shutdown_def cleanup_def drainPhase_def Let_def
    using assms by (auto intro!: emits_intros pl td pf_only_routes)
qed

text \<open>
  C17. In port-forward-only mode a cycle runs on the empty OVN state: whatever state and OVN
  environment there are, it makes vtysh calls and the writes of port forwarding for the
  configured networks and no SNAT address, and nothing else; start-up and shutdown touch neither
  Open vSwitch nor an OVN database.
\<close>

theorem port_forward_only_isolated:
  assumes "c_PortForwardOnly (a_cfg a)"
  shows "emits (pf_cycle_ev (a_routing a) (c_NetworkFilters (a_cfg a))) (reconcile ords u E D st a)
    \<and> emits ovn_untouched (startup ords E a) \<and> emits ovn_untouched (shutdown ords E D ticks st a)"
  using pf_only_cycle pf_only_startup pf_only_shutdown assms by blast

section \<open>Stale chassis\<close>

text \<open>
  A history of looks (latest first): the time, the chassis some managed route refers to, and the
  chassis of the southbound database. A chassis has been missing since a look if that look and
  every later one found it referenced and absent.
\<close>

type_synonym look = "int \<times> string list \<times> string list"

definition gone :: "string \<Rightarrow> look \<Rightarrow> bool" where
  "gone c l \<longleftrightarrow> c \<in> set (fst (snd l)) \<and> c \<notin> set (snd (snd l))"

definition missing_since :: "look list \<Rightarrow> string \<Rightarrow> int \<Rightarrow> bool" where
  "missing_since hist c t \<longleftrightarrow> (\<exists>pre l post. hist = pre @ l # post \<and> fst l = t \<and> list_all (gone c) (pre @ [l]))"

definition tracker_ok :: "look list \<Rightarrow> (string, int) gomap \<Rightarrow> bool" where
  "tracker_ok hist m \<longleftrightarrow> distinct (map fst m) \<and> (\<forall>c t. map_of m c = Some t \<longrightarrow> missing_since hist c t)"

lemma missing_since_Cons: "missing_since hist c t \<Longrightarrow> gone c l \<Longrightarrow> missing_since (l # hist) c t"
  unfolding missing_since_def by (elim exE conjE, rule_tac x = "l # pre" in exI) auto

lemma missing_since_now: "gone c l \<Longrightarrow> missing_since (l # hist) c (fst l)"
  unfolding missing_since_def by (rule exI [of _ "[]"]) simp

lemma map_of_filter_key: "map_of (filter (\<lambda>(c, t). P c) m) c = (if P c then map_of m c else None)"
  by (induction m) auto

lemma map_of_trackMissing:
  "map_of (trackMissing now referenced present m) c =
     (if gone c (now, referenced, present) then Some (case map_of m c of None \<Rightarrow> now | Some t \<Rightarrow> t) else None)"
proof -
  let ?f = "\<lambda>c m. if has present c then AList.delete c m
     else if map_of m c = None then AList.update c now m else m"
  have "map_of (fold ?f cs m) c = (if c \<in> set cs
      then (if c \<in> set present then None else Some (case map_of m c of None \<Rightarrow> now | Some t \<Rightarrow> t))
      else map_of m c)" for cs
    by (induction cs arbitrary: m) (auto simp: AList.update_conv' AList.delete_conv' split: option.splits)
  then show ?thesis
    unfolding trackMissing_def map_of_filter_key by (simp add: gone_def)
qed

lemma distinct_trackMissing:
  assumes "distinct (map fst m)"
  shows "distinct (map fst (trackMissing now referenced present m))"
proof -
  have "distinct (map fst (fold (\<lambda>c m. if has present c then AList.delete c m
     else if map_of m c = None then AList.update c now m else m) cs m))" for cs
    using assms by (induction cs arbitrary: m) (auto simp: AList.distinct_update AList.distinct_delete)
  then show ?thesis unfolding trackMissing_def by (rule distinct_map_filter)
qed

lemma tracker_ok_step:
  assumes "tracker_ok hist m"
  shows "tracker_ok ((now, referenced, present) # hist) (trackMissing now referenced present m)"
  using assms missing_since_now [of _ "(now, referenced, present)" hist]
  by (auto simp: tracker_ok_def map_of_trackMissing distinct_trackMissing intro: missing_since_Cons
      split: option.splits if_splits)

lemma tracker_ok_forget: "tracker_ok hist m \<Longrightarrow> tracker_ok hist (forget cs m)"
  by (auto simp: tracker_ok_def forget_def map_of_filter_key distinct_map_filter split: if_splits)

lemma overdue_set:
  assumes "distinct (map fst m)"
  shows "c \<in> set (overdue now grace m) \<longleftrightarrow> (\<exists>t. map_of m c = Some t \<and> now - t \<ge> grace)"
  using assms by (force simp: overdue_def)


section \<open>Examples\<close>

definition id_orders :: orders where
  "id_orders = \<lparr>od_pairs = \<lambda>xs. xs, od_keys = \<lambda>i xs. xs\<rparr>"

definition no_json :: "string \<Rightarrow> frrTable result" where
  "no_json text = Inl (ErrMsg ''no JSON'')"

definition dry_agent :: Agent where
  "dry_agent = NewAgent (defaultConfig\<lparr>c_DryRun := True\<rparr>) 0"

theorem dry_run_writes_witness:
  "emits read_only (startup id_orders linkEnv dry_agent)
    \<and> emits nb_only (reconcile id_orders no_json linkEnv quiet_ovn demo_local dry_agent)
    \<and> emits nb_only (shutdown id_orders linkEnv quiet_ovn 5 demo_local dry_agent)"
  by (rule dry_run_writes) (simp add: dry_agent_def NewAgent_def NewRouteManager_def)

definition pf_agent :: Agent where
  "pf_agent = NewAgent (defaultConfig\<lparr>c_PortForwardOnly := True\<rparr>) 0"

theorem port_forward_only_isolated_witness:
  "emits (pf_cycle_ev (a_routing pf_agent) []) (reconcile id_orders no_json linkEnv quiet_ovn demo_local pf_agent)"
  using port_forward_only_isolated [of pf_agent id_orders no_json linkEnv quiet_ovn demo_local]
  by (simp add: pf_agent_def NewAgent_def defaultConfig_def)

definition routed_ovn :: "unit ovnenv" where
  "routed_ovn = quiet_ovn\<lparr>e_list_sr := \<lambda>s. (Inr [demo_route], s),
     e_nb_transact := \<lambda>ops s. (Inl (ErrMsg []), s)\<rparr>"

definition stale_agent :: Agent where
  "stale_agent = (NewAgent (defaultConfig\<lparr>c_StaleChassisGracePeriod := 300\<rparr>) 20)\<lparr>a_missingChassis := [(''n2'', -400)]\<rparr>"


end
