(* ===== verification/Durations.thy ===== *)
theory Durations
  imports Validate
begin

text \<open>
  The two numeric parsers of Go's standard library behind the settings: \<open>time.ParseDuration\<close> and
  \<open>strconv.ParseInt\<close> with base 0, which package \<open>flag\<close> uses. Numbers are kept at their width: the
  duration is added up modulo \<open>2 ^ 64\<close>, and the fraction of a unit is computed in rounded
  double-precision arithmetic as the library does.
\<close>

section \<open>Double-precision rounding\<close>

fun bitlen :: "nat \<Rightarrow> nat" where
  "bitlen n = (if n = 0 then 0 else Suc (bitlen (n div 2)))"

declare bitlen.simps [simp del]

text \<open>\<open>p / q\<close> rounded to an integer, ties to even.\<close>

definition rdiv :: "nat \<Rightarrow> nat \<Rightarrow> nat" where
  "rdiv p q = (let d = p div q; r = p mod q
     in if 2 * r < q \<or> (2 * r = q \<and> even d) then d else d + 1)"

text \<open>The double nearest to \<open>p / q\<close>, as a fraction: 53 significant bits.\<close>

definition f64 :: "nat \<Rightarrow> nat \<Rightarrow> nat \<times> nat" where
  "f64 p q =
     (if p = 0 then (0, 1)
      else let bp = bitlen p; bq = bitlen q;
               up = bq + (if p * 2 ^ bq < q * 2 ^ bp then 53 else 52); down = bp
           in if down \<le> up then (rdiv (p * 2 ^ (up - down)) q, 2 ^ (up - down))
              else (rdiv p (q * 2 ^ (down - up)) * 2 ^ (down - up), 1))"

text \<open>\<open>uint64(float64(f) * (float64(unit) / scale))\<close> with \<open>scale\<close> the power \<open>10 ^ k\<close>.\<close>

definition fracNs :: "nat \<Rightarrow> nat \<Rightarrow> nat \<Rightarrow> nat" where
  "fracNs f k unit =
     (let (a, b) = f64 f 1; (c, d) = f64 unit (10 ^ k); (x, y) = f64 (a * c) (b * d) in x div y)"

section \<open>Durations\<close>

definition digits_of :: "string \<Rightarrow> string" where
  "digits_of s = takeWhile is_digit s"

definition after_digits :: "string \<Rightarrow> string" where
  "after_digits s = dropWhile is_digit s"

fun leadingInt :: "nat \<Rightarrow> string \<Rightarrow> nat option" where
  "leadingInt x [] = Some x"
| "leadingInt x (c # cs) =
     (if x > 2 ^ 63 div 10 then None
      else if x * 10 + digit_val c > 2 ^ 63 then None
      else leadingInt (x * 10 + digit_val c) cs)"

text \<open>Digits that no longer fit are dropped; \<open>k\<close> counts those that do.\<close>

fun leadingFraction :: "nat \<Rightarrow> nat \<Rightarrow> string \<Rightarrow> nat \<times> nat" where
  "leadingFraction x k [] = (x, k)"
| "leadingFraction x k (c # cs) =
     (if x > (2 ^ 63 - 1) div 10 then (x, k)
      else if x * 10 + digit_val c > 2 ^ 63 then (x, k)
      else leadingFraction (x * 10 + digit_val c) (Suc k) cs)"

definition unit_char :: "char \<Rightarrow> bool" where
  "unit_char c \<longleftrightarrow> c \<noteq> CHR ''.'' \<and> \<not> is_digit c"

definition unitMap :: "string \<Rightarrow> nat option" where
  "unitMap = map_of
     [(''ns'', 1), (''us'', 10 ^ 3), ([CHR 0xC2, CHR 0xB5, CHR ''s''], 10 ^ 3),
      ([CHR 0xCE, CHR 0xBC, CHR ''s''], 10 ^ 3), (''ms'', 10 ^ 6), (''s'', 10 ^ 9),
      (''m'', 60 * 10 ^ 9), (''h'', 3600 * 10 ^ 9)]"

text \<open>One number with its unit: the nanoseconds and what follows.\<close>

definition parseUnit :: "string \<Rightarrow> (nat \<times> string) option" where
  "parseUnit s =
     (let pre = digits_of s; s1 = after_digits s;
          dot = (case s1 of [] \<Rightarrow> False | c # cs \<Rightarrow> c = CHR ''.'');
          post = (if dot then digits_of (tl s1) else []);
          s2 = (if dot then after_digits (tl s1) else s1);
          (f, k) = leadingFraction 0 0 post;
          u = takeWhile unit_char s2
      in case leadingInt 0 pre of
           None \<Rightarrow> None
         | Some v \<Rightarrow>
             if pre = [] \<and> post = [] then None
             else if u = [] then None
             else case unitMap u of
                    None \<Rightarrow> None
                  | Some unit \<Rightarrow>
                      if v > 2 ^ 63 div unit then None
                      else let w = v * unit + (if f > 0 then fracNs f k unit else 0)
                           in if f > 0 \<and> w > 2 ^ 63 then None else Some (w, dropWhile unit_char s2))"

lemma parseUnit_shorter: "parseUnit s = Some (w, t) \<Longrightarrow> length t < length s"
proof -
  assume "parseUnit s = Some (w, t)"
  then obtain s2 where s2: "t = dropWhile unit_char s2" "takeWhile unit_char s2 \<noteq> []"
      "s2 = after_digits s \<or> s2 = after_digits (tl (after_digits s))"
    unfolding parseUnit_def Let_def
    by (auto split: option.splits if_splits prod.splits)
  have "length (dropWhile is_digit xs) \<le> length xs" for xs by (rule length_dropWhile_le)
  then have "length s2 \<le> length s"
    using s2(3) unfolding after_digits_def by (metis diff_le_self length_tl order_trans)
  moreover have "length t < length s2"
    using s2(1,2) by (cases s2) (auto simp: le_imp_less_Suc length_dropWhile_le split: if_splits)
  ultimately show ?thesis by simp
qed

function parseUnits :: "nat \<Rightarrow> string \<Rightarrow> nat option" where
  "parseUnits d s =
     (if s = [] then Some d
      else case parseUnit s of
             None \<Rightarrow> None
           | Some (w, t) \<Rightarrow> (let e = (d + w) mod 2 ^ 64 in if e > 2 ^ 63 then None else parseUnits e t))"
  by pat_completeness auto
termination
  by (relation "measure (\<lambda>(d, s). length s)") (auto dest: parseUnit_shorter)

declare parseUnits.simps [simp del]

definition ParseDuration :: "string \<Rightarrow> int option" where
  "ParseDuration s =
     (let (neg, r) = (case s of [] \<Rightarrow> (False, [])
             | c # cs \<Rightarrow> if c = CHR ''-'' then (True, cs) else if c = CHR ''+'' then (False, cs) else (False, s))
      in if r = ''0'' then Some 0
         else if r = [] then None
         else case parseUnits 0 r of
                None \<Rightarrow> None
              | Some d \<Rightarrow> if neg then Some (- int d) else if d > 2 ^ 63 - 1 then None else Some (int d))"

section \<open>Bounds and round trip\<close>

lemma parseUnits_bound: "parseUnits d s = Some e \<Longrightarrow> d \<le> 2 ^ 63 \<Longrightarrow> e \<le> 2 ^ 63"
proof (induction d s rule: parseUnits.induct)
  case (1 d s)
  from 1(2) show ?case
    by (subst (asm) parseUnits.simps) (use 1(1,3) in \<open>auto simp: Let_def split: if_splits option.splits\<close>)
qed

lemma foldl_digits_ge: "x \<le> foldl (\<lambda>a c. 10 * a + digit_val c) x cs"
proof (induction cs arbitrary: x)
  case (Cons c cs)
  have "x \<le> 10 * x + digit_val c" by simp
  also have "\<dots> \<le> foldl (\<lambda>a c. 10 * a + digit_val c) (10 * x + digit_val c) cs" by (rule Cons)
  finally show ?case by simp
qed simp

lemma leadingInt_value:
  "x \<le> 2 ^ 63 \<Longrightarrow> leadingInt x ds =
    (let n = foldl (\<lambda>a c. 10 * a + digit_val c) x ds in if n \<le> 2 ^ 63 then Some n else None)"
proof (induction ds arbitrary: x)
  case (Cons c cs)
  show ?case
    using Cons.IH [of "10 * x + digit_val c"] foldl_digits_ge [of "10 * x + digit_val c" cs]
    by (auto simp: Let_def mult.commute)
qed simp

lemma digits_append:
  assumes "list_all is_digit n" "\<not> is_digit c"
  shows "digits_of (n @ c # t) = n" "after_digits (n @ c # t) = c # t"
  using assms by (simp_all add: digits_of_def after_digits_def takeWhile_append2 dropWhile_append2 list_all_iff)

lemma parseUnit_plain:
  assumes "list_all is_digit n" "n \<noteq> []" "list_all unit_char u" "unitMap u = Some k" "0 < k"
    and "t = [] \<or> \<not> unit_char (hd t)"
  shows "parseUnit (n @ u @ t) =
    (let m = foldl (\<lambda>a c. 10 * a + digit_val c) 0 n in if m * k \<le> 2 ^ 63 then Some (m * k, t) else None)"
proof -
  have "u \<noteq> []" using assms(4) by (auto simp: unitMap_def)
  then obtain c cs where u: "u = c # cs" by (cases u) auto
  with assms(3) have c: "\<not> is_digit c" "c \<noteq> CHR ''.''" by (auto simp: unit_char_def)
  have w: "takeWhile unit_char (u @ t) = u" "dropWhile unit_char (u @ t) = t"
    using assms(3,6) by (cases t; simp add: takeWhile_append2 dropWhile_append2 list_all_iff)+
  have uc: "unit_char c" "takeWhile unit_char (cs @ t) = cs" "dropWhile unit_char (cs @ t) = t"
    using w assms(3) by (simp_all add: u)
  let ?m = "foldl (\<lambda>a c. 10 * a + digit_val c) 0 n"
  have le: "\<not> 2 ^ 63 div k < ?m \<longleftrightarrow> ?m * k \<le> 2 ^ 63"
    using assms(5) by (simp add: less_eq_div_iff_mult_less_eq not_less)
  have "?m \<le> ?m * k" using assms(5) by simp
  then have "?m * k \<le> 2 ^ 63 \<Longrightarrow> ?m \<le> 2 ^ 63" by (rule order_trans)
  then have "leadingInt 0 n = None \<Longrightarrow> \<not> ?m * k \<le> 2 ^ 63"
    unfolding leadingInt_value [of 0 n, OF zero_le] Let_def by (metis option.distinct(1))
  moreover have "leadingInt 0 n = None \<or> leadingInt 0 n = Some ?m"
    by (auto simp: leadingInt_value Let_def)
  ultimately show ?thesis
    using assms(2,4) \<open>u \<noteq> []\<close> le
    by (auto simp: parseUnit_def digits_append [OF assms(1) c(1)] uc c(2) Let_def u
        simp del: power_numeral)
qed

text \<open>A sequence of numbers with units.\<close>

definition showDur :: "(nat \<times> string) list \<Rightarrow> string" where
  "showDur segs = concat (map (\<lambda>(n, u). show_nat n @ u) segs)"

definition durNs :: "(nat \<times> string) list \<Rightarrow> nat" where
  "durNs segs = sum_list (map (\<lambda>(n, u). n * the (unitMap u)) segs)"

lemma unitMap_ok: "unitMap u = Some k \<Longrightarrow> list_all unit_char u \<and> 0 < k \<and> u \<noteq> []"
  by (auto simp: unitMap_def unit_char_def is_digit_def split: if_splits)

lemma show_nat_value:
  "list_all is_digit (show_nat n)" "show_nat n \<noteq> []" "foldl (\<lambda>a c. 10 * a + digit_val c) 0 (show_nat n) = n"
  using show_nat_read [of n] by (auto simp: read_nat_def split: if_splits)

lemma parseUnits_segments:
  assumes "list_all (\<lambda>(n, u). unitMap u \<noteq> None) segs" "d + durNs segs \<le> 2 ^ 63"
  shows "parseUnits d (showDur segs) = Some (d + durNs segs)"
  using assms
proof (induction segs arbitrary: d)
  case Nil
  then show ?case by (simp add: showDur_def durNs_def parseUnits.simps)
next
  case (Cons seg segs)
  obtain n u k where seg: "seg = (n, u)" "unitMap u = Some k" using Cons.prems(1) by (cases seg) auto
  note ok = unitMap_ok [OF seg(2)]
  have hd: "showDur segs = [] \<or> \<not> unit_char (hd (showDur segs))"
  proof (cases segs)
    case (Cons a l)
    obtain m v where "a = (m, v)" by fastforce
    with Cons show ?thesis
      using show_nat_value(1,2) [of m]
      by (cases "show_nat m") (auto simp: showDur_def unit_char_def)
  qed (simp add: showDur_def)
  have e: "showDur (seg # segs) = show_nat n @ u @ showDur segs" by (simp add: showDur_def seg)
  have p: "parseUnit (showDur (seg # segs)) = Some (n * k, showDur segs)"
    unfolding e using Cons.prems(2) ok seg
    by (subst parseUnit_plain [OF show_nat_value(1,2) _ seg(2) _ hd])
      (simp_all add: show_nat_value durNs_def)
  have ne: "showDur ((n, u) # segs) \<noteq> []" using e seg show_nat_value(2) by simp
  have "d + n * k + durNs segs \<le> 2 ^ 63" using Cons.prems(2) seg by (simp add: durNs_def)
  then show ?case
    using Cons.IH [of "d + n * k"] Cons.prems p ok
    by (subst parseUnits.simps) (simp add: seg durNs_def Let_def ne)
qed

lemma ParseDuration_segments:
  assumes "list_all (\<lambda>(n, u). unitMap u \<noteq> None) segs" "segs \<noteq> []" "durNs segs < 2 ^ 63"
  shows "ParseDuration (showDur segs) = Some (int (durNs segs))"
    and "ParseDuration (CHR ''-'' # showDur segs) = Some (- int (durNs segs))"
proof -
  obtain n u r where s: "segs = (n, u) # r" using assms(2) by (cases segs) auto
  then obtain k where k: "unitMap u = Some k" using assms(1) by auto
  obtain c cs where c: "show_nat n = c # cs" "is_digit c"
    using show_nat_value(1,2) [of n] by (cases "show_nat n") auto
  obtain b bs where b: "u = b # bs" using unitMap_ok [OF k] by (cases u) auto
  have sd: "showDur segs = c # cs @ u @ showDur r" by (simp add: showDur_def s c)
  have n: "c \<noteq> CHR ''-''" "c \<noteq> CHR ''+''" using c(2) by (auto simp: is_digit_def)
  have z: "showDur segs \<noteq> ''0''" by (simp add: sd b)
  have "parseUnits 0 (showDur segs) = Some (durNs segs)"
    using parseUnits_segments [OF assms(1), of 0] assms(3) by simp
  then show "ParseDuration (showDur segs) = Some (int (durNs segs))"
    "ParseDuration (CHR ''-'' # showDur segs) = Some (- int (durNs segs))"
    using n z [unfolded sd] assms(3) by (simp_all add: ParseDuration_def sd b)
qed

lemma ParseDuration_bounds: "ParseDuration s = Some d \<Longrightarrow> - (2 ^ 63) \<le> d \<and> d < 2 ^ 63"
  using parseUnits_bound [of 0] by (auto simp: ParseDuration_def Let_def split: if_splits option.splits list.splits)

text \<open>The sum is taken modulo \<open>2 ^ 64\<close> before it is compared, so two halves of it vanish.\<close>

lemma ParseDuration_wraps: "ParseDuration ''9223372036854775808ns9223372036854775808ns'' = Some 0"
proof -
  let ?n = "''9223372036854775808''" and ?u = "''ns''"
  have ok: "list_all is_digit ?n" "?n \<noteq> []" "list_all unit_char ?u" "unitMap ?u = Some 1" "(0 :: nat) < 1"
    by (simp_all add: is_digit_def unit_char_def unitMap_def)
  have v: "foldl (\<lambda>a c. 10 * a + digit_val c) 0 ?n = 2 ^ 63" by (simp add: digit_val_def)
  have p: "parseUnit (?n @ ?u @ t) = Some (2 ^ 63, t)" if "t = [] \<or> \<not> unit_char (hd t)" for t
    using parseUnit_plain [OF ok that] unfolding v by simp
  have "parseUnits (2 ^ 63) (?n @ ?u @ []) = Some 0"
    by (subst parseUnits.simps) (simp add: p [simplified] parseUnits.simps)
  moreover have "parseUnits 0 (?n @ ?u @ ?n @ ?u @ []) = parseUnits (2 ^ 63) (?n @ ?u @ [])"
    using p [of "?n @ ?u @ []"] by (subst parseUnits.simps) (simp add: unit_char_def is_digit_def)
  ultimately show ?thesis by (simp add: ParseDuration_def)
qed

section \<open>Integers with a base prefix\<close>

definition digit36 :: "char \<Rightarrow> nat option" where
  "digit36 c = (let n = of_char (lower_char c) :: nat
     in if 48 \<le> n \<and> n \<le> 57 then Some (n - 48) else if 97 \<le> n \<and> n \<le> 122 then Some (n - 87) else None)"

text \<open>The prefixes \<open>0b\<close>, \<open>0o\<close>, \<open>0x\<close> and \<open>0\<close>.\<close>

definition numBase :: "string \<Rightarrow> nat \<times> string" where
  "numBase s =
     (case s of
        c # cs \<Rightarrow>
          if c \<noteq> CHR ''0'' then (10, s)
          else (case cs of
                  d # e # ds \<Rightarrow>
                    if lower_char d = CHR ''b'' then (2, e # ds)
                    else if lower_char d = CHR ''o'' then (8, e # ds)
                    else if lower_char d = CHR ''x'' then (16, e # ds) else (8, cs)
                | _ \<Rightarrow> (8, cs))
      | [] \<Rightarrow> (10, []))"

text \<open>Underscores must separate digits; a base prefix counts as a digit.\<close>

datatype saw = SawStart | SawDigit | SawUnder | SawOther

fun underscores :: "bool \<Rightarrow> saw \<Rightarrow> string \<Rightarrow> bool" where
  "underscores hex saw [] = (saw \<noteq> SawUnder)"
| "underscores hex saw (c # cs) =
     (if is_digit c \<or> hex \<and> (case digit36 c of Some d \<Rightarrow> 10 \<le> d \<and> d < 16 | None \<Rightarrow> False)
      then underscores hex SawDigit cs
      else if c = CHR ''_'' then saw = SawDigit \<and> underscores hex SawUnder cs
      else saw \<noteq> SawUnder \<and> underscores hex SawOther cs)"

definition underscoreOK :: "string \<Rightarrow> bool" where
  "underscoreOK s =
     (case s of
        c # d # cs \<Rightarrow>
          if c = CHR ''0'' \<and> lower_char d \<in> {CHR ''b'', CHR ''o'', CHR ''x''}
          then underscores (lower_char d = CHR ''x'') SawDigit cs else underscores False SawStart s
      | _ \<Rightarrow> underscores False SawStart s)"

fun readBase :: "nat \<Rightarrow> nat \<Rightarrow> string \<Rightarrow> nat option" where
  "readBase b n [] = Some n"
| "readBase b n (c # cs) =
     (if c = CHR ''_'' then readBase b n cs
      else case digit36 c of
             None \<Rightarrow> None | Some d \<Rightarrow> if d < b then readBase b (b * n + d) cs else None)"

definition ParseUint0 :: "string \<Rightarrow> nat option" where
  "ParseUint0 s =
     (if s = [] then None
      else let (b, ds) = numBase s
           in case readBase b 0 ds of
                None \<Rightarrow> None
              | Some n \<Rightarrow> if CHR ''_'' \<in> set ds \<and> \<not> underscoreOK s then None else Some n)"

definition ParseInt0 :: "string \<Rightarrow> int option" where
  "ParseInt0 s =
     (let (neg, ds) = (case s of [] \<Rightarrow> (False, []) | c # cs \<Rightarrow>
                         if c = CHR ''-'' then (True, cs) else if c = CHR ''+'' then (False, cs) else (False, s))
      in case ParseUint0 ds of
           None \<Rightarrow> None
         | Some n \<Rightarrow> (let i = (if neg then - int n else int n)
                      in if - (2 ^ 63) \<le> i \<and> i < 2 ^ 63 then Some i else None))"

lemma readBase_digits: "list_all is_digit ds \<Longrightarrow> readBase 10 n ds = Some (foldl (\<lambda>a c. 10 * a + digit_val c) n ds)"
proof (induction ds arbitrary: n)
  case (Cons c cs)
  then have "digit36 c = Some (digit_val c)" "digit_val c < 10" "c \<noteq> CHR ''_''"
    by (auto simp: digit36_def is_digit_def digit_val_def lower_char_def Let_def)
  with Cons show ?case by simp
qed simp

lemma ParseUint0_show: "ParseUint0 (show_nat n) = Some n"
proof (cases "n = 0")
  case True
  then show ?thesis by simp code_simp
next
  case False
  then obtain c cs where c: "show_nat n = c # cs" "c \<noteq> CHR ''0''" "CHR ''_'' \<notin> set (show_nat n)"
    using show_nat_no_leading_zero [of n] show_nat_no_char [of "CHR ''_''" n]
    by (cases "show_nat n") (auto simp: is_digit_def)
  then show ?thesis
    using readBase_digits [OF show_nat_value(1), of 0 n] show_nat_value(3) [of n]
    by (simp add: ParseUint0_def numBase_def)
qed

lemma ParseInt0_show: "- (2 ^ 63) \<le> i \<Longrightarrow> i < 2 ^ 63 \<Longrightarrow> ParseInt0 (show_int i) = Some i"
proof -
  assume i: "- (2 ^ 63) \<le> i" "i < 2 ^ 63"
  obtain c cs where c: "show_nat (nat i) = c # cs" "is_digit c"
    using show_nat_value(1,2) [of "nat i"] by (cases "show_nat (nat i)") auto
  then have "c \<noteq> CHR ''-''" "c \<noteq> CHR ''+''" by (auto simp: is_digit_def)
  with i c ParseUint0_show [of "nat i"] ParseUint0_show [of "nat (- i)"] show ?thesis
    by (simp add: ParseInt0_def show_int_def Let_def)
qed

end
