(* ===== verification/Flags.thy ===== *)
theory Flags
  imports Durations
begin

text \<open>
  The command line: the flag table of \<open>loadConfig\<close>, the parser of Go's package \<open>flag\<close>
  (\<open>FlagSet.Parse\<close> with \<open>ContinueOnError\<close>), \<open>readConfigFile\<close>, and \<open>loadConfig\<close> from the raw
  arguments. The YAML decoder is a parameter; what the source adds to it,
  \<open>StringOrSlice.UnmarshalYAML\<close>, is a definition.
\<close>

section \<open>The configuration file\<close>

text \<open>The YAML node kinds the code distinguishes, and the text of a scalar.\<close>

datatype yaml_node = ScalarNode string | CollectionNode "yaml_node list"

definition UnmarshalYAML :: "(yaml_node \<Rightarrow> string list result) \<Rightarrow> yaml_node \<Rightarrow> string list result" where
  "UnmarshalYAML decode value =
     (case value of ScalarNode s \<Rightarrow> Inr [s] | CollectionNode xs \<Rightarrow> decode value)"

definition readConfigFile ::
  "(string \<Rightarrow> string result) \<Rightarrow> (string \<Rightarrow> configFile result) \<Rightarrow> string \<Rightarrow> configFile result" where
  "readConfigFile readFile unmarshal path =
     (case readFile path of Inl err \<Rightarrow> Inl err | Inr content \<Rightarrow> unmarshal content)"

section \<open>The flag table\<close>

datatype flagkind = KStr | KInt | KBool

text \<open>Name, kind and default; the default of \<open>config\<close> comes from the environment.\<close>

definition flagTable :: "string \<Rightarrow> (string \<times> flagval) list" where
  "flagTable envPath =
    [(''config'', FStr envPath), (''version'', FBool False), (''ovn-sb-remote'', FStr []),
     (''ovn-nb-remote'', FStr []), (''bridge-dev'', FStr []), (''vrf-name'', FStr []),
     (''veth-nexthop'', FStr []), (''network-cidr'', FStr []), (''gateway-port'', FStr []),
     (''route-table-id'', FInt 0), (''bridge-ip'', FStr []), (''ovs-wrapper'', FStr []),
     (''reconcile-interval'', FStr []), (''log-level'', FStr []), (''dry-run'', FBool False),
     (''cleanup-on-shutdown'', FBool True), (''drain-on-shutdown'', FBool True),
     (''drain-timeout'', FStr []), (''drain-settle-delay'', FStr []), (''frr-prefix-list'', FStr []),
     (''stale-chassis-grace-period'', FStr []), (''veth-leak-enabled'', FBool True),
     (''veth-provider-ip'', FStr []), (''veth-leak-table-id'', FInt 200),
     (''veth-leak-rule-priority'', FInt 2000), (''metrics-listen'', FStr []),
     (''port-forward-dev'', FStr []), (''port-forward-table-id'', FInt 201),
     (''port-forward-l3mdev-accept'', FBool False), (''port-forward-ct-zone'', FInt 64000)]"

fun kindOf :: "flagval \<Rightarrow> flagkind" where
  "kindOf (FStr s) = KStr"
| "kindOf (FInt i) = KInt"
| "kindOf (FBool b) = KBool"

definition flagKind :: "string \<Rightarrow> flagkind option" where
  "flagKind n = map_option kindOf (map_of (flagTable []) n)"

section \<open>Parsing arguments\<close>

datatype flag_error =
    ErrHelp | BadSyntax string | NotDefined string | NeedsArgument string | InvalidValue string string

text \<open>\<open>strconv.ParseBool\<close>, and the setters of the three kinds.\<close>

definition ParseBool :: "string \<Rightarrow> bool option" where
  "ParseBool s =
     (if s \<in> {''1'', ''t'', ''T'', ''TRUE'', ''true'', ''True''} then Some True
      else if s \<in> {''0'', ''f'', ''F'', ''FALSE'', ''false'', ''False''} then Some False else None)"

fun setFlag :: "flagkind \<Rightarrow> string \<Rightarrow> flagval option" where
  "setFlag KStr s = Some (FStr s)"
| "setFlag KInt s = map_option FInt (ParseInt0 s)"
| "setFlag KBool s = map_option FBool (ParseBool s)"

text \<open>One argument: not a flag, the terminator, malformed, or a flag with or without a value.\<close>

datatype flag_arg = Positional | Terminator | Malformed | FlagArg string "string option"

text \<open>The first \<open>=\<close> that is not the first character splits name and value.\<close>

definition splitEq :: "string \<Rightarrow> string \<times> string option" where
  "splitEq name =
     (case name of [] \<Rightarrow> ([], None)
      | c # cs \<Rightarrow> (case Cut CHR ''='' cs of
                    Some (n, v) \<Rightarrow> (c # n, Some v) | None \<Rightarrow> (name, None)))"

definition classifyArg :: "string \<Rightarrow> flag_arg" where
  "classifyArg s =
     (if length s < 2 \<or> hd s \<noteq> CHR ''-'' then Positional
      else if s = ''--'' then Terminator
      else let name = (if s ! 1 = CHR ''-'' then drop 2 s else drop 1 s)
           in if name = [] \<or> hd name = CHR ''-'' \<or> hd name = CHR ''='' then Malformed
              else FlagArg (fst (splitEq name)) (snd (splitEq name)))"

text \<open>\<open>FlagSet.Parse\<close>: the flags seen so far with their values, and the arguments left over.\<close>

fun parseFlags ::
  "(string, flagval) gomap \<Rightarrow> string list \<Rightarrow> flag_error + (string, flagval) gomap \<times> string list" where
  "parseFlags seen [] = Inr (seen, [])"
| "parseFlags seen (s # rest) =
     (case classifyArg s of
        Positional \<Rightarrow> Inr (seen, s # rest)
      | Terminator \<Rightarrow> Inr (seen, rest)
      | Malformed \<Rightarrow> Inl (BadSyntax s)
      | FlagArg name value \<Rightarrow>
          (case flagKind name of
             None \<Rightarrow> if name = ''help'' \<or> name = ''h'' then Inl ErrHelp else Inl (NotDefined name)
           | Some KBool \<Rightarrow>
               (let v = (case value of Some v \<Rightarrow> v | None \<Rightarrow> ''true'')
                in case setFlag KBool v of
                     None \<Rightarrow> Inl (InvalidValue name v)
                   | Some x \<Rightarrow> parseFlags (AList.update name x seen) rest)
           | Some k \<Rightarrow>
               (case value of
                  Some v \<Rightarrow>
                    (case setFlag k v of
                       None \<Rightarrow> Inl (InvalidValue name v)
                     | Some x \<Rightarrow> parseFlags (AList.update name x seen) rest)
                | None \<Rightarrow>
                    (case rest of
                       [] \<Rightarrow> Inl (NeedsArgument name)
                     | v # rest' \<Rightarrow>
                         (case setFlag k v of
                            None \<Rightarrow> Inl (InvalidValue name v)
                          | Some x \<Rightarrow> parseFlags (AList.update name x seen) rest')))))"

section \<open>loadConfig from the arguments\<close>

datatype load_error = FlagError flag_error | VersionRequested | LoadError config_error

text \<open>What the process sees: the environment variables, the files and the YAML decoder.\<close>

record procenv =
  p_getenv :: "string \<Rightarrow> string"
  p_readFile :: "string \<Rightarrow> string result"
  p_unmarshal :: "string \<Rightarrow> configFile result"

definition configPath :: "procenv \<Rightarrow> (string, flagval) gomap \<Rightarrow> string" where
  "configPath P seen = (case map_of seen ''config'' of
     Some (FStr s) \<Rightarrow> s | _ \<Rightarrow> p_getenv P ''OVN_NETWORK_CONFIG'')"

definition loadArgs :: "procenv \<Rightarrow> string list \<Rightarrow> load_error + Config" where
  "loadArgs P args =
     (case parseFlags [] args of
        Inl e \<Rightarrow> Inl (FlagError e)
      | Inr (seen, rest) \<Rightarrow>
          if map_of seen ''version'' = Some (FBool True) then Inl VersionRequested
          else (let path = configPath P seen;
                    file = (if path \<noteq> [] then Some (readConfigFile (p_readFile P) (p_unmarshal P) path) else None)
                in case loadConfig ParseDuration file (p_getenv P) (map_of seen) of
                     Inl e \<Rightarrow> Inl (LoadError e)
                   | Inr cfg \<Rightarrow> Inr cfg))"

section \<open>Facts\<close>

text \<open>A flag as a user writes it: with one or two dashes, and its value attached or not.\<close>

record flag_item =
  i_name :: string
  i_val :: flagval
  i_double :: bool
  i_attached :: bool

fun showVal :: "flagval \<Rightarrow> string" where
  "showVal (FStr s) = s"
| "showVal (FInt i) = show_int i"
| "showVal (FBool b) = (if b then ''true'' else ''false'')"

definition showItem :: "flag_item \<Rightarrow> string list" where
  "showItem i = (let p = (if i_double i then ''--'' else ''-'') @ i_name i in
     if i_attached i then [p @ ''='' @ showVal (i_val i)]
     else if i_val i = FBool True then [p] else [p, showVal (i_val i)])"

text \<open>A known name with a value of its kind; a false boolean can only be given attached.\<close>

fun inRange :: "flagval \<Rightarrow> bool" where
  "inRange (FInt i) \<longleftrightarrow> - (2 ^ 63) \<le> i \<and> i < 2 ^ 63"
| "inRange _ \<longleftrightarrow> True"

definition item_ok :: "flag_item \<Rightarrow> bool" where
  "item_ok i \<longleftrightarrow> flagKind (i_name i) = Some (kindOf (i_val i)) \<and> inRange (i_val i)
     \<and> (i_val i = FBool False \<longrightarrow> i_attached i)"

lemma flag_names:
  "flagKind n = Some k \<Longrightarrow> n \<noteq> [] \<and> hd n \<noteq> CHR ''-'' \<and> CHR ''='' \<notin> set n"
  by (auto simp: flagKind_def flagTable_def split: if_splits)

lemma setFlag_show: "inRange v \<Longrightarrow> setFlag (kindOf v) (showVal v) = Some v"
  by (cases v) (auto simp: ParseInt0_show ParseBool_def)

lemma Cut_eq: "CHR ''='' \<notin> set n \<Longrightarrow> Cut CHR ''='' (n @ CHR ''='' # v) = Some (n, v)"
  "CHR ''='' \<notin> set n \<Longrightarrow> Cut CHR ''='' n = None"
proof -
  assume "CHR ''='' \<notin> set n"
  then have n: "\<And>x. x \<in> set n \<Longrightarrow> x \<noteq> CHR ''=''" by auto
  show "Cut CHR ''='' (n @ CHR ''='' # v) = Some (n, v)"
    using takeWhile_append2 [of n "\<lambda>c. c \<noteq> CHR ''=''"] dropWhile_append2 [of n "\<lambda>c. c \<noteq> CHR ''=''"] n
    by (simp add: Cut_def)
qed (simp add: Cut_def)

lemma splitEq_show:
  assumes "n \<noteq> []" "CHR ''='' \<notin> set n"
  shows "splitEq (n @ ''='' @ v) = (n, Some v)" "splitEq n = (n, None)"
  using assms by (cases n; simp add: splitEq_def Cut_eq)+

lemma classify_item:
  assumes "flagKind n = Some k"
  shows "classifyArg ((if d then ''--'' else ''-'') @ n @ ''='' @ v) = FlagArg n (Some v)"
    and "classifyArg ((if d then ''--'' else ''-'') @ n) = FlagArg n None"
proof -
  note n = flag_names [OF assms]
  then obtain c cs where c: "n = c # cs" "c \<noteq> CHR ''-''" "c \<noteq> CHR ''=''" by (cases n) auto
  from n have s: "splitEq (n @ ''='' @ v) = (n, Some v)" "splitEq n = (n, None)"
    using splitEq_show by blast+
  show "classifyArg ((if d then ''--'' else ''-'') @ n @ ''='' @ v) = FlagArg n (Some v)"
    using c s(1) by (simp add: classifyArg_def Let_def)
  show "classifyArg ((if d then ''--'' else ''-'') @ n) = FlagArg n None"
    using c s(2) by (simp add: classifyArg_def Let_def)
qed

lemma parse_item:
  assumes "item_ok i"
  shows "parseFlags seen (showItem i @ rest) = parseFlags (AList.update (i_name i) (i_val i) seen) rest"
proof -
  from assms have k: "flagKind (i_name i) = Some (kindOf (i_val i))" and r: "inRange (i_val i)"
    by (simp_all add: item_ok_def)
  note c = classify_item [OF k]
  show ?thesis
  proof (cases "i_attached i")
    case True
    then show ?thesis
      using c(1) [of "i_double i" "showVal (i_val i)"] setFlag_show [OF r] k
      by (cases "i_val i") (simp_all add: showItem_def Let_def)
  next
    case False
    with assms have "i_val i \<noteq> FBool False" by (simp add: item_ok_def)
    then show ?thesis
      using c(2) [of "i_double i"] setFlag_show [OF r] k False
      by (cases "i_val i") (auto simp: showItem_def Let_def ParseBool_def)
  qed
qed


text \<open>
  So a boolean written like the other flags is switched on, its value is taken for the end of the
  flags, and every flag after it is dropped without an error.
\<close>

lemma detached_boolean:
  "parseFlags [] (''--drain-on-shutdown'' # ''false'' # rest) =
     Inr ([(''drain-on-shutdown'', FBool True)], ''false'' # rest)"
  by (simp add: classifyArg_def splitEq_def Cut_def flagKind_def flagTable_def ParseBool_def Let_def)


lemma dur_keeps:
  assumes "\<And>s d. pd s = Some d \<Longrightarrow> P d" "P old"
  shows "P (flag_dur pd fl n old)" "P (ovr_dur pd v old)"
  using assms by (auto simp: flag_dur_def ovr_dur_def split: option.split flagval.split)

lemma layer_durations:
  assumes "\<And>s d. pd s = Some d \<Longrightarrow> P d" "P (seconds 60)" "P (seconds 3)" "P (seconds 300)"
  shows "P (c_ReconcileInterval (loadLayers pd fc getenv fl))" "P (c_DrainTimeout (loadLayers pd fc getenv fl))"
    "P (c_DrainSettleDelay (loadLayers pd fc getenv fl))" "P (c_StaleChassisGracePeriod (loadLayers pd fc getenv fl))"
proof -
  have k: "P old \<Longrightarrow> P (flag_dur pd fl n old)" "P old \<Longrightarrow> P (ovr_dur pd v old)" for old n v
    using dur_keeps [where P = P] assms(1) by blast+
  show "P (c_ReconcileInterval (loadLayers pd fc getenv fl))" "P (c_DrainTimeout (loadLayers pd fc getenv fl))"
    "P (c_DrainSettleDelay (loadLayers pd fc getenv fl))" "P (c_StaleChassisGracePeriod (loadLayers pd fc getenv fl))"
    by (cases fc; simp only: loadLayers_def layer_fields option.case Let_def; intro k; simp add: defaultConfig_def assms(2-))+
qed

lemma validated_durations:
  assumes "andThen (validateConfig c) validateMode = Inr cfg"
  shows "c_ReconcileInterval cfg = c_ReconcileInterval c" "c_DrainTimeout cfg = c_DrainTimeout c"
    "c_DrainSettleDelay cfg = c_DrainSettleDelay c" "c_StaleChassisGracePeriod cfg = c_StaleChassisGracePeriod c"
    and "timers_ok c"
proof -
  obtain d where d: "config_ok c" "validateMode (derived c) = Inr cfg" "d = derived c"
    using assms by (auto simp: andThen_Inr_iff validateConfig_char)
  then obtain b where "cfg = (derived c)\<lparr>c_PortForwardOnly := b\<rparr>"
    by (auto simp: validateMode_def Let_def split: if_splits option.splits)
  with d show "c_ReconcileInterval cfg = c_ReconcileInterval c" "c_DrainTimeout cfg = c_DrainTimeout c"
    "c_DrainSettleDelay cfg = c_DrainSettleDelay c" "c_StaleChassisGracePeriod cfg = c_StaleChassisGracePeriod c"
    "timers_ok c"
    by (simp_all add: derived_def' config_ok_def)
qed

text \<open>
  C40. Whatever the flags, the environment and the file say, every duration of a configuration that
  loads fits the 64 bits of \<open>time.Duration\<close>, and all but the reconcile interval are not negative.
\<close>

theorem loadArgs_durations:
  assumes "loadArgs P args = Inr cfg"
  shows "- (2 ^ 63) \<le> c_ReconcileInterval cfg \<and> c_ReconcileInterval cfg < 2 ^ 63
    \<and> 0 \<le> c_DrainTimeout cfg \<and> c_DrainTimeout cfg < 2 ^ 63
    \<and> 0 \<le> c_DrainSettleDelay cfg \<and> c_DrainSettleDelay cfg < 2 ^ 63
    \<and> 0 \<le> c_StaleChassisGracePeriod cfg \<and> c_StaleChassisGracePeriod cfg < 2 ^ 63"
proof -
  obtain fc fl where "andThen (validateConfig (loadLayers ParseDuration fc (p_getenv P) fl)) validateMode = Inr cfg"
    using assms by (auto simp: loadArgs_def loadConfig_def Let_def split: sum.splits prod.splits if_splits option.splits)
  note v = validated_durations [OF this]
  note l = layer_durations [where pd = ParseDuration and P = "\<lambda>d. - (2 ^ 63) \<le> d \<and> d < 2 ^ 63",
      OF ParseDuration_bounds, of _ fc "p_getenv P" fl]
  show ?thesis
    using l v(5) by (simp add: v(1-4) timers_ok_def seconds_def)
qed

definition demo_proc :: procenv where
  "demo_proc = \<lparr>p_getenv = demo_env, p_readFile = (\<lambda>p. Inl (ErrMsg ''no such file'')),
     p_unmarshal = (\<lambda>c. Inl (ErrMsg ''not YAML''))\<rparr>"

lemma loadLayers_pd: "loadLayers pd None demo_env (\<lambda>n. None) = loadLayers (\<lambda>s. None) None demo_env (\<lambda>n. None)"
  by (simp add: loadLayers_def applyEnvConfig_def applyFlags_def demo_env_def Let_def flag_str_def
        flag_int_def flag_bool_def flag_dur_def ovr_def ovr_scan_def ovr_dur_def env_true_def env_false_def)

lemma demo_args: "loadArgs demo_proc [] = Inr demo_loaded"
proof -
  have "loadConfig ParseDuration None demo_env (\<lambda>n. None) = loadConfig (\<lambda>s. None) None demo_env (\<lambda>n. None)"
    by (simp only: loadConfig_def option.case loadLayers_pd [of ParseDuration])
  moreover have "configPath demo_proc [] = []"
    by (simp add: configPath_def demo_proc_def demo_env_def)
  ultimately show ?thesis
    using demo_load by (simp add: loadArgs_def demo_proc_def Let_def del: andThen_Inr_iff)
qed

theorem loadArgs_durations_witness: "0 \<le> c_DrainTimeout demo_loaded \<and> c_DrainTimeout demo_loaded < 2 ^ 63"
  using loadArgs_durations [OF demo_args] by simp

text \<open>The fc layer does not split: a list written as one string stays one CIDR, and is refused.\<close>

lemma scalar_cidr_not_split:
  "UnmarshalYAML decode (ScalarNode ''10.0.0.0/24,172.16.0.0/12'') = Inr [''10.0.0.0/24,172.16.0.0/12'']"
  "parse_cidrs [''10.0.0.0/24,172.16.0.0/12''] = Inl (BadCIDR ''10.0.0.0/24,172.16.0.0/12'')"
  by (simp_all add: UnmarshalYAML_def net_eval)

end
