(* ===== verification/EntryPoint.thy ===== *)
theory EntryPoint
  imports Cycle Flags
begin

text \<open>
  The entry point: \<open>Run\<close> of \<open>agent.go\<close> from start-up to shutdown, and \<open>main\<close> (\<open>main.go\<close>) with its
  exit codes. What decides the course of a run from outside enters as arguments: what
  \<open>connectWithRetry\<close> does and returns, the state each cycle reads (one per trigger, until the
  context is cancelled), the listener of the metrics endpoint, and whether the context was
  cancelled when \<open>Run\<close> returned an error. The deferred \<open>Close\<close> of the OVN client is in Connection.
\<close>

section \<open>Run\<close>

text \<open>The cycles of the main loop, each with the state it reads.\<close>

fun runCycles ::
  "orders \<Rightarrow> (string \<Rightarrow> frrTable result) \<Rightarrow> 's sysenv \<Rightarrow> 's ovnenv \<Rightarrow> OVNState list \<Rightarrow> Agent \<Rightarrow> ('s, Agent) io" where
  "runCycles ords u E D [] a = ret a"
| "runCycles ords u E D (st # sts) a = do { b \<leftarrow> reconcile ords u E D st a; runCycles ords u E D sts b }"

definition Run ::
  "orders \<Rightarrow> (string \<Rightarrow> frrTable result) \<Rightarrow> 's sysenv \<Rightarrow> 's ovnenv \<Rightarrow> nat \<Rightarrow> ('s, goerr option) io \<Rightarrow>
   OVNState \<Rightarrow> OVNState list \<Rightarrow> Agent \<Rightarrow> ('s, goerr option) io" where
  "Run ords u E D ticks connect st sts a =
     do { e \<leftarrow> startup ords E a;
          case e of Some err \<Rightarrow> ret (Some err) | None \<Rightarrow>
     do { c \<leftarrow> (if c_PortForwardOnly (a_cfg a) then ret None else connect);
          case c of Some err \<Rightarrow> ret (Some err) | None \<Rightarrow>
     do { _ \<leftarrow> restorePhase D st a;
          b \<leftarrow> runCycles ords u E D (st # sts) a;
          _ \<leftarrow> shutdown ords E D ticks (last (st # sts)) b;
          ret None } } }"

section \<open>main\<close>

datatype level = LevelDebug | LevelInfo | LevelWarn | LevelError

definition setupLogging :: "string \<Rightarrow> level" where
  "setupLogging lvl =
     (let l = map lower_char lvl in
      if l = ''debug'' then LevelDebug
      else if l = ''warn'' \<or> l = ''warning'' then LevelWarn
      else if l = ''error'' then LevelError else LevelInfo)"

definition operatingMode :: "Config \<Rightarrow> string" where
  "operatingMode cfg = (if c_PortForwardOnly cfg then ''port-forward-only'' else ''full'')"

definition networkMode :: "Config \<Rightarrow> string" where
  "networkMode cfg =
     (if length (c_NetworkCIDRs cfg) > 0 then ''manual''
      else if c_PortForwardOnly cfg then ''none (port-forward-only)'' else ''auto-discover from OVN'')"

text \<open>The parts of a process's world that \<open>main\<close> uses besides those of the agent.\<close>

record 's mainenv =
  m_proc :: procenv
  m_listen :: "string \<Rightarrow> 's \<Rightarrow> goerr option \<times> 's"
  m_jitter :: int
  m_cancelled :: "'s \<Rightarrow> bool"

text \<open>\<open>startMetricsServer\<close> up to the listener; serving is in the background.\<close>

definition startMetricsServer :: "'s mainenv \<Rightarrow> string \<Rightarrow> ('s, goerr option) io" where
  "startMetricsServer M addr =
     (if addr = [] then ret None else call (EvQuery [''listen'', addr]) (m_listen M addr))"

definition ctxErr :: "'s mainenv \<Rightarrow> ('s, bool) io" where
  "ctxErr M = call (EvQuery [''ctx'']) (\<lambda>s. (m_cancelled M s, s))"

text \<open>The exit code; \<open>run\<close> is \<open>Agent.Run\<close> with its environment.\<close>

definition main_exit :: "'s mainenv \<Rightarrow> (Agent \<Rightarrow> ('s, goerr option) io) \<Rightarrow> string list \<Rightarrow> ('s, nat) io" where
  "main_exit M run args =
     (case loadArgs (m_proc M) args of
        Inl VersionRequested \<Rightarrow> ret 0
      | Inl (FlagError ErrHelp) \<Rightarrow> ret 0
      | Inl _ \<Rightarrow> ret 1
      | Inr cfg \<Rightarrow>
          do { e \<leftarrow> (if c_MetricsListen cfg \<noteq> [] then startMetricsServer M (c_MetricsListen cfg) else ret None);
               case e of Some err \<Rightarrow> ret 1 | None \<Rightarrow>
               do { r \<leftarrow> run (NewAgent cfg (m_jitter M));
                    case r of
                      None \<Rightarrow> ret 0
                    | Some err \<Rightarrow> do { c \<leftarrow> ctxErr M; ret (if \<not> c then 1 else 0) } } })"

section \<open>The phases of a run\<close>

lemma pure_startup: "pure_log (startup ords E a)"
  unfolding startup_def Let_def SetupVethLeak_def vethPair_def vethNeighbours_def SetupPortForward_def
    ensureVethForwarding_def CheckBridgeDevice_def EnsureBridgeIP_def EnableProxyARP_def
    ReconcileVethLeakNetworks_def getVRFTableID_def addLeakRoute_def addLeakRule_def removeStale_def
  by (intro emits_intros emits_reconcilePortForwardVIPs emits_applyNftRuleset emits_ensureDNATRouting) simp_all

lemma pure_ovn: "pure_log (EnsureGatewayRouting D c rs m)" "pure_log (EnsureActivePriorityLead ord D rs c)"
  "pure_log (DrainGateways cfg D local ticks)" "pure_log (RestoreDrainedGateways D local)"
  "pure_log (refreshState cfg D st)" "pure_log (RemoveManagedNBEntries D st)" "pure_log (cleanupStaleChassis E D a chassis)"
  by (rule emits_pure, rule emits_EnsureGatewayRouting emits_EnsureActivePriorityLead emits_Drain emits_NB_cleanup
      emits_cleanupStaleChassis)+

lemma pure_prefix: "pure_log (ReconcileFRRPrefixList ord E rm nets)"
  unfolding ReconcileFRRPrefixList_def addEntry_def delEntry_def runVtysh_def by (intro emits_intros) simp_all

lemma pure_ovs: "pure_log (EnsureOVSFlows E rm)" "pure_log (ReconcileOVSHairpinFlows ord E rm m)" "pure_log (RemoveOVSFlows E rm)"
  unfolding EnsureOVSFlows_def ReconcileOVSHairpinFlows_def addHairpin_def RemoveOVSFlows_def delFlows_def addOVSFlow_def
  by (intro emits_intros emits_refreshOVSDiscovery; simp)+

lemma pure_teardown: "pure_log (TeardownVethLeak E rm)" "pure_log (TeardownPortForward E rm)"
  "pure_log (CleanupRoutingTable E rm)" "pure_log (RemoveBridgeIP E rm ip)" "pure_log (GetBridgeMAC E rm)"
  unfolding TeardownVethLeak_def teardownRules_def teardownDefault_def teardownNetworks_def getVRFTableID_def
    TeardownPortForward_def deleteTable_def cleanupDNATRouting_def CleanupRoutingTable_def RemoveBridgeIP_def GetBridgeMAC_def
  by (intro emits_intros emits_removeVIPs; simp)+

lemma pure_sync: "pure_log (ensureRoutes E a desired)" "pure_log (removeAllRoutes E a)"
  "pure_log (checkFRRRouteActivity u E a desired)" "pure_log (ReconcilePortForward E rm nets snat)"
  unfolding ensureRoutes_def removeAllRoutes_def checkFRRRouteActivity_def InactiveFRRRoutes_def runVtysh_def Let_def
  by (intro emits_intros pure_listed pure_routes pure_verifyRoutes; simp)+ (rule emits_pure [OF emits_ReconcilePortForward])

lemma pure_reconcile: "pure_log (reconcile ords u E D st a)"
  unfolding reconcile_def Let_def reconcileGateway_def reconcileActive_def reconcileIdle_def
  by (intro emits_intros pure_ovn pure_prefix pure_ovs pure_teardown pure_sync pure_ReconcileVethLeakNetworks)

lemma pure_shutdown: "pure_log (shutdown ords E D ticks st a)"
  unfolding shutdown_def drainPhase_def cleanup_def Let_def
  by (intro emits_intros pure_ovn pure_prefix pure_ovs pure_teardown pure_sync)

lemma pure_runCycles: "pure_log (runCycles ords u E D sts a)"
  by (induction sts arbitrary: a) (auto intro!: emits_intros pure_reconcile)

text \<open>What a run does after it is connected.\<close>

definition serve ::
  "orders \<Rightarrow> (string \<Rightarrow> frrTable result) \<Rightarrow> 's sysenv \<Rightarrow> 's ovnenv \<Rightarrow> nat \<Rightarrow>
   OVNState \<Rightarrow> OVNState list \<Rightarrow> Agent \<Rightarrow> ('s, goerr option) io" where
  "serve ords u E D ticks st sts a =
     do { _ \<leftarrow> restorePhase D st a;
          b \<leftarrow> runCycles ords u E D (st # sts) a;
          _ \<leftarrow> shutdown ords E D ticks (last (st # sts)) b;
          ret None }"

lemma pure_serve: "pure_log (serve ords u E D ticks st sts a)"
  unfolding serve_def restorePhase_def by (intro emits_intros pure_ovn pure_runCycles pure_shutdown)

lemma Run_serve:
  "Run ords u E D ticks connect st sts a =
     do { e \<leftarrow> startup ords E a;
          case e of Some err \<Rightarrow> ret (Some err) | None \<Rightarrow>
     do { c \<leftarrow> (if c_PortForwardOnly (a_cfg a) then ret None else connect);
          case c of Some err \<Rightarrow> ret (Some err) | None \<Rightarrow> serve ords u E D ticks st sts a } }"
  unfolding Run_def serve_def ..

lemma serve_None: "outcome (serve ords u E D ticks st sts a) s = None"
  unfolding serve_def restorePhase_def
  by (simp add: run_bind emits_intros pure_ovn pure_runCycles pure_shutdown del: runCycles.simps)

lemma run_course:
  fixes ords u E D ticks st sts a s and connect :: "('s, goerr option) io"
  assumes "pure_log connect"
  defines "run \<equiv> Run ords u E D ticks connect st sts a"
    and "conn \<equiv> (if c_PortForwardOnly (a_cfg a) then ret None else connect)"
    and "s1 \<equiv> final (startup ords E a) s"
  shows "outcome run s = (case outcome (startup ords E a) s of Some err \<Rightarrow> Some err | None \<Rightarrow> outcome conn s1)
    \<and> (\<exists>served. trace run s = trace (startup ords E a) s
          @ (if outcome (startup ords E a) s = None then trace conn s1 else []) @ served
        \<and> (if outcome run s = None
           then \<exists>b s2. suffix (trace (shutdown ords E D ticks (last (st # sts)) b) s2) served
           else served = []))"
proof -
  define K where "K = (\<lambda>c. case c of Some err \<Rightarrow> ret (Some err) | None \<Rightarrow> serve ords u E D ticks st sts a)"
  define J where "J = (\<lambda>e. case e of Some err \<Rightarrow> ret (Some err) | None \<Rightarrow> State_Monad.bind conn K)"
  have pc: "pure_log conn" unfolding conn_def by (intro emits_intros assms(1))
  have pK: "pure_log (K c)" for c unfolding K_def by (intro emits_intros pure_serve)
  have pJ: "pure_log (J e)" for e unfolding J_def by (intro emits_intros pc pK)
  have run: "run = State_Monad.bind (startup ords E a) J"
    unfolding run_def Run_serve J_def K_def conn_def ..
  have JK: "J (Some err) = ret (Some err)" "J None = State_Monad.bind conn K" "K (Some err) = ret (Some err)"
    "K None = serve ords u E D ticks st sts a" for err
    by (simp_all add: J_def K_def)
  note r = run run_bind [OF pure_startup pJ] run_bind [OF pc pK] JK s1_def [symmetric]
  show ?thesis
  proof (cases "outcome (startup ords E a) s")
    case (Some err)
    then show ?thesis by (simp add: r)
  next
    case None
    show ?thesis
    proof (cases "outcome conn s1")
      case (Some err)
      with None show ?thesis by (simp add: r)
    next
      case c: None
      let ?s2 = "final conn s1"
      define m where "m = State_Monad.bind (restorePhase D st a) (\<lambda>_. runCycles ords u E D (st # sts) a)"
      define sh where "sh = (\<lambda>b. shutdown ords E D ticks (last (st # sts)) b)"
      have pm: "pure_log m" unfolding m_def restorePhase_def by (intro emits_intros pure_ovn pure_runCycles)
      have ps: "pure_log (sh b)" for b unfolding sh_def by (rule pure_shutdown)
      have sv: "serve ords u E D ticks st sts a = State_Monad.bind m (\<lambda>b. State_Monad.bind (sh b) (\<lambda>_. ret None))"
        unfolding serve_def m_def sh_def bind_assoc_io ..
      have "suffix (trace (sh (outcome m ?s2)) (final m ?s2)) (trace (serve ords u E D ticks st sts a) ?s2)"
        unfolding sv by (simp add: run_bind [OF pm] run_bind [OF ps] ps emits_intros suffix_def)
      then have "\<exists>b t. suffix (trace (sh b) t) (trace (serve ords u E D ticks st sts a) ?s2)" by blast
      then show ?thesis
        unfolding sh_def [symmetric] using None c by (simp add: r serve_None)
    qed
  qed
qed


text \<open>
  So a termination signal while the agent still retries its connection leaves everything the
  start-up created in place, even with \<open>--cleanup-on-shutdown\<close>.
\<close>

section \<open>Dry-run from the command line\<close>

lemma returns_bind_post:
  assumes "returns R m" "\<And>x. R x \<Longrightarrow> returns Q (f x)" "\<And>x. pure_log (f x)"
  shows "returns Q (State_Monad.bind m f)"
  using assms by (auto simp: returns_def run_bind intro!: emits_bind)

definition same_setup :: "Agent \<Rightarrow> Agent \<Rightarrow> bool" where
  "same_setup a b \<longleftrightarrow> a_routing b = a_routing a \<and> a_cfg b = a_cfg a"

lemma cleanupStaleChassis_setup: "returns (same_setup a) (cleanupStaleChassis E D a chassis)"
proof (rule returnsI [OF pure_ovn(7)])
  have p: "pure_log (CleanupStaleChassisManagedEntries D stale)" "pure_log (ListManagedRouteChassis D)" for stale
    by (rule emits_pure [OF emits_NB_cleanup(1)], rule emits_pure [OF emits_NB_cleanup(3)])
  have "returns (same_setup a) (cleanupStaleChassis E D a chassis)"
    unfolding cleanupStaleChassis_def Let_def
    by (intro returns_intros emits_intros p) (simp_all add: same_setup_def)
  then show "same_setup a (outcome (cleanupStaleChassis E D a chassis) s)" for s by (simp add: returns_def)
qed

lemma dry_reconcile_keeps:
  assumes "rm_dryRun (a_routing a)"
  shows "returns (same_setup a) (reconcile ords u E D st a)"
  unfolding reconcile_def Let_def
proof (rule returns_bind_post [where R = "\<lambda>rm. rm = a_routing a"], goal_cases)
  case 1
  then show ?case
    using emits_reconcileActive_dry [OF assms]
    by (auto simp: reconcileGateway_def reconcileIdle_def dry_run [OF assms] intro!: returns_intros emits_intros)
next
  case (2 rm)
  let ?b = "a\<lparr>a_effectiveFilters := computeEffectiveNetworks (a_cfg a) (s_DiscoveredNetworks (cycleState a st)), a_routing := rm\<rparr>"
  have b: "same_setup a ?b" using 2 by (simp add: same_setup_def)
  have t: "same_setup a c" if "same_agent ?b c" for c
    using same_agentD [OF that] b by (simp add: same_setup_def)
  have e: "returns (same_setup a) (do { _ \<leftarrow> checkFRRRouteActivity u E c d;
      if c_PortForwardOnly (a_cfg c) then ret c else cleanupStaleChassis E D c ch })" if "same_agent ?b c" for c d ch
    using cleanupStaleChassis_setup [of c E D ch] t [OF that]
    by (intro returns_bind returns_if pure_sync returns_ret) (auto simp: returns_def same_setup_def)
  show ?case
    by (rule returns_bind, rule emits_ignoring [OF pure_sync(4)], rule returns_bind_post [where R = "same_agent ?b"])
      (intro returns_if ensureRoutes_same returns_bind returns_ret pure_sync same_agent_refl, rule e, assumption,
       intro emits_intros pure_sync pure_ovn)
next
  case 3
  show ?case by (intro emits_intros pure_sync pure_ovn)
qed

lemma dry_runCycles:
  "rm_dryRun (a_routing a) \<Longrightarrow>
    emits nb_only (runCycles ords u E D sts a) \<and> returns (same_setup a) (runCycles ords u E D sts a)"
proof (induction sts arbitrary: a)
  case (Cons st sts)
  note k = dry_reconcile_keeps [OF Cons.prems, of ords u E D st]
  have i: "emits nb_only (runCycles ords u E D sts b)" "returns (same_setup a) (runCycles ords u E D sts b)"
    if "same_setup a b" for b
    using that Cons.IH [of b] Cons.prems by (auto simp: same_setup_def returns_def)
  have "emits nb_only (reconcile ords u E D st a)"
    using dry_run_phases [OF Cons.prems] by blast
  with i(1) have "emits nb_only (runCycles ords u E D (st # sts) a)"
    unfolding runCycles.simps by (intro returns_post [OF k])
  moreover have "returns (same_setup a) (runCycles ords u E D (st # sts) a)"
    unfolding runCycles.simps by (rule returns_bind_post [OF k i(2) pure_runCycles])
  ultimately show ?case ..
qed (auto intro: emits_ret returns_ret simp: same_setup_def)

lemma Run_dry_run:
  assumes "rm_dryRun (a_routing a)" "emits nb_only connect"
  shows "emits nb_only (Run ords u E D ticks connect st sts a)"
proof -
  have nb: "emits ovn_ev m \<Longrightarrow> emits nb_only m" for m :: "('b, 'c) io"
    by (erule emits_mono) (rule ovn_nb_only)
  have s: "emits nb_only (startup ords E a)"
    by (rule emits_mono [OF conjunct1 [OF dry_run_phases [OF assms(1)]]]) (simp add: read_only_def nb_only_def)
  have d: "emits nb_only (do { _ \<leftarrow> shutdown ords E D ticks t b; ret None })" if "same_setup a b" for b t
    using dry_run_phases [of b ords E] that assms(1) by (auto simp: same_setup_def intro!: emits_intros)
  have c: "emits nb_only (do { b \<leftarrow> runCycles ords u E D (st # sts) a;
      _ \<leftarrow> shutdown ords E D ticks (last (st # sts)) b; ret None })"
    by (rule returns_post [OF conjunct2 conjunct1 d], rule dry_runCycles [OF assms(1)], rule dry_runCycles [OF assms(1)])
  show ?thesis
    unfolding Run_def restorePhase_def by (intro emits_intros s assms(2) c nb [OF emits_Drain(2)])
qed

text \<open>A flag that was given decides, whatever the environment and the file say.\<close>

lemma loaded_dry_run:
  assumes "loadArgs P args = Inr cfg" "parseFlags [] args = Inr (seen, rest)"
    and "map_of seen ''dry-run'' = Some (FBool b)"
  shows "c_DryRun cfg = b"
proof -
  obtain fc where "andThen (validateConfig (loadLayers ParseDuration fc (p_getenv P) (map_of seen))) validateMode = Inr cfg"
    using assms(1,2) by (auto simp: loadArgs_def loadConfig_def Let_def split: if_splits option.splits sum.splits)
  then obtain c where "config_ok (loadLayers ParseDuration fc (p_getenv P) (map_of seen))"
      "c = derived (loadLayers ParseDuration fc (p_getenv P) (map_of seen))" "validateMode c = Inr cfg"
    by (auto simp: validateConfig_char)
  moreover from this have "c_DryRun cfg = c_DryRun c"
    by (auto simp: validateMode_def Let_def split: if_splits option.splits)
  ultimately have "c_DryRun cfg = c_DryRun (loadLayers ParseDuration fc (p_getenv P) (map_of seen))"
    by (simp add: derived_def')
  then show ?thesis using assms(3) by (simp add: loadLayers_def layer_fields flag_bool_def Let_def)
qed

text \<open>
  C7. Dry-run from the command line to the last event: when the arguments set \<open>--dry-run\<close>, then
  whatever the file, the environment and the world answer, the whole process, from start-up over
  all cycles to the shutdown, writes nothing but the northbound database.
\<close>

theorem main_dry_run:
  assumes "parseFlags [] args = Inr (seen, rest)" "map_of seen ''dry-run'' = Some (FBool True)"
    and "emits nb_only connect"
  shows "emits nb_only (main_exit M (Run ords u E D ticks connect st sts) args)"
proof (cases "loadArgs (m_proc M) args")
  case (Inl e)
  then show ?thesis
    by (auto simp: main_exit_def intro: emits_ret split: load_error.split flag_error.split)
next
  case (Inr cfg)
  from loaded_dry_run [OF Inr assms(1,2)] have "rm_dryRun (a_routing (NewAgent cfg (m_jitter M)))"
    by (simp add: NewAgent_def NewRouteManager_def)
  from Run_dry_run [OF this assms(3)] Inr show ?thesis
    by (auto simp: main_exit_def startMetricsServer_def ctxErr_def nb_only_def intro!: emits_intros)
qed

text \<open>
  C22. The exit code: 0 for \<open>--version\<close> and \<open>--help\<close>, which act on nothing, not even on
  an unusable configuration; otherwise the outside is only touched under a configuration that both
  validations accept, and the code is 1 exactly when there is none, the metrics endpoint cannot
  listen, or the run fails without the context having been cancelled.
\<close>

theorem main_exit_code:
  assumes "\<And>a. pure_log (run a)"
  shows "(trace (main_exit M run args) s \<noteq> [] \<longrightarrow>
      (\<exists>c. loadArgs (m_proc M) args = Inr c \<and> config_ok c \<and> validateConfig c = Inr c \<and> validateMode c = Inr c))
    \<and> outcome (main_exit M run args) s = (case loadArgs (m_proc M) args of
        Inl e \<Rightarrow> if e = VersionRequested \<or> e = FlagError ErrHelp then 0 else 1
      | Inr cfg \<Rightarrow>
          (let listen = startMetricsServer M (c_MetricsListen cfg);
               r = run (NewAgent cfg (m_jitter M));
               s1 = final listen s
           in if outcome listen s = None \<and> (outcome r s1 = None \<or> m_cancelled M (final r s1)) then 0 else 1))"
proof (cases "loadArgs (m_proc M) args")
  case (Inl e)
  then show ?thesis by (cases e) (auto simp: main_exit_def split: flag_error.split)
next
  case (Inr cfg)
  then obtain fc seen where "loadConfig ParseDuration fc (p_getenv (m_proc M)) seen = Inr cfg"
    by (auto simp: loadArgs_def Let_def split: if_splits option.splits sum.splits)
  from loadConfig_final [OF this] have ok: "config_ok cfg \<and> validateConfig cfg = Inr cfg \<and> validateMode cfg = Inr cfg" .
  define K where "K = (\<lambda>r :: goerr option. case r of None \<Rightarrow> ret 0
    | Some err \<Rightarrow> State_Monad.bind (ctxErr M) (\<lambda>c. ret (if \<not> c then 1 else 0 :: nat)))"
  define J where "J = (\<lambda>e. case e of Some (err :: goerr) \<Rightarrow> ret 1
    | None \<Rightarrow> State_Monad.bind (run (NewAgent cfg (m_jitter M))) K)"
  have pK: "pure_log (K r)" for r unfolding K_def ctxErr_def by (intro emits_intros) simp
  have pJ: "pure_log (J e)" for e unfolding J_def by (intro emits_intros assms pK)
  have pl: "pure_log (startMetricsServer M x)" for x unfolding startMetricsServer_def by (intro emits_intros) simp
  have pc: "pure_log (ctxErr M)" unfolding ctxErr_def by (intro emits_intros) simp
  have JK: "J (Some err) = ret 1" "J None = State_Monad.bind (run (NewAgent cfg (m_jitter M))) K" "K None = ret 0"
    "K (Some err) = State_Monad.bind (ctxErr M) (\<lambda>c. ret (if \<not> c then 1 else 0))" for err
    by (simp_all add: J_def K_def)
  have c: "outcome (ctxErr M) t = m_cancelled M t" for t by (simp add: ctxErr_def)
  have "main_exit M run args = State_Monad.bind (startMetricsServer M (c_MetricsListen cfg)) J"
    unfolding J_def K_def by (simp add: main_exit_def Inr startMetricsServer_def)
  then have "outcome (main_exit M run args) s = (let listen = startMetricsServer M (c_MetricsListen cfg);
               r = run (NewAgent cfg (m_jitter M)); s1 = final listen s
           in if outcome listen s = None \<and> (outcome r s1 = None \<or> m_cancelled M (final r s1)) then 0 else 1)"
    by (cases "outcome (startMetricsServer M (c_MetricsListen cfg)) s";
        cases "outcome (run (NewAgent cfg (m_jitter M))) (final (startMetricsServer M (c_MetricsListen cfg)) s)")
      (simp_all add: run_bind [OF pl pJ] run_bind [OF assms pK] JK run_bind [OF pc] emits_ret c Let_def)
  with Inr ok show ?thesis by simp
qed

section \<open>Examples\<close>

definition quiet_main :: "unit mainenv" where
  "quiet_main = \<lparr>m_proc = demo_proc, m_listen = (\<lambda>a s. (None, s)), m_jitter = 0, m_cancelled = (\<lambda>s. False)\<rparr>"


theorem main_dry_run_witness:
  "emits nb_only (main_exit quiet_main (Run id_orders no_json linkEnv quiet_ovn 5 (ret None) demo_local []) [''--dry-run''])"
  by (rule main_dry_run [where seen = "[(''dry-run'', FBool True)]" and rest = "[]"])
    (simp_all add: classifyArg_def splitEq_def Cut_def flagKind_def flagTable_def ParseBool_def Let_def emits_ret)

theorem main_exit_code_witness:
  "outcome (main_exit quiet_main (\<lambda>a. ret (Some (ErrMsg ''no bridge''))) []) () = 1"
  using main_exit_code [of "\<lambda>a. ret (Some (ErrMsg ''no bridge''))" quiet_main "[]" "()"] demo_args
  by (simp add: quiet_main_def emits_ret startMetricsServer_def demo_loaded_def defaultConfig_def)

end
