(* ===== verification/Stubs.thy ===== *)
theory Stubs
  imports Cycle
begin

text \<open>
  The builds for other systems (\<open>routing_notlinux.go\<close>, \<open>nftables_notlinux.go\<close>): every kernel
  operation is replaced by a stub that does nothing in dry-run and fails otherwise. The operations
  keep the arguments of the Linux versions, so that the two builds can be compared.
\<close>

section \<open>The stubs\<close>

definition onlyLinux :: "string \<Rightarrow> RouteManager \<Rightarrow> ('s, goerr option) io" where
  "onlyLinux msg rm = (if rm_dryRun rm then ret None else ret (Some (ErrMsg msg)))"

definition CheckBridgeDevice_stub :: "RouteManager \<Rightarrow> ('s, goerr option) io" where
  "CheckBridgeDevice_stub rm = onlyLinux ''kernel route management is only supported on Linux'' rm"

definition EnsureBridgeIP_stub :: "RouteManager \<Rightarrow> string \<Rightarrow> ('s, goerr option) io" where
  "EnsureBridgeIP_stub rm ip = onlyLinux ''bridge IP management is only supported on Linux'' rm"

definition RemoveBridgeIP_stub :: "RouteManager \<Rightarrow> string \<Rightarrow> ('s, goerr option) io" where
  "RemoveBridgeIP_stub rm ip = onlyLinux ''bridge IP management is only supported on Linux'' rm"

definition EnableProxyARP_stub :: "RouteManager \<Rightarrow> ('s, goerr option) io" where
  "EnableProxyARP_stub rm = onlyLinux ''proxy ARP is only supported on Linux'' rm"

definition GetBridgeMAC_stub :: "RouteManager \<Rightarrow> ('s, string result) io" where
  "GetBridgeMAC_stub rm = ret (Inl (ErrMsg ''bridge MAC lookup is only supported on Linux''))"

definition AddKernelRoute_stub :: "RouteManager \<Rightarrow> string \<Rightarrow> ('s, goerr option) io" where
  "AddKernelRoute_stub rm ip = onlyLinux ''kernel route management is only supported on Linux'' rm"

definition DelKernelRoute_stub :: "RouteManager \<Rightarrow> string \<Rightarrow> ('s, goerr option) io" where
  "DelKernelRoute_stub rm ip = onlyLinux ''kernel route management is only supported on Linux'' rm"

definition ListKernelRoutes_stub :: "RouteManager \<Rightarrow> ('s, string list result) io" where
  "ListKernelRoutes_stub rm =
     (if rm_dryRun rm then ret (Inr [])
      else ret (Inl (ErrMsg ''kernel route management is only supported on Linux'')))"

definition CleanupRoutingTable_stub :: "RouteManager \<Rightarrow> ('s, goerr option) io" where
  "CleanupRoutingTable_stub rm = onlyLinux ''routing table management is only supported on Linux'' rm"

definition ReconcileVethLeakNetworks_stub :: "RouteManager \<Rightarrow> ipnet list \<Rightarrow> ('s, goerr option) io" where
  "ReconcileVethLeakNetworks_stub rm desired =
     (if \<not> rm_vethLeakEnabled rm then ret None
      else onlyLinux ''veth VRF leak is only supported on Linux'' rm)"

definition SetupVethLeak_stub :: "RouteManager \<Rightarrow> ('s, goerr option) io" where
  "SetupVethLeak_stub rm =
     (if \<not> rm_vethLeakEnabled rm then ret None
      else onlyLinux ''veth VRF leak is only supported on Linux'' rm)"

definition TeardownVethLeak_stub :: "RouteManager \<Rightarrow> ('s, goerr option) io" where
  "TeardownVethLeak_stub rm =
     (if \<not> rm_vethLeakEnabled rm then ret None
      else onlyLinux ''veth VRF leak is only supported on Linux'' rm)"

definition SetupPortForward_stub :: "RouteManager \<Rightarrow> ('s, goerr option) io" where
  "SetupPortForward_stub rm =
     (if \<not> rm_portForwardEnabled rm then ret None
      else onlyLinux ''port forwarding is only supported on Linux'' rm)"

definition ReconcilePortForward_stub :: "RouteManager \<Rightarrow> ipnet list \<Rightarrow> string list \<Rightarrow> ('s, goerr option) io" where
  "ReconcilePortForward_stub rm providerNetworks snatIPs =
     (if \<not> rm_portForwardEnabled rm then ret None
      else onlyLinux ''port forwarding is only supported on Linux'' rm)"

definition TeardownPortForward_stub :: "RouteManager \<Rightarrow> ('s, goerr option) io" where
  "TeardownPortForward_stub rm =
     (if \<not> rm_portForwardEnabled rm then ret None
      else onlyLinux ''port forwarding is only supported on Linux'' rm)"

lemmas stub_defs = CheckBridgeDevice_stub_def EnsureBridgeIP_stub_def RemoveBridgeIP_stub_def
  EnableProxyARP_stub_def GetBridgeMAC_stub_def AddKernelRoute_stub_def DelKernelRoute_stub_def
  ListKernelRoutes_stub_def CleanupRoutingTable_stub_def ReconcileVethLeakNetworks_stub_def
  SetupVethLeak_stub_def TeardownVethLeak_stub_def SetupPortForward_stub_def
  ReconcilePortForward_stub_def TeardownPortForward_stub_def onlyLinux_def

section \<open>Start-up on another system\<close>

definition startup_stub :: "Agent \<Rightarrow> ('s, goerr option) io" where
  "startup_stub a =
     (let rm = a_routing a;
          rest = attempt ''veth VRF leak setup'' (SetupVethLeak_stub rm)
            (attempt ''port forward setup'' (SetupPortForward_stub rm) (ret None))
      in if c_PortForwardOnly (a_cfg a) then rest
         else attempt ''bridge device check failed'' (CheckBridgeDevice_stub rm)
           (attempt ''ensure bridge IP'' (EnsureBridgeIP_stub rm (c_BridgeIP (a_cfg a)))
           (attempt ''enable proxy ARP'' (EnableProxyARP_stub rm) rest)))"

lemma attempt_ret:
  "attempt msg (ret (Some e)) k = ret (Some (ErrWrap msg e))" "attempt msg (ret None) k = k"
  by (simp_all add: attempt_def)

text \<open>In dry-run the two builds are the same, operation by operation; only the MAC of the bridge, which
  Linux looks up even then, is never found by the stub.\<close>

lemma stubs_dry_run:
  assumes "rm_dryRun rm"
  shows "CheckBridgeDevice E rm = CheckBridgeDevice_stub rm" "EnsureBridgeIP E rm ip = EnsureBridgeIP_stub rm ip"
    "RemoveBridgeIP E rm ip = RemoveBridgeIP_stub rm ip" "EnableProxyARP E rm = EnableProxyARP_stub rm"
    "AddKernelRoute E rm ip = AddKernelRoute_stub rm ip" "DelKernelRoute E rm ip = DelKernelRoute_stub rm ip"
    "ListKernelRoutes E rm = ListKernelRoutes_stub rm" "CleanupRoutingTable E rm = CleanupRoutingTable_stub rm"
    "ReconcileVethLeakNetworks ords E rm nets = ReconcileVethLeakNetworks_stub rm nets"
    "SetupVethLeak ords E rm = SetupVethLeak_stub rm" "TeardownVethLeak E rm = TeardownVethLeak_stub rm"
    "SetupPortForward E rm = SetupPortForward_stub rm"
    "ReconcilePortForward E rm nets snat = ReconcilePortForward_stub rm nets snat"
    "TeardownPortForward E rm = TeardownPortForward_stub rm"
  using assms
  by (simp_all add: stub_defs CheckBridgeDevice_def EnsureBridgeIP_def RemoveBridgeIP_def EnableProxyARP_def
      AddKernelRoute_def DelKernelRoute_def ListKernelRoutes_def CleanupRoutingTable_def ReconcileVethLeakNetworks_def
      SetupVethLeak_def TeardownVethLeak_def SetupPortForward_def ReconcilePortForward_def TeardownPortForward_def)

text \<open>
  The build for other systems is the Linux build in dry-run and refuses to start otherwise: with
  dry-run the start-up is the one of Linux on every environment; without it, provided there is
  something to serve (a bridge or a port forward), the start-up fails at its first step without
  having touched the host.
\<close>

theorem startup_stub_equiv:
  assumes "c_PortForwardOnly (a_cfg a) \<Longrightarrow> rm_portForwardEnabled (a_routing a)"
  shows "if rm_dryRun (a_routing a) then startup ords E a = startup_stub a
    else \<exists>err. outcome (startup_stub a) s = Some err \<and> trace (startup_stub a) s = [] \<and> final (startup_stub a) s = s"
proof (cases "rm_dryRun (a_routing a)")
  case True
  then show ?thesis unfolding startup_def startup_stub_def Let_def stubs_dry_run [OF True] by simp
next
  case False
  show ?thesis
  proof (cases "c_PortForwardOnly (a_cfg a)")
    case True
    with assms False show ?thesis
      by (cases "rm_vethLeakEnabled (a_routing a)")
        (simp_all add: startup_stub_def Let_def SetupVethLeak_stub_def SetupPortForward_stub_def onlyLinux_def
          attempt_ret)
  qed (simp add: startup_stub_def Let_def CheckBridgeDevice_stub_def onlyLinux_def attempt_ret False)
qed

theorem startup_stub_equiv_witness:
  "startup id_orders linkEnv dry_agent = startup_stub dry_agent"
  using startup_stub_equiv [of dry_agent id_orders linkEnv]
  by (simp add: dry_agent_def NewAgent_def NewRouteManager_def defaultConfig_def)

end
