(* ===== verification/DocRender.thy ===== *)
theory DocRender
  imports Routing
begin

text \<open>
  The renderers of the documentation generator (\<open>tools/docgen/render.go\<close>): the reference pages as
  text, from the facts the parser extracted. A page is built as the list of its lines, each of
  which the code writes with its newline; the texts are those of the source.
\<close>

section \<open>What the parser hands over\<close>

record structField =
  sf_Name :: string
  sf_Type :: string
  sf_YAMLTag :: string
  sf_Comment :: string

record structInfo =
  si_Name :: string
  si_Fields :: "structField list"

record flagInfo =
  fg_Name :: string
  fg_Kind :: string
  fg_Default :: string
  fg_Usage :: string
  fg_ConfigField :: string
  fg_ImplicitEnv :: string

record metricInfo =
  mi_Name :: string
  mi_FullName :: string
  mi_Kind :: string
  mi_IsVec :: bool
  mi_Labels :: "string list"
  mi_Help :: string
  mi_StructField :: string
  mi_LabelValues :: "(string, string list) gomap"

text \<open>The map by field of the flags is filled and never read; it holds copies of the flags.\<close>

record sourceInfo =
  in_Namespace :: string
  in_Structs :: "(string, structInfo) gomap"
  in_Flags :: "flagInfo list"
  in_FlagByField :: "(string, flagInfo) gomap"
  in_EnvByField :: "(string, string) gomap"
  in_YAMLByField :: "(string, string) gomap"
  in_DefaultByField :: "(string, string) gomap"
  in_Metrics :: "metricInfo list"

text \<open>Reading a Go map of strings: the zero value when the key is missing.\<close>

definition lookupStr :: "(string, string) gomap \<Rightarrow> string \<Rightarrow> string" where
  "lookupStr m k = (case map_of m k of Some v \<Rightarrow> v | None \<Rightarrow> [])"

section \<open>Cells\<close>

definition emdash :: string where
  "emdash = [CHR 0xE2, CHR 0x80, CHR 0x94]"

definition backslash :: char where
  "backslash = CHR 0x5C"

definition mdCode :: "string \<Rightarrow> string" where
  "mdCode s = ''`'' @ s @ ''`''"

text \<open>\<open>strings.ReplaceAll\<close> of a one-byte string.\<close>

definition ReplaceAll :: "char \<Rightarrow> string \<Rightarrow> string \<Rightarrow> string" where
  "ReplaceAll c new s = concat (map (\<lambda>x. if x = c then new else [x]) s)"

definition mdRow :: "string \<Rightarrow> string" where
  "mdRow s = TrimSpace (ReplaceAll newline '' '' (ReplaceAll CHR ''|'' [backslash, CHR ''|''] s))"

section \<open>Defaults\<close>

definition re_space :: "char \<Rightarrow> bool" where
  "re_space c \<longleftrightarrow> c \<in> {CHR 0x09, CHR 0x0A, CHR 0x0C, CHR 0x0D, CHR 0x20}"

definition durationSuffix :: "string \<Rightarrow> string option" where
  "durationSuffix = map_of [(''Nanosecond'', ''ns''), (''Microsecond'', ''us''), (''Millisecond'', ''ms''),
     (''Second'', ''s''), (''Minute'', ''m''), (''Hour'', ''h'')]"

text \<open>The match of \<open>durationPattern\<close>: the number and the unit.\<close>

definition durationLiteral :: "string \<Rightarrow> string option" where
  "durationLiteral raw =
     (let n = takeWhile is_digit raw; r = dropWhile re_space (dropWhile is_digit raw) in
      if n = [] then None
      else case r of [] \<Rightarrow> None | c # cs \<Rightarrow>
        if c \<noteq> CHR ''*'' then None
        else let u = dropWhile re_space cs in
          if \<not> HasPrefix u ''time.'' then None
          else map_option (\<lambda>suffix. n @ suffix) (durationSuffix (drop 5 u)))"

definition resolveDefault :: "flagInfo \<Rightarrow> sourceInfo \<Rightarrow> string" where
  "resolveDefault fl info =
     (case (if fg_ConfigField fl \<noteq> [] then map_of (in_DefaultByField info) (fg_ConfigField fl) else None) of
        Some v \<Rightarrow> if v \<noteq> [] then v else fg_Default fl
      | None \<Rightarrow> fg_Default fl)"

definition quote :: char where
  "quote = CHR 0x22"

definition renderDefault :: "string \<Rightarrow> string" where
  "renderDefault s =
     (let raw = TrimSpace s in
      if raw = [] \<or> raw = [quote, quote] then []
      else case durationLiteral raw of
             Some dur \<Rightarrow> mdCode dur
           | None \<Rightarrow> if length raw \<ge> 2 \<and> hd raw = quote \<and> last raw = quote then mdCode (butlast (tl raw))
                     else mdCode raw)"

section \<open>Cells that depend on the maps\<close>

definition renderEnv :: "flagInfo \<Rightarrow> sourceInfo \<Rightarrow> string" where
  "renderEnv fl info =
     (case (if fg_ConfigField fl \<noteq> [] then map_of (in_EnvByField info) (fg_ConfigField fl) else None) of
        Some v \<Rightarrow> mdCode v
      | None \<Rightarrow> if fg_ImplicitEnv fl \<noteq> [] then mdCode (fg_ImplicitEnv fl) else emdash)"

definition renderYAML :: "flagInfo \<Rightarrow> sourceInfo \<Rightarrow> string" where
  "renderYAML fl info =
     (if fg_ConfigField fl = [] then emdash
      else case map_of (in_YAMLByField info) (fg_ConfigField fl) of Some v \<Rightarrow> mdCode v | None \<Rightarrow> emdash)"

definition renderMetricLabels :: "metricInfo \<Rightarrow> string" where
  "renderMetricLabels m =
     (if mi_Labels m = [] then emdash
      else Join (map (\<lambda>label. case map_of (mi_LabelValues m) label of
              None \<Rightarrow> mdCode label
            | Some values \<Rightarrow> if values = [] then mdCode label
                else mdCode label @ ''={'' @ Join (map mdCode values) '','' @ ''}'')
            (mi_Labels m)) '', '')"

section \<open>YAML-only keys\<close>

definition hasFlagForYAML :: "sourceInfo \<Rightarrow> string \<Rightarrow> bool" where
  "hasFlagForYAML info yamlKey \<longleftrightarrow>
     list_ex (\<lambda>fl. fg_ConfigField fl \<noteq> [] \<and> lookupStr (in_YAMLByField info) (fg_ConfigField fl) = yamlKey)
       (in_Flags info)"

text \<open>Key, type and description.\<close>

definition extraYAMLOnlyRows :: "sourceInfo \<Rightarrow> (string \<times> string \<times> string) list" where
  "extraYAMLOnlyRows info =
     (case map_of (in_Structs info) ''configFile'' of
        None \<Rightarrow> []
      | Some cf \<Rightarrow>
          map (\<lambda>f. (sf_YAMLTag f, sf_Type f,
                    if sf_Comment f = [] then ''See sample config for usage.'' else sf_Comment f))
            (filter (\<lambda>f. sf_YAMLTag f \<noteq> [] \<and> \<not> hasFlagForYAML info (sf_YAMLTag f)) (si_Fields cf)))"

section \<open>Pages\<close>

text \<open>\<open>fmt.Fprintf("| %s | ... |")\<close>, without its newline.\<close>

definition tableRow :: "string list \<Rightarrow> string" where
  "tableRow cells = ''| '' @ Join cells '' | '' @ '' |''"

definition text_lines :: "string list \<Rightarrow> string" where
  "text_lines ls = concat (map (\<lambda>l. l @ [newline]) ls)"

definition banner :: string where
  "banner = ''<!-- generated by tools/docgen '' @ emdash @ '' do not edit by hand -->''"

definition writeBanner :: "string list" where
  "writeBanner = [banner, []]"

definition configRow :: "sourceInfo \<Rightarrow> flagInfo \<Rightarrow> string" where
  "configRow info fl = tableRow
     [mdCode (''--'' @ fg_Name fl), renderEnv fl info, renderYAML fl info,
      renderDefault (resolveDefault fl info), mdRow (fg_Usage fl)]"

definition configIntro :: "string list" where
  "configIntro =
    [''# Configuration reference'',
      [],
      ''Settings are loaded with the following priority (highest wins):'',
      [],
      ''**CLI flags > environment variables > config file > defaults**'',
      [],
      ''For task-oriented setup notes (where the config file lives, how to override'',
      ''via env vars, the example config), see'',
      ''[Configure the agent](../guides/configuration).'',
      [],
      ''Every row below is derived from the corresponding Go declaration in'',
      ''[`config.go`](https://github.com/osism/ovn-network-agent/blob/main/config.go);'',
      ''regenerate this page with `go generate ./...`.'',
      [],
      ''## Flags, environment variables and YAML keys'',
      [],
      ''| Flag | Env Var | Config key | Default | Description |'',
      ''|------|---------|------------|---------|-------------|'']"

definition extraRows :: "sourceInfo \<Rightarrow> string list" where
  "extraRows info =
     (let extra = extraYAMLOnlyRows info in
      if extra = [] then []
      else [[],
      ''Additional YAML-only keys:'',
      [],
      ''| Config key | Type | Description |'',
      ''|------------|------|-------------|'']
        @ map (\<lambda>(key, typ, desc). tableRow [mdCode key, mdCode typ, mdRow desc]) extra)"

definition nestedRows :: "structInfo \<Rightarrow> string list" where
  "nestedRows st = map (\<lambda>f. tableRow [mdCode (sf_YAMLTag f), mdCode (sf_Type f),
       mdRow (if sf_Comment f = [] then emdash else sf_Comment f)])
     (filter (\<lambda>f. sf_YAMLTag f \<noteq> []) (si_Fields st))"

definition nestedTable :: "sourceInfo \<Rightarrow> string \<Rightarrow> string list" where
  "nestedTable info name =
     (case map_of (in_Structs info) name of
        None \<Rightarrow> []
      | Some st \<Rightarrow>
          [[], ''## '' @ mdCode name @ '' (YAML-only)'', []]
          @ [''Nested YAML structure used inside `port_forwards`.'',
      [],
      ''| YAML key | Type | Description |'',
      ''|----------|------|-------------|'']
          @ nestedRows st)"

definition renderConfiguration :: "sourceInfo \<Rightarrow> string" where
  "renderConfiguration info = text_lines
     (writeBanner @ configIntro @ map (configRow info) (in_Flags info) @ extraRows info
      @ nestedTable info ''PortForwardVIP'' @ nestedTable info ''PortForwardRule'')"

definition cliRow :: "sourceInfo \<Rightarrow> flagInfo \<Rightarrow> string" where
  "cliRow info fl = tableRow
     [mdCode (''--'' @ fg_Name fl), renderDefault (resolveDefault fl info), mdRow (fg_Usage fl)]"

definition cliIntro :: "string list" where
  "cliIntro =
    [''# Command-line flags'',
      [],
      ''Every command-line flag accepted by `ovn-network-agent`. Most flags also'',
      ''have an environment variable and YAML equivalent '' @ emdash @ '' see the'',
      ''[configuration reference](configuration) for the cross-reference table.'',
      [],
      ''This page is generated from the `flag.FlagSet` declared in'',
      ''[`config.go`](https://github.com/osism/ovn-network-agent/blob/main/config.go);'',
      ''regenerate it with `go generate ./...`.'',
      [],
      ''| Flag | Default | Description |'',
      ''|------|---------|-------------|'']"

definition renderCLI :: "sourceInfo \<Rightarrow> string" where
  "renderCLI info = text_lines (writeBanner @ cliIntro @ map (cliRow info) (in_Flags info))"

definition metricRow :: "metricInfo \<Rightarrow> string" where
  "metricRow m = tableRow
     [mdCode (mi_FullName m), if mi_IsVec m then mi_Kind m @ '' (vec)'' else mi_Kind m,
      renderMetricLabels m, mdRow (mi_Help m)]"

definition metricsIntro :: "sourceInfo \<Rightarrow> string list" where
  "metricsIntro info =
    [''# Metrics'',
      [],
      ''The agent can expose Prometheus-formatted metrics on an optional HTTP'',
      ''endpoint. Enable it by setting `--metrics-listen` (or'',
      ''`OVN_NETWORK_METRICS_LISTEN` / `metrics_listen`) to a `host:port` such as'',
      ''`127.0.0.1:9273`. The endpoint is **off by default**; bind to `127.0.0.1` for'',
      ''node-local scraping, or to `0.0.0.0` for a remote scraper.'',
      [],
      ''```bash'',
      ''ovn-network-agent --metrics-listen 127.0.0.1:9273'',
      ''curl -s http://127.0.0.1:9273/metrics'',
      ''```'',
      [],
      ''Two paths are served:'',
      [],
      ''- `/metrics` '' @ emdash @ '' Prometheus exposition format'',
      ''- `/healthz` '' @ emdash @ '' returns `200 ok` for liveness probes'',
      []]
    @ [(if in_Namespace info \<noteq> []
        then ''All metrics are prefixed with `'' @ in_Namespace info @ ''_`. '' else [])
       @ ''The table below is generated from the'']
    @ [''`prometheus.New*` constructors in'',
      ''[`metrics.go`](https://github.com/osism/ovn-network-agent/blob/main/metrics.go);'',
      ''regenerate it with `go generate ./...`.'',
      [],
      ''| Metric | Type | Labels | Description |'',
      ''|--------|------|--------|-------------|'']"

definition suggestedAlerts :: "string list" where
  "suggestedAlerts =
    [[],
      ''## Suggested alerts'',
      [],
      ''- `consecutive_readds >= 3` '' @ emdash @ '' persistent route instability (FRR or kernel'',
      ''  races).'',
      ''- `ovn_connection_state{database=\"nb\"} == 0` for >2m '' @ emdash @ '' NB DB unreachable;'',
      ''  agent cannot write OVN state.'',
      ''- `rate(route_readds_total[10m]) > 0` '' @ emdash @ '' flapping routes.'',
      ''- `inactive_routes > 0` for >2m '' @ emdash @ '' FIP `/32`s configured in FRR but not'',
      ''  advertised via BGP (e.g. an unresolvable next-hop); those FIPs are'',
      ''  unreachable from outside.'',
      ''- `histogram_quantile(0.95, rate(reconcile_duration_seconds_bucket[5m])) > 5`'',
      ''  '' @ emdash @ '' slow reconciles.'']"

definition renderMetrics :: "sourceInfo \<Rightarrow> string" where
  "renderMetrics info = text_lines
     (writeBanner @ metricsIntro info @ map metricRow (in_Metrics info) @ suggestedAlerts)"

section \<open>Tables stay tables\<close>

text \<open>How a Markdown reader splits a row: at every bar that no backslash precedes.\<close>

fun splitCells :: "bool \<Rightarrow> string \<Rightarrow> string list" where
  "splitCells p [] = [[]]"
| "splitCells p (c # s) =
     (if c = CHR ''|'' \<and> \<not> p then [] # splitCells False s
      else case splitCells (c = backslash) s of w # ws \<Rightarrow> (c # w) # ws | [] \<Rightarrow> [[c]])"

fun bars_escaped :: "bool \<Rightarrow> string \<Rightarrow> bool" where
  "bars_escaped p [] = True"
| "bars_escaped p (c # s) = ((c = CHR ''|'' \<longrightarrow> p) \<and> bars_escaped (c = backslash) s)"

fun ends_backslash :: "bool \<Rightarrow> string \<Rightarrow> bool" where
  "ends_backslash p [] = p"
| "ends_backslash p (c # s) = ends_backslash (c = backslash) s"

definition plain :: "string \<Rightarrow> bool" where
  "plain s \<longleftrightarrow> CHR ''|'' \<notin> set s \<and> newline \<notin> set s"

definition cell_ok :: "string \<Rightarrow> bool" where
  "cell_ok s \<longleftrightarrow> bars_escaped False s \<and> newline \<notin> set s"

text \<open>A cell with the blanks around it.\<close>

definition padded :: "string \<Rightarrow> string" where
  "padded s = '' '' @ s @ '' ''"

lemma splitCells_cell:
  "bars_escaped p s \<Longrightarrow> \<not> ends_backslash p s \<Longrightarrow> splitCells p (s @ CHR ''|'' # t) = s # splitCells False t"
  by (induction p s rule: bars_escaped.induct) auto

lemma bars_append: "bars_escaped p (s @ t) \<longleftrightarrow> bars_escaped p s \<and> bars_escaped (ends_backslash p s) t"
  by (induction p s rule: bars_escaped.induct) auto

lemma ends_append: "ends_backslash p (s @ t) = ends_backslash (ends_backslash p s) t"
  by (induction p s rule: ends_backslash.induct) auto

lemma padded_ok: "bars_escaped False s \<Longrightarrow> bars_escaped False (padded s) \<and> \<not> ends_backslash False (padded s)"
  by (simp add: padded_def bars_append ends_append backslash_def)

lemma Join_padded: "cells \<noteq> [] \<Longrightarrow> tableRow cells = CHR ''|'' # concat (map (\<lambda>c. padded c @ ''|'') cells)"
proof -
  have "'' '' @ Join cells '' | '' @ '' |'' = concat (map (\<lambda>c. padded c @ ''|'') cells)" if "cells \<noteq> []"
    using that by (induction cells "'' | ''" rule: Join.induct) (simp_all add: padded_def)
  then show "cells \<noteq> [] \<Longrightarrow> tableRow cells = CHR ''|'' # concat (map (\<lambda>c. padded c @ ''|'') cells)"
    by (simp add: tableRow_def)
qed

lemma splitCells_row:
  "list_all (bars_escaped False) cells \<Longrightarrow>
   splitCells False (concat (map (\<lambda>c. padded c @ ''|'') cells)) = map padded cells @ [[]]"
proof (induction cells)
  case (Cons c cells)
  then show ?case using padded_ok [of c] by (simp add: splitCells_cell)
qed simp

lemma row_cells: "list_all (bars_escaped False) cells \<Longrightarrow> cells \<noteq> [] \<Longrightarrow>
   splitCells False (tableRow cells) = [] # map padded cells @ [[]]"
  by (simp add: Join_padded splitCells_row)

lemma row_line: "list_all (\<lambda>c. newline \<notin> set c) cells \<Longrightarrow> newline \<notin> set (tableRow cells)"
  by (induction cells "'' | ''" rule: Join.induct) (auto simp: tableRow_def newline_def)

lemma plain_bars: "CHR ''|'' \<notin> set s \<Longrightarrow> bars_escaped p s"
  by (induction p s rule: bars_escaped.induct) auto

lemma plain_ok: "plain s \<Longrightarrow> cell_ok s"
  by (simp add: plain_def cell_ok_def plain_bars)

lemma mdCode_ok: "plain s \<Longrightarrow> cell_ok (mdCode s)"
  by (rule plain_ok) (simp add: mdCode_def plain_def newline_def)

lemma emdash_ok [simp]: "cell_ok emdash" "cell_ok []"
  by (simp_all add: plain_ok plain_def emdash_def newline_def)

lemma bars_escape: "bars_escaped p (ReplaceAll CHR ''|'' [backslash, CHR ''|''] s)"
  by (induction s arbitrary: p) (auto simp: ReplaceAll_def backslash_def)

lemma bars_spaces: "bars_escaped p s \<Longrightarrow> bars_escaped p (ReplaceAll newline '' '' s)"
proof (induction p s rule: bars_escaped.induct)
  case (2 p c s)
  then show ?case by (cases "c = newline") (auto simp: ReplaceAll_def newline_def backslash_def)
qed (simp add: ReplaceAll_def)

lemma bars_dropWhile: "bars_escaped False s \<Longrightarrow> bars_escaped False (dropWhile is_space s)"
  by (induction s) (auto simp: is_space_def backslash_def)

lemma TrimSpace_prefix: "\<exists>t. dropWhile is_space s = TrimSpace s @ t"
  unfolding TrimSpace_def by (metis rev_append rev_rev_ident takeWhile_dropWhile_id)

lemma mdRow_ok: "cell_ok (mdRow s)"
proof -
  let ?u = "ReplaceAll newline '' '' (ReplaceAll CHR ''|'' [backslash, CHR ''|''] s)"
  obtain t where t: "dropWhile is_space ?u = mdRow s @ t"
    using TrimSpace_prefix [of ?u] by (auto simp: mdRow_def)
  have "bars_escaped False ?u" by (rule bars_spaces [OF bars_escape])
  then have "bars_escaped False (mdRow s)" using bars_dropWhile [of ?u] unfolding t bars_append by simp
  moreover have "newline \<notin> set ?u" by (auto simp: ReplaceAll_def newline_def)
  then have "newline \<notin> set (mdRow s)" using t set_dropWhileD by (metis Un_iff set_append)
  ultimately show ?thesis by (simp add: cell_ok_def)
qed

lemma row_ok:
  assumes "list_all cell_ok cells" "cells \<noteq> []"
  shows "splitCells False (tableRow cells) = [] # map padded cells @ [[]]" "newline \<notin> set (tableRow cells)"
  using assms row_cells [of cells] row_line [of cells] by (simp_all add: cell_ok_def list_all_iff)

section \<open>The pages, line by line\<close>

lemma Split_text_lines: "list_all (\<lambda>l. newline \<notin> set l) ls \<Longrightarrow> Split newline (text_lines ls) = ls @ [[]]"
  by (induction ls) (simp_all add: text_lines_def Split_append)

text \<open>What a flag must be for its row: names, keys and defaults without bars and newlines.\<close>

definition flag_plain :: "sourceInfo \<Rightarrow> flagInfo \<Rightarrow> bool" where
  "flag_plain info fl \<longleftrightarrow> plain (fg_Name fl) \<and> plain (resolveDefault fl info) \<and> plain (fg_ImplicitEnv fl)
     \<and> (\<forall>v. map_of (in_EnvByField info) (fg_ConfigField fl) = Some v \<longrightarrow> plain v)
     \<and> (\<forall>v. map_of (in_YAMLByField info) (fg_ConfigField fl) = Some v \<longrightarrow> plain v)"

lemma plain_parts: "plain s \<Longrightarrow> plain (TrimSpace s)" "plain s \<Longrightarrow> plain (butlast (tl s))" "plain s \<Longrightarrow> plain (takeWhile P s)"
proof -
  assume p: "plain s"
  obtain t where "dropWhile is_space s = TrimSpace s @ t" using TrimSpace_prefix by blast
  then have "set (TrimSpace s) \<subseteq> set s" using set_dropWhileD by (metis Un_iff set_append subsetI)
  with p show "plain (TrimSpace s)" by (auto simp: plain_def)
  have "set (butlast (tl s)) \<subseteq> set s" by (cases s) (auto dest: in_set_butlastD)
  with p show "plain (butlast (tl s))" by (auto simp: plain_def)
  show "plain (takeWhile P s)" using p by (auto simp: plain_def dest: set_takeWhileD)
qed

lemma durationLiteral_plain: "durationLiteral s = Some d \<Longrightarrow> plain s \<Longrightarrow> plain d"
proof -
  assume d: "durationLiteral s = Some d" and s: "plain s"
  then obtain u x where "d = takeWhile is_digit s @ x" "durationSuffix u = Some x"
    by (auto simp: durationLiteral_def Let_def split: list.splits if_splits)
  moreover from this have "plain x" by (auto simp: durationSuffix_def plain_def newline_def split: if_splits)
  ultimately show ?thesis using plain_parts(3) [OF s, of is_digit] by (simp add: plain_def)
qed

lemma renderDefault_ok: "plain s \<Longrightarrow> cell_ok (renderDefault s)"
  using plain_parts(1) [of s] plain_parts(2) [of "TrimSpace s"] durationLiteral_plain [of "TrimSpace s"]
  by (auto simp: renderDefault_def Let_def mdCode_ok split: option.split)

lemma cliRow_ok:
  assumes "flag_plain info fl"
  shows "list_all cell_ok [mdCode (''--'' @ fg_Name fl), renderDefault (resolveDefault fl info), mdRow (fg_Usage fl)]"
  using assms by (simp add: flag_plain_def renderDefault_ok mdRow_ok) (simp add: mdCode_ok plain_def newline_def)

lemma configRow_ok:
  assumes "flag_plain info fl"
  shows "list_all cell_ok [mdCode (''--'' @ fg_Name fl), renderEnv fl info, renderYAML fl info,
      renderDefault (resolveDefault fl info), mdRow (fg_Usage fl)]"
proof -
  have "cell_ok (renderEnv fl info)" "cell_ok (renderYAML fl info)"
    using assms by (auto simp: renderEnv_def renderYAML_def flag_plain_def mdCode_ok split: option.split)
  with cliRow_ok [OF assms] show ?thesis by simp
qed

lemma intro_lines: "list_all (\<lambda>l. newline \<notin> set l) (writeBanner @ cliIntro)"
  by (simp add: writeBanner_def banner_def cliIntro_def emdash_def newline_def)

text \<open>
  C39. The command-line reference: as long as the names and defaults of the flags hold no bar and no
  newline, the page has, after its introduction, exactly one line for each flag, in order, and a
  Markdown reader splits that line into the three cells that were written, whatever the usage texts
  contain; the same holds of the rows of the configuration reference and their five cells.
\<close>

theorem flag_rows:
  assumes "list_all (flag_plain info) (in_Flags info)"
  shows "Split newline (renderCLI info) = writeBanner @ cliIntro @ map (cliRow info) (in_Flags info) @ [[]]
    \<and> list_all (\<lambda>fl.
        splitCells False (cliRow info fl) = [] # map padded [mdCode (''--'' @ fg_Name fl),
          renderDefault (resolveDefault fl info), mdRow (fg_Usage fl)] @ [[]]
        \<and> newline \<notin> set (configRow info fl) \<and> length (splitCells False (configRow info fl)) = 7) (in_Flags info)"
proof -
  have r: "newline \<notin> set (cliRow info fl)" "newline \<notin> set (configRow info fl)"
    "splitCells False (cliRow info fl) = [] # map padded [mdCode (''--'' @ fg_Name fl),
       renderDefault (resolveDefault fl info), mdRow (fg_Usage fl)] @ [[]]"
    "length (splitCells False (configRow info fl)) = 7" if "flag_plain info fl" for fl
    using row_ok [OF cliRow_ok [OF that]] row_ok [OF configRow_ok [OF that]]
    by (simp_all add: cliRow_def configRow_def)
  have "Split newline (renderCLI info) = (writeBanner @ cliIntro @ map (cliRow info) (in_Flags info)) @ [[]]"
    unfolding renderCLI_def
    by (rule Split_text_lines) (use intro_lines r(1) assms in \<open>auto simp: list_all_iff\<close>)
  with r assms show ?thesis by (auto simp: list_all_iff)
qed

definition demo_doc :: sourceInfo where
  "demo_doc = \<lparr>in_Namespace = [], in_Structs = [],
     in_Flags = [\<lparr>fg_Name = ''log-level'', fg_Kind = ''string'', fg_Default = [quote, quote],
       fg_Usage = ''debug|info'', fg_ConfigField = ''LogLevel'', fg_ImplicitEnv = []\<rparr>],
     in_FlagByField = [], in_EnvByField = [(''LogLevel'', ''OVN_NETWORK_LOG_LEVEL'')], in_YAMLByField = [],
     in_DefaultByField = [(''LogLevel'', quote # ''info'' @ [quote])], in_Metrics = []\<rparr>"

theorem flag_rows_witness:
  "Split newline (renderCLI demo_doc) =
     writeBanner @ cliIntro @ map (cliRow demo_doc) (in_Flags demo_doc) @ [[]]"
  using flag_rows [of demo_doc]
  by (simp add: demo_doc_def flag_plain_def plain_def resolveDefault_def newline_def quote_def)

text \<open>Only descriptions are escaped: a bar in a default adds a cell.\<close>

lemma default_bar_splits:
  "splitCells False (tableRow [mdCode ''--filter'', renderDefault (quote # ''a|b'' @ [quote]), mdRow ''A filter''])
     = [[], '' `--filter` '', '' `a'', ''b` '', '' A filter '', []]"
  by (simp add: tableRow_def mdCode_def renderDefault_def mdRow_def ReplaceAll_def TrimSpace_def is_space_def
      quote_def durationLiteral_def is_digit_def backslash_def newline_def Let_def)

end
