(* ===== verification/DocParse.thy ===== *)
theory DocParse
  imports DocRender
begin

text \<open>
  The parser of the documentation generator (\<open>tools/docgen/parse.go\<close>): from the syntax trees of
  \<open>config.go\<close> and \<open>metrics.go\<close> to the facts the renderers print. The Go parser is a parameter; its
  trees are the datatype \<open>node\<close>, with one constructor for each node type the code looks at and
  \<open>OtherNode\<close> with its children for all others. \<open>ast.Inspect\<close> visits a tree in preorder.
\<close>

section \<open>Syntax trees\<close>

datatype gentok = TypeTok | VarTok | ConstTok | ImportTok

datatype asgtok = DefineTok | AssignTok | OtherAssignTok

text \<open>
  \<open>BasicLit\<close> says whether the token is a string and holds the source text. A field has its
  names, type, tag, doc comment and line comment; a function its receiver flag, name, type and body.
\<close>

datatype node =
    Ident string
  | BasicLit bool string
  | SelectorExpr node string
  | StarExpr node
  | ArrayType "node option" node
  | MapType node node
  | BinaryExpr node string node
  | CallExpr node "node list"
  | UnaryExpr string node
  | ParenExpr node
  | CompositeLit "node option" "node list"
  | KeyValueExpr node node
  | InterfaceType "node list"
  | StructType "node list"
  | Field "string list" node "string option" "string list option" "string list option"
  | FuncLit node "node list option"
  | AssignStmt "node list" asgtok "node list"
  | ExprStmt node
  | DeclStmt node
  | IfStmt "node option" node "node list" "node option"
  | SwitchStmt "node option" "node option" "node list"
  | CaseClause "node list" "node list"
  | GenDecl gentok "node list"
  | ValueSpec "string list" "node option" "node list"
  | TypeSpec string node
  | FuncDecl bool string node "node list option"
  | OtherNode "node list"

definition optNode :: "'a option \<Rightarrow> 'a list" where
  "optNode x = (case x of None \<Rightarrow> [] | Some y \<Rightarrow> [y])"

definition optBody :: "'a list option \<Rightarrow> 'a list" where
  "optBody x = (case x of None \<Rightarrow> [] | Some ys \<Rightarrow> ys)"

text \<open>The children in the order of \<open>ast.Walk\<close>; names and comments are leaves nobody looks for.\<close>

fun children :: "node \<Rightarrow> node list" where
  "children (Ident x) = []"
| "children (BasicLit b v) = []"
| "children (SelectorExpr x sel) = [x]"
| "children (StarExpr x) = [x]"
| "children (ArrayType n elt) = optNode n @ [elt]"
| "children (MapType k v) = [k, v]"
| "children (BinaryExpr x p y) = [x, y]"
| "children (CallExpr g as) = g # as"
| "children (UnaryExpr p x) = [x]"
| "children (ParenExpr x) = [x]"
| "children (CompositeLit t es) = optNode t @ es"
| "children (KeyValueExpr k v) = [k, v]"
| "children (InterfaceType ms) = ms"
| "children (StructType fs) = fs"
| "children (Field ns t tag d c) = [t]"
| "children (FuncLit t b) = t # optBody b"
| "children (AssignStmt ls p rs) = ls @ rs"
| "children (ExprStmt x) = [x]"
| "children (DeclStmt x) = [x]"
| "children (IfStmt i c b e) = optNode i @ [c] @ b @ optNode e"
| "children (SwitchStmt i t b) = optNode i @ optNode t @ b"
| "children (CaseClause xs b) = xs @ b"
| "children (GenDecl p ss) = ss"
| "children (ValueSpec ns t vs) = optNode t @ vs"
| "children (TypeSpec n t) = [t]"
| "children (FuncDecl r n t b) = t # optBody b"
| "children (OtherNode xs) = xs"

lemma children_size: "x \<in> set (children n) \<Longrightarrow> size x < size n"
proof -
  have m: "x \<in> set xs \<Longrightarrow> size x < Suc (size_list size xs)" for xs
    by (induction xs) auto
  assume "x \<in> set (children n)"
  then show ?thesis
    by (cases n) (auto simp: optNode_def optBody_def split: option.splits dest!: m)
qed

function preorder :: "node \<Rightarrow> node list" where
  "preorder n = n # concat (map preorder (children n))"
  by pat_completeness auto
termination
  by (relation "measure size") (auto dest: children_size)

declare preorder.simps [simp del]

definition visited :: "node list \<Rightarrow> node list" where
  "visited ns = concat (map preorder ns)"

text \<open>A search with \<open>ast.Inspect\<close> that stops at the first node that matches.\<close>

fun firstSome :: "('a \<Rightarrow> 'b option) \<Rightarrow> 'a list \<Rightarrow> 'b option" where
  "firstSome p [] = None"
| "firstSome p (x # xs) = (case p x of Some y \<Rightarrow> Some y | None \<Rightarrow> firstSome p xs)"

section \<open>String literals\<close>

text \<open>\<open>strconv.Unquote\<close> on the two kinds of Go string literals.\<close>

definition hexVal :: "char \<Rightarrow> nat option" where
  "hexVal c = (let n = of_char (lower_char c) :: nat
     in if 48 \<le> n \<and> n \<le> 57 then Some (n - 48) else if 97 \<le> n \<and> n \<le> 102 then Some (n - 87) else None)"

definition octVal :: "char \<Rightarrow> nat option" where
  "octVal c = (let n = of_char c :: nat in if 48 \<le> n \<and> n \<le> 55 then Some (n - 48) else None)"

fun readDigits :: "(char \<Rightarrow> nat option) \<Rightarrow> nat \<Rightarrow> nat \<Rightarrow> string \<Rightarrow> nat option" where
  "readDigits val b v [] = Some v"
| "readDigits val b v (c # cs) = (case val c of None \<Rightarrow> None | Some d \<Rightarrow> readDigits val b (b * v + d) cs)"

definition exactly :: "(char \<Rightarrow> nat option) \<Rightarrow> nat \<Rightarrow> nat \<Rightarrow> string \<Rightarrow> nat option" where
  "exactly val b k s = (if length s < k then None else readDigits val b 0 (take k s))"

definition byte :: "nat \<Rightarrow> char" where
  "byte n = char_of n"

text \<open>UTF-8 of a valid code point.\<close>

definition utf8 :: "nat \<Rightarrow> string option" where
  "utf8 r =
     (if r < 0x80 then Some [byte r]
      else if r < 0x800 then Some [byte (0xC0 + r div 64), byte (0x80 + r mod 64)]
      else if 0xD800 \<le> r \<and> r < 0xE000 then None
      else if r < 0x10000
      then Some [byte (0xE0 + r div 4096), byte (0x80 + r div 64 mod 64), byte (0x80 + r mod 64)]
      else if r < 0x110000
      then Some [byte (0xF0 + r div 262144), byte (0x80 + r div 4096 mod 64), byte (0x80 + r div 64 mod 64),
                 byte (0x80 + r mod 64)]
      else None)"

definition simpleEscape :: "char \<Rightarrow> char option" where
  "simpleEscape = map_of [(CHR ''a'', CHR 0x07), (CHR ''b'', CHR 0x08), (CHR ''f'', CHR 0x0C),
     (CHR ''n'', CHR 0x0A), (CHR ''r'', CHR 0x0D), (CHR ''t'', CHR 0x09), (CHR ''v'', CHR 0x0B),
     (CHR 0x5C, CHR 0x5C), (CHR 0x22, CHR 0x22)]"

text \<open>What follows a backslash: the bytes it stands for and how many characters it takes.\<close>

definition escape :: "string \<Rightarrow> (string \<times> nat) option" where
  "escape s =
     (case s of [] \<Rightarrow> None
      | d # t \<Rightarrow>
          (case simpleEscape d of Some e \<Rightarrow> Some ([e], 1)
           | None \<Rightarrow>
               if d = CHR ''x'' then map_option (\<lambda>v. ([byte v], 3)) (exactly hexVal 16 2 t)
               else if d = CHR ''u'' then map_option (\<lambda>u. (u, 5)) (Option.bind (exactly hexVal 16 4 t) utf8)
               else if d = CHR ''U'' then map_option (\<lambda>u. (u, 9)) (Option.bind (exactly hexVal 16 8 t) utf8)
               else case exactly octVal 8 3 s of
                      Some v \<Rightarrow> if v \<le> 255 then Some ([byte v], 3) else None
                    | None \<Rightarrow> None))"

lemma escape_pos: "escape s = Some (e, k) \<Longrightarrow> 0 < k \<and> s \<noteq> []"
  by (auto simp: escape_def split: list.splits option.splits if_splits)

function unquoteBody :: "string \<Rightarrow> string option" where
  "unquoteBody [] = Some []"
| "unquoteBody (c # s) =
     (if c = quote \<or> c = newline then None
      else if c \<noteq> backslash then map_option (\<lambda>r. c # r) (unquoteBody s)
      else case escape s of
             None \<Rightarrow> None
           | Some (e, k) \<Rightarrow> map_option (\<lambda>r. e @ r) (unquoteBody (drop k s)))"
  by pat_completeness auto
termination
  by (relation "measure length") auto

definition backquote :: char where
  "backquote = CHR 0x60"

definition Unquote :: "string \<Rightarrow> string option" where
  "Unquote s =
     (if length s < 2 \<or> hd s \<noteq> last s then None
      else let body = butlast (tl s) in
        if hd s = quote then unquoteBody body
        else if hd s = backquote
        then (if backquote \<in> set body then None else Some (filter (\<lambda>c. c \<noteq> CHR 0x0D) body))
        else None)"

definition stringLit :: "node \<Rightarrow> string option" where
  "stringLit e = (case e of BasicLit b v \<Rightarrow> if b then Unquote v else None | _ \<Rightarrow> None)"

definition stringSliceLit :: "node \<Rightarrow> string list" where
  "stringSliceLit e = (case e of CompositeLit t es \<Rightarrow> List.map_filter stringLit es | _ \<Rightarrow> [])"

section \<open>Struct tags and comments\<close>

definition tagKeyChar :: "char \<Rightarrow> bool" where
  "tagKeyChar c \<longleftrightarrow> c \<noteq> CHR '':'' \<and> (of_char c :: nat) > 32 \<and> c \<noteq> quote"

text \<open>After the opening quote: what stands before the closing one, and what follows it.\<close>

fun scanValue :: "string \<Rightarrow> (string \<times> string) option" where
  "scanValue [] = None"
| "scanValue (c # s) =
     (if c = quote then Some ([], s)
      else if c = backslash
      then (case s of [] \<Rightarrow> None | d # t \<Rightarrow> map_option (\<lambda>(q, r). (c # d # q, r)) (scanValue t))
      else map_option (\<lambda>(q, r). (c # q, r)) (scanValue s))"

lemma scanValue_shorter: "scanValue s = Some (q, r) \<Longrightarrow> length r < length s"
  by (induction s arbitrary: q rule: scanValue.induct) (fastforce split: if_splits list.splits)+

function tagLoop :: "string \<Rightarrow> string \<Rightarrow> string" where
  "tagLoop key s =
     (let u = dropWhile (\<lambda>c. c = CHR '' '') s;
          k = takeWhile tagKeyChar u;
          r = dropWhile tagKeyChar u
      in if u = [] \<or> k = [] \<or> take 2 r \<noteq> [CHR '':'', quote] then []
         else case scanValue (drop 2 r) of
                None \<Rightarrow> []
              | Some (q, rest) \<Rightarrow>
                  if k = key
                  then (case Unquote (quote # q @ [quote]) of None \<Rightarrow> [] | Some v \<Rightarrow> takeWhile (\<lambda>c. c \<noteq> CHR '','') v)
                  else tagLoop key rest)"
  by pat_completeness auto
termination
proof (relation "measure (\<lambda>(k, s). length s)", simp, goal_cases)
  case (1 key s u k r p q rest)
  have "length rest < length (drop 2 r)" using 1 by (auto dest: scanValue_shorter)
  moreover have "length (drop 2 r) \<le> length u" using 1(3) length_dropWhile_le [of tagKeyChar u] by simp
  moreover have "length u \<le> length s" using 1(1) length_dropWhile_le by simp
  ultimately show ?case by simp
qed

declare tagLoop.simps [simp del]

definition structTagValue :: "string \<Rightarrow> string \<Rightarrow> string" where
  "structTagValue raw key = (case Unquote raw of None \<Rightarrow> [] | Some s \<Rightarrow> tagLoop key s)"

definition commentLine :: "string \<Rightarrow> string" where
  "commentLine c = TrimSpace (TrimSuffix (TrimSpace (TrimPrefix (TrimSpace (TrimPrefix c ''//'')) ''/*'')) ''*/'')"

definition commentText :: "string list option \<Rightarrow> string" where
  "commentText g = (case g of None \<Rightarrow> []
     | Some cs \<Rightarrow> Join (filter (\<lambda>t. t \<noteq> []) (map commentLine cs)) '' '')"

definition fieldComment :: "string list option \<Rightarrow> string list option \<Rightarrow> string" where
  "fieldComment doc lineComment = (let c = commentText lineComment in if c \<noteq> [] then c else commentText doc)"

section \<open>Expressions as text\<close>

definition ellipsis :: string where
  "ellipsis = [CHR 0xE2, CHR 0x80, CHR 0xA6]"

fun exprString :: "node \<Rightarrow> string" where
  "exprString (Ident x) = x"
| "exprString (BasicLit b v) = v"
| "exprString (SelectorExpr x sel) = exprString x @ ''.'' @ sel"
| "exprString (StarExpr x) = ''*'' @ exprString x"
| "exprString (ArrayType n elt) =
     (case n of None \<Rightarrow> ''[]'' @ exprString elt | Some l \<Rightarrow> ''['' @ exprString l @ '']'' @ exprString elt)"
| "exprString (MapType k v) = ''map['' @ exprString k @ '']'' @ exprString v"
| "exprString (BinaryExpr x p y) = exprString x @ '' '' @ p @ '' '' @ exprString y"
| "exprString (CallExpr g as) = exprString g @ ''('' @ Join (map exprString as) '', '' @ '')''"
| "exprString (UnaryExpr p x) = p @ exprString x"
| "exprString (ParenExpr x) = ''('' @ exprString x @ '')''"
| "exprString (CompositeLit t es) =
     (case t of None \<Rightarrow> [] | Some ty \<Rightarrow> exprString ty) @ ''{'' @ ellipsis @ ''}''"
| "exprString (InterfaceType ms) = ''interface{}''"
| "exprString _ = []"

section \<open>Looking things up in a file\<close>

text \<open>A file is the list of its declarations.\<close>

definition findFunc :: "node list \<Rightarrow> string \<Rightarrow> node list option option" where
  "findFunc decls name = firstSome (\<lambda>d. case d of
     FuncDecl recv n ty body \<Rightarrow> if \<not> recv \<and> n = name then Some body else None | _ \<Rightarrow> None) decls"

text \<open>The body, when the function is declared and has one.\<close>

definition funcBody :: "node list \<Rightarrow> string \<Rightarrow> node list option" where
  "funcBody decls name = (case findFunc decls name of Some (Some body) \<Rightarrow> Some body | _ \<Rightarrow> None)"

section \<open>Structs\<close>

definition structFields :: "node \<Rightarrow> structField list" where
  "structFields n = (case n of
     Field names ty tag doc lineComment \<Rightarrow>
       map (\<lambda>name. \<lparr>sf_Name = name, sf_Type = exprString ty,
              sf_YAMLTag = (case tag of Some raw \<Rightarrow> structTagValue raw ''yaml'' | None \<Rightarrow> []),
              sf_Comment = fieldComment doc lineComment\<rparr>) names
   | _ \<Rightarrow> [])"

definition addStruct :: "node \<Rightarrow> sourceInfo \<Rightarrow> sourceInfo" where
  "addStruct spec info = (case spec of
     TypeSpec name (StructType fs) \<Rightarrow>
       info\<lparr>in_Structs := AList.update name
              \<lparr>si_Name = name, si_Fields = concat (map structFields fs)\<rparr> (in_Structs info)\<rparr>
   | _ \<Rightarrow> info)"

definition parseStructs :: "node list \<Rightarrow> sourceInfo \<Rightarrow> sourceInfo" where
  "parseStructs decls info = fold (\<lambda>d info. case d of
     GenDecl TypeTok specs \<Rightarrow> fold addStruct specs info | _ \<Rightarrow> info) decls info"

section \<open>loadConfig\<close>

definition getenvCallArg :: "node \<Rightarrow> string option" where
  "getenvCallArg e = (case e of
     CallExpr (SelectorExpr (Ident x) sel) args \<Rightarrow>
       if sel = ''Getenv'' \<and> x = ''os'' then (case args of [a] \<Rightarrow> stringLit a | _ \<Rightarrow> None) else None
   | _ \<Rightarrow> None)"

definition flagKindName :: "string \<Rightarrow> string option" where
  "flagKindName = map_of [(''String'', ''string''), (''Int'', ''int''), (''Bool'', ''bool'')]"

definition flagFromCall :: "node \<Rightarrow> flagInfo option" where
  "flagFromCall e = (case e of
     CallExpr (SelectorExpr (Ident recv) sel) args \<Rightarrow>
       if recv \<noteq> ''fs'' then None
       else (case (flagKindName sel, args) of
          (Some kind, a0 # a1 # a2 # rest) \<Rightarrow>
            (case (stringLit a0, stringLit a2) of
               (Some name, Some usage) \<Rightarrow> Some
                  \<lparr>fg_Name = name, fg_Kind = kind,
                   fg_Default = (case getenvCallArg a1 of Some env \<Rightarrow> [] | None \<Rightarrow> exprString a1),
                   fg_Usage = usage, fg_ConfigField = [],
                   fg_ImplicitEnv = (case getenvCallArg a1 of Some env \<Rightarrow> env | None \<Rightarrow> [])\<rparr>
             | _ \<Rightarrow> None)
        | _ \<Rightarrow> None)
   | _ \<Rightarrow> None)"

definition collectDefault :: "node \<Rightarrow> (string, string) gomap \<Rightarrow> (string, string) gomap" where
  "collectDefault elt m = (case elt of
     KeyValueExpr (Ident key) v \<Rightarrow> AList.update key (exprString v) m | _ \<Rightarrow> m)"

definition collectDefaults :: "node \<Rightarrow> sourceInfo \<Rightarrow> sourceInfo" where
  "collectDefaults s info = (case s of
     AssignStmt [Ident x] DefineTok [CompositeLit (Some (Ident ty)) elts] \<Rightarrow>
       if x = ''cfg'' \<and> ty = ''Config''
       then info\<lparr>in_DefaultByField := fold collectDefault elts (in_DefaultByField info)\<rparr> else info
   | _ \<Rightarrow> info)"

text \<open>\<open>cfg.Field = ...\<close> with one left-hand side: the field.\<close>

definition cfgAssigned :: "node \<Rightarrow> string option" where
  "cfgAssigned n = (case n of
     AssignStmt [SelectorExpr (Ident x) sel] tok rhs \<Rightarrow> if x = ''cfg'' then Some sel else None | _ \<Rightarrow> None)"

text \<open>
  The loop goes on while the field found is empty; a selector in a tree of the parser never is.
\<close>

definition nonEmpty :: "string option \<Rightarrow> string" where
  "nonEmpty x = (case x of Some s \<Rightarrow> s | None \<Rightarrow> [])"

definition extractConfigField :: "node list \<Rightarrow> string" where
  "extractConfigField body = nonEmpty (firstSome cfgAssigned (visited body))"

definition setField :: "string \<Rightarrow> string \<Rightarrow> (string, flagInfo) gomap \<Rightarrow> (string, flagInfo) gomap" where
  "setField flagName field m =
     map (\<lambda>(v, fi). (v, if fg_Name fi = flagName then fi\<lparr>fg_ConfigField := field\<rparr> else fi)) m"

definition caseMapping :: "node \<Rightarrow> (string, flagInfo) gomap \<Rightarrow> (string, flagInfo) gomap" where
  "caseMapping c m = (case c of
     CaseClause [e] body \<Rightarrow>
       (case stringLit e of None \<Rightarrow> m
        | Some flagName \<Rightarrow> (let field = extractConfigField body in if field = [] then m else setField flagName field m))
   | _ \<Rightarrow> m)"

definition switchMapping :: "node \<Rightarrow> (string, flagInfo) gomap \<Rightarrow> (string, flagInfo) gomap" where
  "switchMapping st m = (case st of SwitchStmt init tag body \<Rightarrow> fold caseMapping body m | _ \<Rightarrow> m)"

definition collectFlagFieldMapping :: "node \<Rightarrow> (string, flagInfo) gomap \<Rightarrow> (string, flagInfo) gomap" where
  "collectFlagFieldMapping es m = (case es of
     ExprStmt (CallExpr (SelectorExpr recv sel) [FuncLit ty (Some body)]) \<Rightarrow>
       if sel = ''Visit'' then fold switchMapping body m else m
   | _ \<Rightarrow> m)"

text \<open>The names of a specification with the value at their place.\<close>

definition declareFlag :: "string \<times> node \<Rightarrow> (string, flagInfo) gomap \<Rightarrow> (string, flagInfo) gomap" where
  "declareFlag nv m = (case flagFromCall (snd nv) of None \<Rightarrow> m | Some fi \<Rightarrow> AList.update (fst nv) fi m)"

definition specFlags :: "node \<Rightarrow> (string, flagInfo) gomap \<Rightarrow> (string, flagInfo) gomap" where
  "specFlags spec m = (case spec of
     ValueSpec names ty vals \<Rightarrow> fold declareFlag (zip names vals) m | _ \<Rightarrow> m)"

definition loadConfigStmt ::
  "node \<Rightarrow> (string, flagInfo) gomap \<times> sourceInfo \<Rightarrow> (string, flagInfo) gomap \<times> sourceInfo" where
  "loadConfigStmt st mi = (case st of
     DeclStmt (GenDecl VarTok specs) \<Rightarrow> (fold specFlags specs (fst mi), snd mi)
   | AssignStmt l t r \<Rightarrow> (fst mi, collectDefaults st (snd mi))
   | ExprStmt x \<Rightarrow> (collectFlagFieldMapping st (fst mi), snd mi)
   | _ \<Rightarrow> mi)"

text \<open>The second walk, in source order.\<close>

definition addFlag :: "(string, flagInfo) gomap \<Rightarrow> string \<Rightarrow> sourceInfo \<Rightarrow> sourceInfo" where
  "addFlag m name info = (case map_of m name of
     None \<Rightarrow> info
   | Some fi \<Rightarrow>
       if fg_Name fi = [] then info
       else (let info1 = info\<lparr>in_Flags := in_Flags info @ [fi]\<rparr>
             in if fg_ConfigField fi \<noteq> []
                then info1\<lparr>in_FlagByField := AList.update (fg_ConfigField fi) fi (in_FlagByField info1)\<rparr>
                else info1))"

definition declNames :: "node \<Rightarrow> string list" where
  "declNames st = (case st of
     DeclStmt (GenDecl VarTok specs) \<Rightarrow>
       concat (map (\<lambda>spec. case spec of ValueSpec names ty vals \<Rightarrow> names | _ \<Rightarrow> []) specs)
   | _ \<Rightarrow> [])"

definition parseLoadConfig :: "node list \<Rightarrow> sourceInfo \<Rightarrow> sourceInfo" where
  "parseLoadConfig decls info = (case funcBody decls ''loadConfig'' of
     None \<Rightarrow> info
   | Some body \<Rightarrow>
       (let (m, info1) = fold loadConfigStmt body ([], info)
        in fold (addFlag m) (concat (map declNames body)) info1))"

section \<open>applyFileConfig and applyEnvConfig\<close>

definition fcField :: "node \<Rightarrow> string option" where
  "fcField n = (case n of
     SelectorExpr (Ident x) sel \<Rightarrow> if x = ''fc'' then Some sel else None | _ \<Rightarrow> None)"

definition firstFCField :: "node \<Rightarrow> string" where
  "firstFCField n = nonEmpty (firstSome fcField (preorder n))"

definition firstCFGAssignment :: "node \<Rightarrow> string" where
  "firstCFGAssignment n = nonEmpty (firstSome cfgAssigned (preorder n))"

definition yamlByFileField :: "structInfo \<Rightarrow> (string, string) gomap" where
  "yamlByFileField st = fold (\<lambda>sf m. if sf_YAMLTag sf \<noteq> [] then AList.update (sf_Name sf) (sf_YAMLTag sf) m else m)
     (si_Fields st) []"

definition fileStmt :: "(string, string) gomap \<Rightarrow> node \<Rightarrow> sourceInfo \<Rightarrow> sourceInfo" where
  "fileStmt yaml st info =
     (let fileField = firstFCField st; cfgField = firstCFGAssignment st in
      if fileField = [] \<or> cfgField = [] then info
      else case map_of yaml fileField of
             Some y \<Rightarrow> info\<lparr>in_YAMLByField := AList.update cfgField y (in_YAMLByField info)\<rparr>
           | None \<Rightarrow> info)"

definition parseApplyFileConfig :: "node list \<Rightarrow> sourceInfo \<Rightarrow> sourceInfo" where
  "parseApplyFileConfig decls info = (case (funcBody decls ''applyFileConfig'', map_of (in_Structs info) ''configFile'') of
     (Some body, Some st) \<Rightarrow> fold (fileStmt (yamlByFileField st)) body info
   | _ \<Rightarrow> info)"

definition getenvFromIfInit :: "node \<Rightarrow> string" where
  "getenvFromIfInit init = (case init of
     AssignStmt lhs tok [e] \<Rightarrow> nonEmpty (getenvCallArg e) | _ \<Rightarrow> [])"

definition envStmt :: "node \<Rightarrow> sourceInfo \<Rightarrow> sourceInfo" where
  "envStmt st info = (case st of
     IfStmt (Some init) cond body els \<Rightarrow>
       (let envName = getenvFromIfInit init; field = extractConfigField body in
        if envName = [] \<or> field = [] then info
        else info\<lparr>in_EnvByField := AList.update field envName (in_EnvByField info)\<rparr>)
   | _ \<Rightarrow> info)"

definition parseApplyEnvConfig :: "node list \<Rightarrow> sourceInfo \<Rightarrow> sourceInfo" where
  "parseApplyEnvConfig decls info = (case funcBody decls ''applyEnvConfig'' of
     None \<Rightarrow> info | Some body \<Rightarrow> fold envStmt body info)"

section \<open>Metrics\<close>

definition namespaceValue :: "string \<times> node \<Rightarrow> string \<Rightarrow> string" where
  "namespaceValue nv ns =
     (if fst nv = ''metricsNamespace'' then (case stringLit (snd nv) of Some v \<Rightarrow> v | None \<Rightarrow> ns) else ns)"

definition parseNamespace :: "node list \<Rightarrow> string \<Rightarrow> string" where
  "parseNamespace decls ns = fold (\<lambda>d ns. case d of
     GenDecl ConstTok specs \<Rightarrow>
       fold (\<lambda>spec ns. case spec of ValueSpec names ty vals \<Rightarrow> fold namespaceValue (zip names vals) ns | _ \<Rightarrow> ns) specs ns
   | _ \<Rightarrow> ns) decls ns"

definition classifyConstructor :: "string \<Rightarrow> string \<times> bool" where
  "classifyConstructor name =
     (if name = ''NewCounter'' then (''counter'', False)
      else if name = ''NewCounterVec'' then (''counter'', True)
      else if name = ''NewGauge'' then (''gauge'', False)
      else if name = ''NewGaugeVec'' then (''gauge'', True)
      else if name = ''NewHistogram'' then (''histogram'', False)
      else if name = ''NewHistogramVec'' then (''histogram'', True)
      else ([], False))"

text \<open>A string option of the composite literal: the last one with this key.\<close>

definition optionValue :: "string \<Rightarrow> node list \<Rightarrow> string" where
  "optionValue key elts = fold (\<lambda>e v. case e of
     KeyValueExpr (Ident k) x \<Rightarrow> if k = key then (case stringLit x of Some t \<Rightarrow> t | None \<Rightarrow> v) else v
   | _ \<Rightarrow> v) elts []"

definition metricFromCall :: "node \<Rightarrow> string \<Rightarrow> metricInfo option" where
  "metricFromCall e namespace = (case e of
     CallExpr (SelectorExpr (Ident x) sel) (CompositeLit ty elts # args) \<Rightarrow>
       (let (kind, isVec) = classifyConstructor sel; name = optionValue ''Name'' elts in
        if x \<noteq> ''prometheus'' \<or> kind = [] \<or> name = [] then None
        else Some \<lparr>mi_Name = name,
               mi_FullName = (if namespace \<noteq> [] then namespace @ ''_'' @ name else name),
               mi_Kind = kind, mi_IsVec = isVec,
               mi_Labels = (if isVec then (case args of a # rest \<Rightarrow> stringSliceLit a | [] \<Rightarrow> []) else []),
               mi_Help = optionValue ''Help'' elts, mi_StructField = [], mi_LabelValues = []\<rparr>)
   | _ \<Rightarrow> None)"

definition registryLit :: "node \<Rightarrow> node list option" where
  "registryLit n = (case n of
     CompositeLit (Some (Ident x)) elts \<Rightarrow> if x = ''metricsRegistry'' then Some elts else None | _ \<Rightarrow> None)"

text \<open>The collectors in source order; the index by field is the position in this list.\<close>

definition registryMetric :: "string \<Rightarrow> node \<Rightarrow> metricInfo option" where
  "registryMetric namespace elt = (case elt of
     KeyValueExpr (Ident field) v \<Rightarrow>
       map_option (\<lambda>mi. mi\<lparr>mi_StructField := field\<rparr>) (metricFromCall v namespace)
   | _ \<Rightarrow> None)"

text \<open>
  \<open>m.field.WithLabelValues(...).op(...)\<close>: the field and the arguments.
\<close>

definition labelCall :: "node \<Rightarrow> (string \<times> node list) option" where
  "labelCall n = (case n of
     CallExpr (SelectorExpr (CallExpr (SelectorExpr (SelectorExpr (Ident recv) field) sel) args) oper) outer \<Rightarrow>
       if sel = ''WithLabelValues'' \<and> recv = ''m'' then Some (field, args) else None
   | _ \<Rightarrow> None)"

definition addLabelValue :: "string \<times> node \<Rightarrow> (string, string list) gomap \<Rightarrow> (string, string list) gomap" where
  "addLabelValue la m = (case stringLit (snd la) of
     None \<Rightarrow> m
   | Some val \<Rightarrow> (let vs = (case map_of m (fst la) of Some vs \<Rightarrow> vs | None \<Rightarrow> []) in
       if has vs val then m else AList.update (fst la) (vs @ [val]) m))"

text \<open>
  The index of a field that occurs twice is its last position, so only the last collector of a
  field takes the values.
\<close>

fun updateLast :: "('a \<Rightarrow> bool) \<Rightarrow> ('a \<Rightarrow> 'a) \<Rightarrow> 'a list \<Rightarrow> 'a list" where
  "updateLast p g [] = []"
| "updateLast p g (x # xs) = (if p x \<and> \<not> list_ex p xs then g x # xs else x # updateLast p g xs)"

definition addLabelValues :: "node list \<Rightarrow> metricInfo \<Rightarrow> metricInfo" where
  "addLabelValues args mi =
     mi\<lparr>mi_LabelValues := fold addLabelValue (zip (mi_Labels mi) args) (mi_LabelValues mi)\<rparr>"

definition collectLabelValues :: "node list \<Rightarrow> metricInfo list \<Rightarrow> metricInfo list" where
  "collectLabelValues body ms = fold (\<lambda>n ms. case labelCall n of
     None \<Rightarrow> ms
   | Some (field, args) \<Rightarrow> updateLast (\<lambda>mi. mi_StructField mi = field) (addLabelValues args) ms)
     (visited body) ms"

definition parseMetrics :: "node list \<Rightarrow> sourceInfo \<Rightarrow> sourceInfo result" where
  "parseMetrics decls info =
     (let ns = parseNamespace decls (in_Namespace info) in
      case funcBody decls ''newMetricsRegistry'' of
        None \<Rightarrow> Inl (ErrMsg ''metrics.go: function newMetricsRegistry not found'')
      | Some body \<Rightarrow>
          (case firstSome registryLit (visited body) of
             None \<Rightarrow> Inl (ErrMsg ''metrics.go: metricsRegistry composite literal not found'')
           | Some elts \<Rightarrow> Inr (info\<lparr>in_Namespace := ns,
               in_Metrics := collectLabelValues body
                 (in_Metrics info @ List.map_filter (registryMetric ns) elts)\<rparr>)))"

section \<open>The generator\<close>

definition emptyInfo :: sourceInfo where
  "emptyInfo = \<lparr>in_Namespace = [], in_Structs = [], in_Flags = [], in_FlagByField = [],
     in_EnvByField = [], in_YAMLByField = [], in_DefaultByField = [], in_Metrics = []\<rparr>"

definition parseConfigFile :: "node list \<Rightarrow> sourceInfo" where
  "parseConfigFile decls = parseApplyEnvConfig decls (parseApplyFileConfig decls
     (parseLoadConfig decls (parseStructs decls emptyInfo)))"

definition parseSource :: "(string \<Rightarrow> node list result) \<Rightarrow> sourceInfo result" where
  "parseSource parseFile =
     (case parseFile ''config.go'' of
        Inl e \<Rightarrow> Inl (ErrWrap ''parse config.go'' e)
      | Inr cfgFile \<Rightarrow>
          (case parseFile ''metrics.go'' of
             Inl e \<Rightarrow> Inl (ErrWrap ''parse metrics.go'' e)
           | Inr metricsFile \<Rightarrow> parseMetrics metricsFile (parseConfigFile cfgFile)))"

text \<open>What \<open>main\<close> writes, file by file.\<close>

definition docgenFiles :: "(string \<Rightarrow> node list result) \<Rightarrow> (string \<times> string) list result" where
  "docgenFiles parseFile =
     (case parseSource parseFile of
        Inl e \<Rightarrow> Inl (ErrWrap ''parse source'' e)
      | Inr info \<Rightarrow> Inr [(''configuration.md'', renderConfiguration info), (''cli.md'', renderCLI info),
                         (''metrics.md'', renderMetrics info)])"

end
