(* ===== verification/Metrics.thy ===== *)
theory Metrics
  imports Agent
begin

text \<open>
  The metrics of \<open>metrics.go\<close>. The Prometheus client is a parameter of the code: what the model keeps
  is the collectors that are described and registered and the calls made on them, in order; the
  value of a series is read off the calls as the client documents it (a counter is the sum of what
  was added, a gauge what was set last). A nil registry is \<open>None\<close>. Values passed to the client are
  integers, durations are in nanoseconds, bucket bounds in milliseconds.
\<close>

section \<open>Collectors\<close>

datatype mkind = Counter | Gauge | Histogram

record mdesc =
  d_name :: string
  d_kind :: mkind
  d_help :: string
  d_labels :: "string list"
  d_buckets :: "nat list"

datatype mcall = MAdd string "string list" int | MSet string "string list" int | MObserve string int

record metricsRegistry =
  g_collectors :: "mdesc list"
  g_calls :: "mcall list"

definition metricsNamespace :: string where
  "metricsNamespace = ''ovn_network_agent''"

abbreviation counter :: "string \<Rightarrow> string \<Rightarrow> string \<Rightarrow> mdesc" where
  "counter n h l \<equiv> \<lparr>d_name = n, d_kind = Counter, d_help = h, d_labels = [l], d_buckets = []\<rparr>"

abbreviation gauge :: "string \<Rightarrow> string \<Rightarrow> string list \<Rightarrow> mdesc" where
  "gauge n h ls \<equiv> \<lparr>d_name = n, d_kind = Gauge, d_help = h, d_labels = ls, d_buckets = []\<rparr>"

abbreviation histogram :: "string \<Rightarrow> string \<Rightarrow> nat list \<Rightarrow> mdesc" where
  "histogram n h bs \<equiv> \<lparr>d_name = n, d_kind = Histogram, d_help = h, d_labels = [], d_buckets = bs\<rparr>"

text \<open>In the order of \<open>MustRegister\<close>.\<close>

definition agentCollectors :: "mdesc list" where
  "agentCollectors =
    [counter ''reconcile_total'' ''Total reconcile cycles, labelled by trigger source.'' ''trigger'',
     histogram ''reconcile_duration_seconds'' ''Duration of a single reconcile cycle in seconds.''
       [10, 50, 100, 250, 500, 1000, 2500, 5000, 10000, 30000],
     gauge ''reconcile_in_progress'' ''1 while a reconcile cycle is running, 0 otherwise.'' [],
     gauge ''desired_ips''
       ''Number of unique IPs the agent currently wants routes for (FIPs, SNATs, port-forward VIPs).'' [],
     gauge ''local_routers''
       ''Number of OVN logical routers whose chassisredirect port is currently active on this chassis.'' [],
     gauge ''effective_networks''
       ''Number of effective network filters (manual config or auto-discovered).'' [],
     counter ''route_readds_total''
       ''Total routes re-added by post-change verification, labelled by route plane.'' ''plane'',
     gauge ''consecutive_readds''
       ''Number of consecutive reconcile cycles that required route re-adds. Sustained non-zero indicates persistent route instability.'' [],
     gauge ''inactive_routes''
       (''Number of desired FIP/VIP routes that exist as FRR static routes but are not selected/installed ''
        @ [CHR 0xE2, CHR 0x80, CHR 0x94]
        @ '' i.e. not advertised via BGP. Non-zero means those FIPs are unreachable from outside.'') [],
     gauge ''ovn_connection_state''
       ''1 when the named OVN database client is connected, 0 otherwise.'' [''database''],
     histogram ''drain_duration_seconds'' ''Duration of a gateway drain operation in seconds.''
       [500, 1000, 2500, 5000, 10000, 30000, 60000, 120000, 300000],
     counter ''drain_total''
       ''Total drain operations, labelled by outcome (completed, timeout, error, noop).'' ''outcome'',
     counter ''stale_chassis_cleanup_total''
       ''Total stale chassis cleanup events, labelled by outcome (success, error).'' ''outcome'',
     gauge ''missing_chassis''
       ''Number of chassis currently tracked as missing from the SB Chassis table.'' []]"

definition initialSeries :: "mcall list" where
  "initialSeries =
    [MAdd ''reconcile_total'' [''event''] 0, MAdd ''reconcile_total'' [''periodic''] 0,
     MAdd ''reconcile_total'' [''startup''] 0, MAdd ''route_readds_total'' [''kernel''] 0,
     MAdd ''route_readds_total'' [''frr''] 0, MAdd ''drain_total'' [''completed''] 0,
     MAdd ''drain_total'' [''timeout''] 0, MAdd ''drain_total'' [''error''] 0,
     MAdd ''drain_total'' [''noop''] 0, MAdd ''stale_chassis_cleanup_total'' [''success''] 0,
     MAdd ''stale_chassis_cleanup_total'' [''error''] 0, MSet ''ovn_connection_state'' [''nb''] 0,
     MSet ''ovn_connection_state'' [''sb''] 0]"

definition newMetricsRegistry :: metricsRegistry where
  "newMetricsRegistry = \<lparr>g_collectors = agentCollectors, g_calls = initialSeries\<rparr>"

type_synonym metrics = "metricsRegistry option"

definition initMetrics :: "metrics \<Rightarrow> metricsRegistry \<times> metrics" where
  "initMetrics m = (newMetricsRegistry, Some newMetricsRegistry)"

section \<open>Recording\<close>

definition calls :: "mcall list \<Rightarrow> metrics \<Rightarrow> metrics" where
  "calls cs m = (case m of None \<Rightarrow> None | Some g \<Rightarrow> Some (g\<lparr>g_calls := g_calls g @ cs\<rparr>))"

definition recordReconcile :: "string \<Rightarrow> int \<Rightarrow> metrics \<Rightarrow> metrics" where
  "recordReconcile trigger duration =
     calls [MAdd ''reconcile_total'' [trigger] 1, MObserve ''reconcile_duration_seconds'' duration]"

definition setReconcileInProgress :: "bool \<Rightarrow> metrics \<Rightarrow> metrics" where
  "setReconcileInProgress inProgress =
     calls [if inProgress then MSet ''reconcile_in_progress'' [] 1 else MSet ''reconcile_in_progress'' [] 0]"

definition setDesiredState :: "int \<Rightarrow> int \<Rightarrow> int \<Rightarrow> metrics \<Rightarrow> metrics" where
  "setDesiredState desired routers networks =
     calls [MSet ''desired_ips'' [] desired, MSet ''local_routers'' [] routers,
            MSet ''effective_networks'' [] networks]"

definition recordRouteReAdds :: "int \<Rightarrow> int \<Rightarrow> metrics \<Rightarrow> metrics" where
  "recordRouteReAdds frr krn =
     calls ((if frr > 0 then [MAdd ''route_readds_total'' [''frr''] frr] else [])
          @ (if krn > 0 then [MAdd ''route_readds_total'' [''kernel''] krn] else []))"

definition setConsecutiveReAdds :: "int \<Rightarrow> metrics \<Rightarrow> metrics" where
  "setConsecutiveReAdds n = calls [MSet ''consecutive_readds'' [] n]"

definition setInactiveRoutes :: "int \<Rightarrow> metrics \<Rightarrow> metrics" where
  "setInactiveRoutes n = calls [MSet ''inactive_routes'' [] n]"

definition setOVNConnectionState :: "string \<Rightarrow> bool \<Rightarrow> metrics \<Rightarrow> metrics" where
  "setOVNConnectionState database up =
     calls [MSet ''ovn_connection_state'' [database] (if up then 1 else 0)]"

definition recordDrain :: "string \<Rightarrow> int \<Rightarrow> metrics \<Rightarrow> metrics" where
  "recordDrain result duration =
     calls [MAdd ''drain_total'' [result] 1, MObserve ''drain_duration_seconds'' duration]"

definition recordStaleChassisCleanup :: "string \<Rightarrow> int \<Rightarrow> metrics \<Rightarrow> metrics" where
  "recordStaleChassisCleanup result n =
     calls [MAdd ''stale_chassis_cleanup_total'' [result] (if n \<le> 0 then 1 else n)]"

definition setMissingChassis :: "int \<Rightarrow> metrics \<Rightarrow> metrics" where
  "setMissingChassis n = calls [MSet ''missing_chassis'' [] n]"

section \<open>What the agent records\<close>

datatype mop = RecordReconcile string int | SetInProgress bool | SetDesired int int int
  | RecordReAdds int int | SetConsecutive int | SetInactive int | SetConnection string bool
  | RecordDrain string int | RecordCleanup string int | SetMissing int

fun record_op :: "mop \<Rightarrow> metrics \<Rightarrow> metrics" where
  "record_op (RecordReconcile t d) = recordReconcile t d"
| "record_op (SetInProgress b) = setReconcileInProgress b"
| "record_op (SetDesired i r n) = setDesiredState i r n"
| "record_op (RecordReAdds f k) = recordRouteReAdds f k"
| "record_op (SetConsecutive n) = setConsecutiveReAdds n"
| "record_op (SetInactive n) = setInactiveRoutes n"
| "record_op (SetConnection db b) = setOVNConnectionState db b"
| "record_op (RecordDrain r d) = recordDrain r d"
| "record_op (RecordCleanup r n) = recordStaleChassisCleanup r n"
| "record_op (SetMissing n) = setMissingChassis n"

text \<open>
  One cycle: what verification re-added (FRR, kernel, consecutive cycles) if it ran to its end, the
  inactive routes if they could be listed, and the chassis tracker if it ran: the missing ones,
  and for a clean-up its success, the stale ones and those still missing.
\<close>

datatype trigger = OnStartup | OnEvent | OnPeriodic

fun triggerName :: "trigger \<Rightarrow> string" where
  "triggerName OnStartup = ''startup''"
| "triggerName OnEvent = ''event''"
| "triggerName OnPeriodic = ''periodic''"

record cycle_obs =
  b_desired :: nat
  b_routers :: nat
  b_networks :: nat
  b_verify :: "(nat \<times> nat \<times> nat) option"
  b_inactive :: "nat option"
  b_tracker :: "(nat \<times> (bool \<times> nat \<times> nat) option) option"
  b_elapsed :: int

definition trackerOps :: "nat \<times> (bool \<times> nat \<times> nat) option \<Rightarrow> mop list" where
  "trackerOps t = SetMissing (int (fst t)) #
     (case snd t of None \<Rightarrow> []
      | Some (ok, stale, left) \<Rightarrow>
          if ok then [RecordCleanup ''success'' (int stale), SetMissing (int left)]
          else [RecordCleanup ''error'' (int stale)])"

definition cycleOps :: "trigger \<Rightarrow> cycle_obs \<Rightarrow> mop list" where
  "cycleOps t b =
     [SetInProgress True, SetDesired (int (b_desired b)) (int (b_routers b)) (int (b_networks b))]
     @ (case b_verify b of None \<Rightarrow> []
        | Some (frr, krn, consecutive) \<Rightarrow> [RecordReAdds (int frr) (int krn), SetConsecutive (int consecutive)])
     @ (case b_inactive b of None \<Rightarrow> [] | Some n \<Rightarrow> [SetInactive (int n)])
     @ (case b_tracker b of None \<Rightarrow> [] | Some t' \<Rightarrow> trackerOps t')
     @ [SetInProgress False, RecordReconcile (triggerName t) (b_elapsed b)]"

text \<open>The outcome of a drain: its error, then whether its context expired.\<close>

definition drainOutcome :: "goerr option \<Rightarrow> bool \<Rightarrow> string" where
  "drainOutcome err expired =
     (if err \<noteq> None then ''error'' else if expired then ''timeout'' else ''completed'')"

text \<open>
  A process: connections coming and going in between, the cycles in their order, and at most one
  drain at the end.
\<close>

datatype activity = CycleDone trigger cycle_obs | ConnectionChange bool bool | DrainDone "goerr option" bool int

fun activityOps :: "activity \<Rightarrow> mop list" where
  "activityOps (CycleDone t b) = cycleOps t b"
| "activityOps (ConnectionChange nb up) = [SetConnection (if nb then ''nb'' else ''sb'') up]"
| "activityOps (DrainDone err expired elapsed) = [RecordDrain (drainOutcome err expired) elapsed]"

definition recorded :: "activity list \<Rightarrow> metrics \<Rightarrow> metrics" where
  "recorded as m = fold record_op (concat (map activityOps as)) m"

section \<open>Values and well-formed calls\<close>

fun addedTo :: "string \<Rightarrow> string list \<Rightarrow> mcall \<Rightarrow> int" where
  "addedTo n ls (MAdd m ks v) = (if m = n \<and> ks = ls then v else 0)"
| "addedTo n ls _ = 0"

definition counterValue :: "string \<Rightarrow> string list \<Rightarrow> mcall list \<Rightarrow> int" where
  "counterValue n ls cs = sum_list (map (addedTo n ls) cs)"

fun setTo :: "string \<Rightarrow> string list \<Rightarrow> mcall \<Rightarrow> int option \<Rightarrow> int option" where
  "setTo n ls (MSet m ks v) old = (if m = n \<and> ks = ls then Some v else old)"
| "setTo n ls _ old = old"

definition gaugeValue :: "string \<Rightarrow> string list \<Rightarrow> mcall list \<Rightarrow> int option" where
  "gaugeValue n ls cs = fold (setTo n ls) cs None"

definition series :: "mcall list \<Rightarrow> (string \<times> string list) set" where
  "series cs = {(n, ls). ls \<noteq> [] \<and> (\<exists>v. MAdd n ls v \<in> set cs \<or> MSet n ls v \<in> set cs)}"

text \<open>
  When the client does not panic: names are registered once, a call goes to a collector of its kind
  with one value for each label, and a counter never decreases.
\<close>

fun call_ok :: "mdesc list \<Rightarrow> mcall \<Rightarrow> bool" where
  "call_ok ds (MAdd n ls v) \<longleftrightarrow>
     list_ex (\<lambda>d. d_name d = n \<and> d_kind d = Counter \<and> length (d_labels d) = length ls) ds \<and> 0 \<le> v"
| "call_ok ds (MSet n ls v) \<longleftrightarrow>
     list_ex (\<lambda>d. d_name d = n \<and> d_kind d = Gauge \<and> length (d_labels d) = length ls) ds"
| "call_ok ds (MObserve n v) \<longleftrightarrow> list_ex (\<lambda>d. d_name d = n \<and> d_kind d = Histogram) ds"

definition registry_ok :: "metricsRegistry \<Rightarrow> bool" where
  "registry_ok g \<longleftrightarrow> distinct (map d_name (g_collectors g)) \<and> list_all (call_ok (g_collectors g)) (g_calls g)"

definition metrics_ok :: "metrics \<Rightarrow> bool" where
  "metrics_ok m \<longleftrightarrow> (case m of None \<Rightarrow> True | Some g \<Rightarrow> g_collectors g = agentCollectors \<and> registry_ok g)"

text \<open>What a helper adds to the calls.\<close>

fun opCalls :: "mop \<Rightarrow> mcall list" where
  "opCalls (RecordReconcile t d) = [MAdd ''reconcile_total'' [t] 1, MObserve ''reconcile_duration_seconds'' d]"
| "opCalls (SetInProgress b) = [MSet ''reconcile_in_progress'' [] (if b then 1 else 0)]"
| "opCalls (SetDesired i r n) = [MSet ''desired_ips'' [] i, MSet ''local_routers'' [] r, MSet ''effective_networks'' [] n]"
| "opCalls (RecordReAdds f k) = (if f > 0 then [MAdd ''route_readds_total'' [''frr''] f] else [])
      @ (if k > 0 then [MAdd ''route_readds_total'' [''kernel''] k] else [])"
| "opCalls (SetConsecutive n) = [MSet ''consecutive_readds'' [] n]"
| "opCalls (SetInactive n) = [MSet ''inactive_routes'' [] n]"
| "opCalls (SetConnection db b) = [MSet ''ovn_connection_state'' [db] (if b then 1 else 0)]"
| "opCalls (RecordDrain r d) = [MAdd ''drain_total'' [r] 1, MObserve ''drain_duration_seconds'' d]"
| "opCalls (RecordCleanup r n) = [MAdd ''stale_chassis_cleanup_total'' [r] (if n \<le> 0 then 1 else n)]"
| "opCalls (SetMissing n) = [MSet ''missing_chassis'' [] n]"

lemmas recorders = recordReconcile_def setReconcileInProgress_def setDesiredState_def recordRouteReAdds_def
  setConsecutiveReAdds_def setInactiveRoutes_def setOVNConnectionState_def recordDrain_def
  recordStaleChassisCleanup_def setMissingChassis_def

lemma record_op_calls: "record_op x m = calls (opCalls x) m"
  by (cases x) (simp_all add: recorders)

lemma calls_calls: "calls cs (calls ds m) = calls (ds @ cs) m"
  by (simp add: calls_def split: option.split)

lemma fold_record: "fold record_op xs m = calls (concat (map opCalls xs)) m"
proof (induction xs arbitrary: m)
  case Nil
  then show ?case by (simp add: calls_def split: option.split)
qed (simp add: record_op_calls calls_calls)

definition activityCalls :: "activity list \<Rightarrow> mcall list" where
  "activityCalls as = concat (map opCalls (concat (map activityOps as)))"

lemma recorded_calls: "recorded as m = calls (activityCalls as) m"
  by (simp add: recorded_def activityCalls_def fold_record)

lemma call_names: "distinct (map d_name agentCollectors)"
  by (simp add: agentCollectors_def)

lemma opCalls_ok: "list_all (call_ok agentCollectors) (opCalls x)"
  by (cases x) (simp_all add: agentCollectors_def)

lemma initial_ok: "list_all (call_ok agentCollectors) initialSeries"
  by (simp add: initialSeries_def agentCollectors_def)

text \<open>
  No recording helper can bring the agent down: whatever the arguments, negative counts and
  unknown labels included, and whether or not metrics were initialised, every call of every sequence
  of helpers goes to a registered collector of the right kind with the right number of label values
  and never decreases a counter.
\<close>

theorem metrics_never_panic:
  "metrics_ok (fold record_op xs None) \<and> metrics_ok (fold record_op xs (snd (initMetrics None)))"
proof -
  have "list_all (call_ok agentCollectors) (concat (map opCalls xs))"
    using opCalls_ok by (induction xs) auto
  then show ?thesis
    by (simp add: fold_record calls_def metrics_ok_def registry_ok_def initMetrics_def newMetricsRegistry_def
        call_names initial_ok)
qed

section \<open>What is exposed\<close>

lemma counter_append: "counterValue n ls (cs @ ds) = counterValue n ls cs + counterValue n ls ds"
  by (simp add: counterValue_def)

lemma counter_Nil [simp]: "counterValue n ls [] = 0"
  by (simp add: counterValue_def)

lemma series_append: "series (cs @ ds) = series cs \<union> series ds"
  by (auto simp: series_def)

fun triggersOf :: "activity list \<Rightarrow> trigger list" where
  "triggersOf [] = []"
| "triggersOf (CycleDone t b # as) = t # triggersOf as"
| "triggersOf (_ # as) = triggersOf as"

lemma trigger_names: "triggerName t = triggerName u \<longleftrightarrow> t = u"
  by (cases t; cases u) simp_all

lemma activity_append: "activityCalls (a # as) = concat (map opCalls (activityOps a)) @ activityCalls as"
  by (simp add: activityCalls_def)

lemma cycle_total:
  "counterValue ''reconcile_total'' [n] (concat (map opCalls (cycleOps t b))) = (if n = triggerName t then 1 else 0)"
  by (auto simp: cycleOps_def trackerOps_def counterValue_def split: option.split)

lemma cycle_gauge:
  "gaugeValue ''reconcile_in_progress'' [] (cs @ concat (map opCalls (cycleOps t b))) = Some 0"
  by (simp add: cycleOps_def gaugeValue_def)

lemma counter_Cons: "counterValue n ls (c # cs) = addedTo n ls c + counterValue n ls cs"
  by (simp add: counterValue_def)

lemma total_recorded:
  "counterValue ''reconcile_total'' [triggerName t] (activityCalls as) = int (count_list (triggersOf as) t)"
proof (induction as rule: triggersOf.induct)
  case 1
  then show ?case by (simp add: activityCalls_def)
qed (auto simp: activity_append counter_append cycle_total counter_Cons trigger_names)

lemma noop_recorded: "counterValue ''drain_total'' [''noop''] (activityCalls as) = 0"
proof (induction as)
  case (Cons a as)
  have "counterValue ''drain_total'' [''noop''] (concat (map opCalls (activityOps a))) = 0"
    by (cases a) (auto simp: counterValue_def drainOutcome_def cycleOps_def trackerOps_def split: option.split)
  with Cons show ?case by (simp add: activity_append counter_append)
qed (simp add: activityCalls_def)

lemma series_Nil [simp]: "series [] = {}"
  by (simp add: series_def)

lemma series_Cons: "series (c # cs) = (case c of MAdd n ls v \<Rightarrow> if ls = [] then {} else {(n, ls)}
    | MSet n ls v \<Rightarrow> if ls = [] then {} else {(n, ls)} | MObserve n v \<Rightarrow> {}) \<union> series cs"
  by (cases c) (auto simp: series_def)

lemma series_recorded: "series (activityCalls as) \<subseteq> series initialSeries"
proof (induction as)
  case (Cons a as)
  have "series (concat (map opCalls (activityOps a))) \<subseteq> series initialSeries"
  proof (cases a)
    case (CycleDone t b)
    then show ?thesis
      by (cases t)
        (auto simp: cycleOps_def trackerOps_def series_append series_Cons initialSeries_def split: option.splits if_splits)
  qed (auto simp: series_Cons initialSeries_def drainOutcome_def)
  with Cons show ?case by (simp add: activity_append series_append)
qed (simp add: activityCalls_def)

lemma in_progress_recorded:
  "gaugeValue ''reconcile_in_progress'' [] (cs @ activityCalls as) \<in> {gaugeValue ''reconcile_in_progress'' [] cs, Some 0}"
proof (induction as arbitrary: cs)
  case (Cons a as)
  let ?cs = "cs @ concat (map opCalls (activityOps a))"
  have "gaugeValue ''reconcile_in_progress'' [] ?cs \<in> {gaugeValue ''reconcile_in_progress'' [] cs, Some 0}"
    using cycle_gauge by (cases a) (auto simp: gaugeValue_def)
  with Cons [of ?cs] show ?case by (auto simp: activity_append)
qed (simp add: activityCalls_def)

text \<open>The calls a process has made, from the initialisation on.\<close>

definition exposed :: "activity list \<Rightarrow> mcall list" where
  "exposed as = g_calls (the (recorded as (snd (initMetrics None))))"

text \<open>
  C38. What a process exposes, whatever happens to it: its labelled series are those of the
  first scrape and no others; the reconcile counter of each trigger is the number of its cycles;
  between cycles the in-progress gauge is unset or 0; and the drain outcome \<open>noop\<close>, although it is
  exposed and documented, stays 0.
\<close>

theorem metrics_account:
  "series (exposed as) = series initialSeries
    \<and> counterValue ''reconcile_total'' [triggerName t] (exposed as) = int (count_list (triggersOf as) t)
    \<and> gaugeValue ''reconcile_in_progress'' [] (exposed as) \<in> {None, Some 0}
    \<and> counterValue ''drain_total'' [''noop''] (exposed as) = 0"
proof -
  have e: "exposed as = initialSeries @ activityCalls as"
    by (simp add: exposed_def recorded_calls calls_def initMetrics_def newMetricsRegistry_def)
  have z: "counterValue ''reconcile_total'' [triggerName t] initialSeries = 0"
    "counterValue ''drain_total'' [''noop''] initialSeries = 0" "gaugeValue ''reconcile_in_progress'' [] initialSeries = None"
    by (cases t; simp add: initialSeries_def counterValue_def gaugeValue_def)
      (simp_all add: initialSeries_def counterValue_def gaugeValue_def)
  have "series (exposed as) = series initialSeries"
    using series_recorded [of as] unfolding e series_append by blast
  moreover have "gaugeValue ''reconcile_in_progress'' [] (exposed as) \<in> {None, Some 0}"
    using in_progress_recorded [of initialSeries as] unfolding e z .
  ultimately show ?thesis
    unfolding e counter_append total_recorded noop_recorded z by simp
qed

end
