(* ===== verification/DocGen.thy ===== *)
theory DocGen
  imports DocParse Flags Metrics
begin

text \<open>
  What the documentation generator guarantees: struct tags and string literals are read back as they
  were written, the flags found are the flags declared, and the published metrics are the
  registered ones.
\<close>

section \<open>Literals and tags\<close>

definition quoteChar :: "char \<Rightarrow> string" where
  "quoteChar c = (if c = quote then [backslash, quote] else if c = backslash then [backslash, backslash]
     else if c = newline then [backslash, CHR ''n''] else [c])"

definition quoted :: "string \<Rightarrow> string" where
  "quoted s = quote # concat (map quoteChar s) @ [quote]"

abbreviation strNode :: "string \<Rightarrow> node" where
  "strNode s \<equiv> BasicLit True (quoted s)"

lemma unquoteBody_char: "unquoteBody (quoteChar c @ t) = map_option (\<lambda>r. c # r) (unquoteBody t)"
  by (cases "unquoteBody t"; cases "c = quote"; cases "c = backslash"; cases "c = newline")
    (simp_all add: quoteChar_def quote_def backslash_def newline_def escape_def simpleEscape_def)

lemma unquoteBody_quote: "unquoteBody (concat (map quoteChar s)) = Some s"
  by (induction s) (simp_all add: unquoteBody_char)

lemma Unquote_quoted: "Unquote (quoted s) = Some s"
  by (simp add: Unquote_def quoted_def unquoteBody_quote)

lemma stringLit_str [simp]: "stringLit (strNode s) = Some s"
  by (simp add: stringLit_def Unquote_quoted)

text \<open>A conventional tag: pairs of keys and quoted values, in a raw literal.\<close>

definition showTag :: "(string \<times> string) list \<Rightarrow> string" where
  "showTag kvs = concat (map (\<lambda>(k, v). k @ '':'' @ quoted v @ '' '') kvs)"

lemma scanValue_quote: "scanValue (concat (map quoteChar v) @ quote # r) = Some (concat (map quoteChar v), r)"
proof (induction v)
  case (Cons c v)
  then show ?case
    by (cases "c = quote"; cases "c = backslash"; cases "c = newline")
      (simp_all add: quoteChar_def quote_def backslash_def newline_def)
qed simp

definition tag_key :: "string \<Rightarrow> bool" where
  "tag_key k \<longleftrightarrow> k \<noteq> [] \<and> list_all tagKeyChar k"

lemma tagLoop_pair:
  assumes "tag_key k"
  shows "tagLoop key (k @ '':'' @ quoted v @ '' '' @ rest) =
    (if k = key then takeWhile (\<lambda>c. c \<noteq> CHR '','') v else tagLoop key (CHR '' '' # rest))"
proof -
  have d: "dropWhile (\<lambda>c. c = CHR '' '') (k @ t) = k @ t" for t
    using assms by (cases k) (auto simp: tag_key_def tagKeyChar_def)
  have w: "takeWhile tagKeyChar (k @ CHR '':'' # t) = k" "dropWhile tagKeyChar (k @ CHR '':'' # t) = CHR '':'' # t" for t
    using assms by (auto simp: tag_key_def list_all_iff tagKeyChar_def takeWhile_append2 dropWhile_append2)
  have u: "Unquote (quote # concat (map quoteChar v) @ [quote]) = Some v"
    using Unquote_quoted [of v] by (simp add: quoted_def)
  have e: "k @ '':'' @ quoted v @ '' '' @ rest = k @ CHR '':'' # quote # concat (map quoteChar v) @ quote # CHR '' '' # rest"
    by (simp add: quoted_def)
  have ne: "k \<noteq> []" using assms by (simp add: tag_key_def)
  show ?thesis
    unfolding e by (subst tagLoop.simps) (simp add: Let_def d w scanValue_quote u ne)
qed

lemma tagLoop_space: "tagLoop key (CHR '' '' # s) = tagLoop key s"
  by (subst (1 2) tagLoop.simps) simp

lemma tagLoop_show: "list_all (\<lambda>(k, v). tag_key k) kvs \<Longrightarrow>
   tagLoop key (showTag kvs) = (case map_of kvs key of Some v \<Rightarrow> takeWhile (\<lambda>c. c \<noteq> CHR '','') v | None \<Rightarrow> [])"
proof (induction kvs)
  case Nil
  then show ?case by (subst tagLoop.simps) (simp add: showTag_def Let_def)
next
  case (Cons kv kvs)
  obtain k v where kv: "kv = (k, v)" by fastforce
  have "showTag (kv # kvs) = k @ '':'' @ quoted v @ '' '' @ showTag kvs" by (simp add: showTag_def kv)
  then show ?case using Cons tagLoop_pair [of k key v "showTag kvs"] by (simp add: kv tagLoop_space)
qed

text \<open>
  Struct tags round trip: from a raw literal that lists keys with quoted values, the value read
  for a key is the one written first for it, up to its first comma, whatever characters the
  values hold (quotes, backslashes and newlines are escaped), and the empty string for any other key.
\<close>

theorem structTag_roundtrip:
  assumes "list_all (\<lambda>(k, v). tag_key k) kvs" "backquote \<notin> set (showTag kvs)" "CHR 0x0D \<notin> set (showTag kvs)"
  shows "structTagValue (backquote # showTag kvs @ [backquote]) key =
    (case map_of kvs key of Some v \<Rightarrow> takeWhile (\<lambda>c. c \<noteq> CHR '','') v | None \<Rightarrow> [])"
proof -
  have "filter (\<lambda>c. c \<noteq> CHR 0x0D) (showTag kvs) = showTag kvs"
    using assms(3) by (induction "showTag kvs") (auto simp: filter_id_conv)
  then have "Unquote (backquote # showTag kvs @ [backquote]) = Some (showTag kvs)"
    using assms(2) by (simp add: Unquote_def Let_def quote_def backquote_def)
  then show ?thesis using tagLoop_show [OF assms(1)] by (simp add: structTagValue_def)
qed

theorem structTag_roundtrip_witness:
  "structTagValue (backquote # showTag [(''json'', ''vip''), (''yaml'', ''vip_address,omitempty'')] @ [backquote]) ''yaml''
     = ''vip_address''"
  by (subst structTag_roundtrip)
    (simp_all add: tag_key_def tagKeyChar_def quote_def showTag_def quoted_def quoteChar_def backquote_def backslash_def newline_def)

section \<open>Metrics\<close>

definition collectorName :: "mdesc \<Rightarrow> string" where
  "collectorName d = (case d_kind d of Counter \<Rightarrow> ''NewCounter'' | Gauge \<Rightarrow> ''NewGauge'' | Histogram \<Rightarrow> ''NewHistogram'')
     @ (if d_labels d \<noteq> [] then ''Vec'' else [])"

definition collectorNode :: "mdesc \<Rightarrow> node" where
  "collectorNode d = CallExpr (SelectorExpr (Ident ''prometheus'') (collectorName d))
     (CompositeLit (Some (SelectorExpr (Ident ''prometheus'') ''Opts''))
        ([KeyValueExpr (Ident ''Namespace'') (Ident ''metricsNamespace''),
          KeyValueExpr (Ident ''Name'') (strNode (d_name d)), KeyValueExpr (Ident ''Help'') (strNode (d_help d))]
         @ (if d_buckets d = [] then []
            else [KeyValueExpr (Ident ''Buckets'') (CompositeLit (Some (ArrayType None (Ident ''float64'')))
                    (map (\<lambda>b. BasicLit False (show_nat b)) (d_buckets d)))]))
      # (if d_labels d = [] then []
         else [CompositeLit (Some (ArrayType None (Ident ''string''))) (map strNode (d_labels d))]))"

text \<open>The statement that initialises a series.\<close>

fun seriesNode :: "(string \<Rightarrow> string) \<Rightarrow> mcall \<Rightarrow> node" where
  "seriesNode field (MAdd n ls v) = ExprStmt (CallExpr (SelectorExpr (CallExpr (SelectorExpr
     (SelectorExpr (Ident ''m'') (field n)) ''WithLabelValues'') (map strNode ls)) ''Add'') [BasicLit False ''0''])"
| "seriesNode field (MSet n ls v) = ExprStmt (CallExpr (SelectorExpr (CallExpr (SelectorExpr
     (SelectorExpr (Ident ''m'') (field n)) ''WithLabelValues'') (map strNode ls)) ''Set'') [BasicLit False ''0''])"
| "seriesNode field (MObserve n v) = OtherNode []"

text \<open>A source of the shape of \<open>metrics.go\<close>: the namespace, the registry and its bootstrap.\<close>

definition metricsDecls :: "(string \<Rightarrow> string) \<Rightarrow> metricsRegistry \<Rightarrow> node list" where
  "metricsDecls field g =
    [GenDecl ConstTok [ValueSpec [''metricsNamespace''] None [strNode metricsNamespace]],
     FuncDecl False ''newMetricsRegistry'' (OtherNode []) (Some
       ([AssignStmt [Ident ''reg''] DefineTok [CallExpr (SelectorExpr (Ident ''prometheus'') ''NewRegistry'') []],
         AssignStmt [Ident ''m''] DefineTok [UnaryExpr ''&'' (CompositeLit (Some (Ident ''metricsRegistry''))
           (KeyValueExpr (Ident ''registry'') (Ident ''reg'')
            # map (\<lambda>d. KeyValueExpr (Ident (field (d_name d))) (collectorNode d)) (g_collectors g)))],
         ExprStmt (CallExpr (SelectorExpr (Ident ''reg'') ''MustRegister'')
           (map (\<lambda>d. SelectorExpr (Ident ''m'') (field (d_name d))) (g_collectors g)))]
        @ map (seriesNode field) (g_calls g)
        @ [OtherNode [Ident ''m'']]))]"

text \<open>The fields of the registry struct.\<close>

definition registryFields :: "(string \<times> string) list" where
  "registryFields =
    [(''reconcile_total'', ''reconcileTotal''), (''reconcile_duration_seconds'', ''reconcileDuration''),
     (''reconcile_in_progress'', ''reconcileInProgress''), (''desired_ips'', ''desiredIPs''),
     (''local_routers'', ''localRouters''), (''effective_networks'', ''effectiveNetworks''),
     (''route_readds_total'', ''routeReAddsTotal''), (''consecutive_readds'', ''consecutiveReAdds''),
     (''inactive_routes'', ''inactiveRoutes''), (''ovn_connection_state'', ''ovnConnectionState''),
     (''drain_duration_seconds'', ''drainDuration''), (''drain_total'', ''drainTotal''),
     (''stale_chassis_cleanup_total'', ''staleChassisCleanupTotal''), (''missing_chassis'', ''missingChassis'')]"

definition metricsFile :: "node list" where
  "metricsFile = metricsDecls (lookupStr registryFields) newMetricsRegistry"

fun kindText :: "mkind \<Rightarrow> string" where
  "kindText Counter = ''counter''"
| "kindText Gauge = ''gauge''"
| "kindText Histogram = ''histogram''"

text \<open>The series of the published table: each metric with each value of its labels.\<close>

definition publishedSeries :: "metricInfo list \<Rightarrow> (string \<times> string list) list" where
  "publishedSeries ms = concat (map (\<lambda>m. concat (map (\<lambda>l.
     map (\<lambda>v. (mi_Name m, [v])) (case map_of (mi_LabelValues m) l of Some vs \<Rightarrow> vs | None \<Rightarrow> []))
     (mi_Labels m))) ms)"

text \<open>What the generator makes of one collector.\<close>

definition metricOf :: "string \<Rightarrow> mdesc \<Rightarrow> metricInfo" where
  "metricOf field d = \<lparr>mi_Name = d_name d, mi_FullName = metricsNamespace @ ''_'' @ d_name d,
     mi_Kind = kindText (d_kind d), mi_IsVec = (d_labels d \<noteq> []), mi_Labels = d_labels d, mi_Help = d_help d,
     mi_StructField = field, mi_LabelValues = []\<rparr>"

lemma strSlice: "List.map_filter stringLit (map strNode ls) = ls"
  by (induction ls) (simp_all add: List.map_filter_simps)

lemma collector_class: "classifyConstructor (collectorName d) = (kindText (d_kind d), d_labels d \<noteq> [])"
  by (cases "d_kind d"; cases "d_labels d = []") (simp_all add: collectorName_def classifyConstructor_def)

lemma namespace_nonempty: "metricsNamespace \<noteq> []"
  by (simp add: metricsNamespace_def)

lemma collector_metric: "d_name d \<noteq> [] \<Longrightarrow>
   registryMetric metricsNamespace (KeyValueExpr (Ident f) (collectorNode d)) = Some (metricOf f d)"
  using collector_class [of d]
  by (cases "d_kind d"; cases "d_labels d = []"; cases "d_buckets d = []")
    (simp_all add: registryMetric_def collectorNode_def metricFromCall_def optionValue_def stringSliceLit_def strSlice
      metricOf_def namespace_nonempty Let_def)

lemma collector_metrics: "list_all (\<lambda>d. d_name d \<noteq> []) ds \<Longrightarrow>
   List.map_filter (registryMetric metricsNamespace) (map (\<lambda>d. KeyValueExpr (Ident (field (d_name d))) (collectorNode d)) ds)
     = map (\<lambda>d. metricOf (field (d_name d)) d) ds"
  by (induction ds) (simp_all add: List.map_filter_simps collector_metric)

lemma namespace_found: "parseNamespace (metricsDecls field g) [] = metricsNamespace"
  by (simp add: parseNamespace_def metricsDecls_def namespaceValue_def)

definition registryBody :: "(string \<Rightarrow> string) \<Rightarrow> metricsRegistry \<Rightarrow> node list" where
  "registryBody field g = the (funcBody (metricsDecls field g) ''newMetricsRegistry'')"

lemma registryBody_found: "funcBody (metricsDecls field g) ''newMetricsRegistry'' = Some (registryBody field g)"
  by (simp add: registryBody_def metricsDecls_def funcBody_def findFunc_def)

text \<open>The traversal of the body meets the calls on the labelled series, and only them.\<close>

fun seriesCall :: "(string \<Rightarrow> string) \<Rightarrow> mcall \<Rightarrow> (string \<times> node list) option" where
  "seriesCall field (MAdd n ls v) = Some (field n, map strNode ls)"
| "seriesCall field (MSet n ls v) = Some (field n, map strNode ls)"
| "seriesCall field (MObserve n v) = None"

lemma map_filter_append: "List.map_filter f (xs @ ys) = List.map_filter f xs @ List.map_filter f ys"
  by (simp add: List.map_filter_def)

lemma map_filter_concat: "List.map_filter f (concat xss) = concat (map (List.map_filter f) xss)"
  by (induction xss) (simp_all add: map_filter_append List.map_filter_simps)

lemmas labelCall_simps = labelCall_def List.map_filter_simps map_filter_append optNode_def optBody_def

lemma preorder_leaf [simp]: "preorder (Ident x) = [Ident x]" "preorder (BasicLit b v) = [BasicLit b v]"
  by (simp_all add: preorder.simps)

lemma no_labelCalls: "List.map_filter labelCall (concat (map (preorder \<circ> strNode) ls)) = []"
  "List.map_filter labelCall (concat (map (preorder \<circ> (\<lambda>b. BasicLit False (show_nat b))) bs)) = []"
  by (induction ls; simp add: labelCall_simps) (induction bs; simp add: labelCall_simps)

lemma series_labelCall:
  "List.map_filter labelCall (preorder (seriesNode field c)) = (case seriesCall field c of Some l \<Rightarrow> [l] | None \<Rightarrow> [])"
  by (cases c) (simp_all add: preorder.simps labelCall_simps no_labelCalls)

lemma collector_labelCall:
  "List.map_filter labelCall (preorder (KeyValueExpr (Ident f) (collectorNode d))) = []"
  by (cases "d_labels d = []"; cases "d_buckets d = []")
    (simp_all add: preorder.simps collectorNode_def labelCall_simps no_labelCalls)

lemma field_labelCall: "List.map_filter labelCall (preorder (SelectorExpr (Ident r) f)) = []"
  by (simp add: preorder.simps labelCall_simps)

lemma concat_none: "(\<And>x. f x = []) \<Longrightarrow> concat (map f xs) = []"
  by simp

lemma body_labelCalls:
  "List.map_filter labelCall (visited (registryBody field g)) = List.map_filter (seriesCall field) (g_calls g)"
proof -
  have c: "concat (map (\<lambda>d. List.map_filter labelCall (preorder (KeyValueExpr (Ident (field (d_name d))) (collectorNode d)))) ds) = []"
    "concat (map (\<lambda>d. List.map_filter labelCall (preorder (SelectorExpr (Ident ''m'') (field (d_name d))))) ds) = []" for ds
    by (simp_all add: collector_labelCall field_labelCall)
  have s: "concat (map (\<lambda>c. List.map_filter labelCall (preorder (seriesNode field c))) cs) = List.map_filter (seriesCall field) cs" for cs
    by (induction cs) (simp_all add: series_labelCall List.map_filter_simps split: option.split)
  have p: "List.map_filter labelCall (visited (xs @ ys)) = List.map_filter labelCall (visited xs) @ List.map_filter labelCall (visited ys)"
    "visited [] = []" "visited (x # xs) = preorder x @ visited xs" for x xs ys
    by (simp_all add: visited_def map_filter_append)
  have q: "List.map_filter labelCall (preorder n) =
      (case labelCall n of Some l \<Rightarrow> [l] | None \<Rightarrow> []) @ concat (map (\<lambda>x. List.map_filter labelCall (preorder x)) (children n))" for n
    by (subst preorder.simps) (simp add: List.map_filter_simps map_filter_concat comp_def split: option.split)
  have m: "List.map_filter labelCall (visited (map (seriesNode field) cs)) = List.map_filter (seriesCall field) cs" for cs
    by (simp add: visited_def map_filter_concat comp_def s)
  let ?lit = "CompositeLit (Some (Ident ''metricsRegistry'')) (KeyValueExpr (Ident ''registry'') (Ident ''reg'')
      # map (\<lambda>d. KeyValueExpr (Ident (field (d_name d))) (collectorNode d)) (g_collectors g))"
  have l: "List.map_filter labelCall (preorder ?lit) = []"
    by (subst q) (simp add: labelCall_simps comp_def c preorder.simps [of "KeyValueExpr (Ident ''registry'') (Ident ''reg'')"])
  have a: "List.map_filter labelCall (preorder (AssignStmt [Ident ''m''] DefineTok [UnaryExpr ''&'' ?lit])) = []"
    by (subst q) (simp add: labelCall_simps q [of "UnaryExpr ''&'' ?lit"] l)
  have b: "List.map_filter labelCall (preorder (AssignStmt [Ident ''reg''] DefineTok
      [CallExpr (SelectorExpr (Ident ''prometheus'') ''NewRegistry'') []])) = []"
    by (simp add: preorder.simps labelCall_simps)
  have r: "List.map_filter labelCall (preorder (ExprStmt (CallExpr (SelectorExpr (Ident ''reg'') ''MustRegister'')
      (map (\<lambda>d. SelectorExpr (Ident ''m'') (field (d_name d))) (g_collectors g))))) = []"
    by (simp add: q [of "ExprStmt _"] q [of "CallExpr _ _"] field_labelCall comp_def c labelCall_simps)
  have o: "List.map_filter labelCall (preorder (OtherNode [Ident ''m''])) = []"
    by (simp add: preorder.simps labelCall_simps)
  show ?thesis
    by (simp add: registryBody_def metricsDecls_def funcBody_def findFunc_def p m a b r o map_filter_append)
qed

lemma firstSome_append: "firstSome p (xs @ ys) = (case firstSome p xs of Some y \<Rightarrow> Some y | None \<Rightarrow> firstSome p ys)"
  by (induction xs) (simp_all split: option.split)

lemma body_literal: "firstSome registryLit (visited (registryBody field g)) =
   Some (KeyValueExpr (Ident ''registry'') (Ident ''reg'')
     # map (\<lambda>d. KeyValueExpr (Ident (field (d_name d))) (collectorNode d)) (g_collectors g))"
proof -
  have s: "firstSome registryLit (preorder (AssignStmt [Ident x] t [UnaryExpr p (CompositeLit (Some (Ident ''metricsRegistry'')) es)]) @ ys)
    = Some es" for x t p es ys
    by (simp add: preorder.simps [of "AssignStmt _ _ _"] preorder.simps [of "UnaryExpr _ _"] preorder.simps [of "CompositeLit _ _"]
        registryLit_def)
  have r: "firstSome registryLit (preorder (AssignStmt [Ident ''reg''] DefineTok
      [CallExpr (SelectorExpr (Ident ''prometheus'') ''NewRegistry'') []]) @ ys) = firstSome registryLit ys" for ys
    by (simp add: preorder.simps registryLit_def)
  show ?thesis
    by (simp add: registryBody_def metricsDecls_def funcBody_def findFunc_def visited_def s r)
qed

text \<open>The label values are gathered call by call.\<close>

definition addValues :: "string \<times> node list \<Rightarrow> metricInfo list \<Rightarrow> metricInfo list" where
  "addValues la = updateLast (\<lambda>mi. mi_StructField mi = fst la) (addLabelValues (snd la))"

lemma collect_calls: "collectLabelValues body ms = fold addValues (List.map_filter labelCall (visited body)) ms"
proof -
  have "fold (\<lambda>n ms. case labelCall n of None \<Rightarrow> ms
      | Some (field, args) \<Rightarrow> updateLast (\<lambda>mi. mi_StructField mi = field) (addLabelValues args) ms) ns ms
    = fold addValues (List.map_filter labelCall ns) ms" for ns
    by (induction ns arbitrary: ms) (auto simp: List.map_filter_simps addValues_def split: option.split)
  then show ?thesis by (simp add: collectLabelValues_def)
qed

lemma parse_registry:
  assumes "list_all (\<lambda>d. d_name d \<noteq> []) (g_collectors g)"
  shows "parseMetrics (metricsDecls field g) emptyInfo = Inr (emptyInfo\<lparr>in_Namespace := metricsNamespace,
    in_Metrics := fold addValues (List.map_filter (seriesCall field) (g_calls g))
      (map (\<lambda>d. metricOf (field (d_name d)) d) (g_collectors g))\<rparr>)"
proof -
  have r: "registryMetric ns (KeyValueExpr (Ident ''registry'') (Ident ''reg'')) = None" for ns
    by (simp add: registryMetric_def metricFromCall_def)
  show ?thesis
    by (simp add: parseMetrics_def registryBody_found body_literal collect_calls body_labelCalls r List.map_filter_simps
        collector_metrics assms namespace_found emptyInfo_def)
qed

abbreviation metricFacts :: "metricInfo \<Rightarrow> string \<times> string \<times> string list \<times> string" where
  "metricFacts m \<equiv> (mi_Name m, mi_Kind m, mi_Labels m, mi_Help m)"

lemma updateLast_keeps: "(\<And>m. g (h m) = g m) \<Longrightarrow> map g (updateLast p h ms) = map g ms"
  by (induction ms) simp_all

lemma addValues_keeps: "map metricFacts (fold addValues ls ms) = map metricFacts ms"
  by (induction ls arbitrary: ms) (simp_all add: addValues_def addLabelValues_def updateLast_keeps)

fun seriesKey :: "mcall \<Rightarrow> (string \<times> string list) option" where
  "seriesKey (MAdd n ls v) = (if ls = [] then None else Some (n, ls))"
| "seriesKey (MSet n ls v) = (if ls = [] then None else Some (n, ls))"
| "seriesKey (MObserve n v) = None"

lemma series_keys: "series cs = set (List.map_filter seriesKey cs)"
proof (induction cs)
  case (Cons c cs)
  then show ?case by (cases c) (simp_all add: series_Cons List.map_filter_simps)
qed (simp add: List.map_filter_simps)

lemma published_keys:
  "set (publishedSeries (fold addValues (List.map_filter (seriesCall (lookupStr registryFields)) initialSeries)
     (map (\<lambda>d. metricOf (lookupStr registryFields (d_name d)) d) agentCollectors))) =
     set (List.map_filter seriesKey initialSeries)"
  by code_simp


section \<open>Flags\<close>

text \<open>
  A flag as \<open>loadConfig\<close> declares it: the variable, the method of the flag set, the name, the
  default, the usage, and the body of its case in the visitor, if it has one.
\<close>

record flagSrc =
  x_var :: string
  x_method :: string
  x_name :: string
  x_default :: node
  x_usage :: string
  x_case :: "node list option"

definition flagSpec :: "flagSrc \<Rightarrow> node" where
  "flagSpec x = ValueSpec [x_var x] None
     [CallExpr (SelectorExpr (Ident ''fs'') (x_method x)) [strNode (x_name x), x_default x, strNode (x_usage x)]]"

definition flagCase :: "flagSrc \<Rightarrow> node list" where
  "flagCase x = (case x_case x of None \<Rightarrow> [] | Some body \<Rightarrow> [CaseClause [strNode (x_name x)] body])"

definition flagVisit :: "flagSrc list \<Rightarrow> node" where
  "flagVisit xs = ExprStmt (CallExpr (SelectorExpr (Ident ''fs'') ''Visit'') [FuncLit (OtherNode [])
     (Some [SwitchStmt None (Some (SelectorExpr (Ident ''f'') ''Name'')) (concat (map flagCase xs))])])"

text \<open>The statements around them, such as \<open>if\<close>, other assignments and plain calls.\<close>

definition neutral :: "node \<Rightarrow> bool" where
  "neutral st = (case st of DeclStmt d \<Rightarrow> False
     | AssignStmt ls t rs \<Rightarrow> ls \<noteq> [Ident ''cfg'']
     | ExprStmt x \<Rightarrow> (case x of CallExpr (SelectorExpr r sel) as \<Rightarrow> sel \<noteq> ''Visit'' | _ \<Rightarrow> True)
     | _ \<Rightarrow> True)"

definition loadConfigBody :: "flagSrc list \<Rightarrow> node \<Rightarrow> node list \<Rightarrow> node list \<Rightarrow> node list \<Rightarrow> node list \<Rightarrow> node list" where
  "loadConfigBody xs defaults s1 s2 s3 s4 =
     s1 @ [DeclStmt (GenDecl VarTok (map flagSpec xs))] @ s2 @ [defaults] @ s3 @ [flagVisit xs] @ s4"

text \<open>What the reference should say of it.\<close>

definition flagOf :: "flagSrc \<Rightarrow> flagInfo" where
  "flagOf x = \<lparr>fg_Name = x_name x, fg_Kind = (case flagKindName (x_method x) of Some k \<Rightarrow> k | None \<Rightarrow> []),
     fg_Default = (case getenvCallArg (x_default x) of Some env \<Rightarrow> [] | None \<Rightarrow> exprString (x_default x)),
     fg_Usage = x_usage x,
     fg_ConfigField = (case x_case x of Some body \<Rightarrow> extractConfigField body | None \<Rightarrow> []),
     fg_ImplicitEnv = (case getenvCallArg (x_default x) of Some env \<Rightarrow> env | None \<Rightarrow> [])\<rparr>"

definition flagsOf :: "flagSrc list \<Rightarrow> (string, flagInfo) gomap" where
  "flagsOf xs = map (\<lambda>x. (x_var x, (flagOf x)\<lparr>fg_ConfigField := []\<rparr>)) xs"

lemma update_fresh: "k \<notin> fst ` set m \<Longrightarrow> AList.update k v m = m @ [(k, v)]"
  by (induction m) auto

lemma flagSpec_step: "flagKindName (x_method x) \<noteq> None \<Longrightarrow> x_var x \<notin> fst ` set m \<Longrightarrow>
   specFlags (flagSpec x) m = m @ [(x_var x, (flagOf x)\<lparr>fg_ConfigField := []\<rparr>)]"
  by (auto simp: specFlags_def flagSpec_def declareFlag_def flagFromCall_def flagOf_def update_fresh)

lemma flagSpecs: "list_all (\<lambda>x. flagKindName (x_method x) \<noteq> None) xs \<Longrightarrow> distinct (map fst m @ map x_var xs) \<Longrightarrow>
   fold specFlags (map flagSpec xs) m = m @ flagsOf xs"
proof (induction xs arbitrary: m)
  case (Cons x xs)
  then have "x_var x \<notin> fst ` set m" by auto
  with Cons.prems have "specFlags (flagSpec x) m = m @ [(x_var x, (flagOf x)\<lparr>fg_ConfigField := []\<rparr>)]"
    by (simp add: flagSpec_step)
  then show ?case using Cons by (simp add: flagsOf_def)
qed (simp add: flagsOf_def)

text \<open>A case of the visitor acts on each flag by itself.\<close>

definition caseOn :: "flagSrc \<Rightarrow> flagInfo \<Rightarrow> flagInfo" where
  "caseOn x fi = (if x_case x \<noteq> None \<and> fg_ConfigField (flagOf x) \<noteq> [] \<and> fg_Name fi = x_name x
     then fi\<lparr>fg_ConfigField := fg_ConfigField (flagOf x)\<rparr> else fi)"

lemma flagCase_step: "fold caseMapping (flagCase x) m = map (\<lambda>(v, fi). (v, caseOn x fi)) m"
  by (auto simp: flagCase_def caseMapping_def setField_def caseOn_def flagOf_def Let_def split: option.split
      intro!: map_idI [symmetric])

lemma flagCases: "fold caseMapping (concat (map flagCase xs)) m = map (\<lambda>(v, fi). (v, fold caseOn xs fi)) m"
  by (induction xs arbitrary: m) (auto simp: flagCase_step)

lemma caseOn_name: "fg_Name (fold caseOn xs fi) = fg_Name fi"
  by (induction xs arbitrary: fi) (auto simp: caseOn_def)

lemma caseOn_other: "fg_Name fi \<notin> x_name ` set xs \<Longrightarrow> fold caseOn xs fi = fi"
  by (induction xs arbitrary: fi) (auto simp: caseOn_def)

lemma caseOn_own: "distinct (map x_name xs) \<Longrightarrow> x \<in> set xs \<Longrightarrow>
   fold caseOn xs ((flagOf x)\<lparr>fg_ConfigField := []\<rparr>) = flagOf x"
proof (induction xs)
  case (Cons y ys)
  show ?case
  proof (cases "x = y")
    case True
    have "caseOn x ((flagOf x)\<lparr>fg_ConfigField := []\<rparr>) = flagOf x"
      by (auto simp: caseOn_def flagOf_def)
    moreover have "fold caseOn ys (flagOf x) = flagOf x"
      using Cons.prems True by (intro caseOn_other) (auto simp: flagOf_def)
    ultimately show ?thesis using True by simp
  next
    case False
    then have "x \<in> set ys" using Cons.prems by simp
    then have "x_name x \<in> set (map x_name ys)" by simp
    then have "x_name x \<noteq> x_name y" using Cons.prems by auto
    then have "caseOn y ((flagOf x)\<lparr>fg_ConfigField := []\<rparr>) = (flagOf x)\<lparr>fg_ConfigField := []\<rparr>"
      by (auto simp: caseOn_def flagOf_def)
    with Cons False show ?thesis by simp
  qed
qed simp

lemma flagVisit_step: "distinct (map x_name xs) \<Longrightarrow>
   collectFlagFieldMapping (flagVisit xs) (flagsOf xs) = map (\<lambda>x. (x_var x, flagOf x)) xs"
  using caseOn_own [of xs]
  by (simp add: collectFlagFieldMapping_def flagVisit_def switchMapping_def flagCases flagsOf_def)

lemma collectDefaults_other: "ls \<noteq> [Ident ''cfg''] \<Longrightarrow> collectDefaults (AssignStmt ls t rs) i = i"
proof (cases "\<exists>x. ls = [Ident x]")
  case True
  moreover assume "ls \<noteq> [Ident ''cfg'']"
  ultimately obtain x where "ls = [Ident x]" "x \<noteq> ''cfg''" by blast
  then show ?thesis
    by (simp add: collectDefaults_def split: asgtok.split list.split node.split option.split)
next
  case False
  then show ?thesis
    by (cases ls; cases "hd ls"; cases "tl ls") (simp_all add: collectDefaults_def)
qed

lemma neutral_step: "neutral st \<Longrightarrow> loadConfigStmt st mi = mi \<and> declNames st = []"
proof (cases st)
  case (AssignStmt ls t rs)
  moreover assume "neutral st"
  ultimately have "ls \<noteq> [Ident ''cfg'']" by (auto simp: neutral_def)
  then show ?thesis
    by (cases mi) (simp add: AssignStmt loadConfigStmt_def declNames_def collectDefaults_other)
next
  case (ExprStmt x)
  moreover assume "neutral st"
  ultimately have "collectFlagFieldMapping st m = m" for m
    by (simp add: neutral_def collectFlagFieldMapping_def split: node.splits list.split option.split)
  with ExprStmt show ?thesis
    by (cases mi) (simp add: loadConfigStmt_def declNames_def)
qed (simp_all add: neutral_def loadConfigStmt_def declNames_def)

lemma neutral_all: "list_all neutral sts \<Longrightarrow> fold loadConfigStmt sts mi = mi \<and> concat (map declNames sts) = []"
  by (induction sts arbitrary: mi) (auto simp: neutral_step)

definition is_default :: "node \<Rightarrow> bool" where
  "is_default st \<longleftrightarrow> (case st of AssignStmt ls t rs \<Rightarrow> True | _ \<Rightarrow> False)"

lemma addFlags:
  assumes "distinct (map x_var all)" "set xs \<subseteq> set all" "list_all (\<lambda>x. x_name x \<noteq> []) xs"
  shows "in_Flags (fold (addFlag (map (\<lambda>x. (x_var x, flagOf x)) all)) (map x_var xs) info) = in_Flags info @ map flagOf xs"
  using assms(2,3)
proof (induction xs arbitrary: info)
  case (Cons x xs)
  have "map_of (map (\<lambda>x. (x_var x, flagOf x)) all) (x_var x) = Some (flagOf x)"
    using assms(1) Cons.prems by (intro map_of_is_SomeI) (auto simp: comp_def)
  then have "in_Flags (addFlag (map (\<lambda>x. (x_var x, flagOf x)) all) (x_var x) info) = in_Flags info @ [flagOf x]"
    using Cons.prems by (simp add: addFlag_def Let_def flagOf_def)
  with Cons show ?case by simp
qed simp

lemma fold_keeps: "(\<And>x i. f (g x i) = f i) \<Longrightarrow> f (fold g xs i) = f i"
  by (induction xs arbitrary: i) simp_all

lemma structs_keep: "in_Flags (parseStructs decls info) = in_Flags info"
  unfolding parseStructs_def
  by (rule fold_keeps) (auto simp: addStruct_def split: node.split gentok.split intro!: fold_keeps)

lemma file_keeps: "in_Flags (parseApplyFileConfig decls info) = in_Flags info"
  by (auto simp: parseApplyFileConfig_def fileStmt_def Let_def split: option.split intro!: fold_keeps)

lemma env_keeps: "in_Flags (parseApplyEnvConfig decls info) = in_Flags info"
  by (auto simp: parseApplyEnvConfig_def envStmt_def Let_def split: option.split node.split intro!: fold_keeps)


text \<open>
  \<open>loadConfig\<close> of \<open>config.go\<close> in this shape: its flag declarations and visitor in full, the other
  statements by their kind.
\<close>

abbreviation assignCase :: "string \<Rightarrow> string \<Rightarrow> node list option" where
  "assignCase f v \<equiv> Some [AssignStmt [SelectorExpr (Ident ''cfg'') f] AssignTok [StarExpr (Ident v)]]"

abbreviation splitCase :: "string \<Rightarrow> string \<Rightarrow> node list option" where
  "splitCase f v \<equiv> Some [AssignStmt [SelectorExpr (Ident ''cfg'') f] AssignTok
     [CallExpr (Ident ''splitAndTrim'') [StarExpr (Ident v), strNode '','']]]"

abbreviation durationCase :: "string \<Rightarrow> string \<Rightarrow> node option \<Rightarrow> node list option" where
  "durationCase f v els \<equiv> Some [IfStmt
     (Some (AssignStmt [Ident ''d'', Ident ''err''] DefineTok
       [CallExpr (SelectorExpr (Ident ''time'') ''ParseDuration'') [StarExpr (Ident v)]]))
     (BinaryExpr (Ident ''err'') ''=='' (Ident ''nil''))
     [AssignStmt [SelectorExpr (Ident ''cfg'') f] AssignTok [Ident ''d'']] els]"

abbreviation flagRow :: "string \<Rightarrow> string \<Rightarrow> string \<Rightarrow> node \<Rightarrow> string \<Rightarrow> node list option \<Rightarrow> flagSrc" where
  "flagRow v m n d u c \<equiv> \<lparr>x_var = v, x_method = m, x_name = n, x_default = d, x_usage = u, x_case = c\<rparr>"

definition configFlags :: "flagSrc list" where
  "configFlags = [
     flagRow ''configPath'' ''String'' ''config'' (CallExpr (SelectorExpr (Ident ''os'') ''Getenv'') [strNode ''OVN_NETWORK_CONFIG''])
       ''Path to YAML config file''
       None,
     flagRow ''showVersion'' ''Bool'' ''version'' (Ident ''false'')
       ''Print version and exit''
       None,
     flagRow ''fOVNSB'' ''String'' ''ovn-sb-remote'' (strNode [])
       ''OVN Southbound DB remote, comma-separated for cluster''
       (assignCase ''OVNSBRemote'' ''fOVNSB''),
     flagRow ''fOVNNB'' ''String'' ''ovn-nb-remote'' (strNode [])
       ''OVN Northbound DB remote, comma-separated for cluster''
       (assignCase ''OVNNBRemote'' ''fOVNNB''),
     flagRow ''fBridge'' ''String'' ''bridge-dev'' (strNode [])
       ''Provider bridge device for kernel routes''
       (assignCase ''BridgeDev'' ''fBridge''),
     flagRow ''fVRF'' ''String'' ''vrf-name'' (strNode [])
       ''VRF name for FRR routes''
       (assignCase ''VRFName'' ''fVRF''),
     flagRow ''fNexthop'' ''String'' ''veth-nexthop'' (strNode [])
       ''Nexthop IP for FRR static routes in the VRF''
       (assignCase ''VethNexthop'' ''fNexthop''),
     flagRow ''fCIDR'' ''String'' ''network-cidr'' (strNode [])
       ''Filter FIPs by CIDRs (comma-separated, e.g. 10.0.0.0/24,172.16.0.0/12), empty = all''
       (splitCase ''NetworkCIDRs'' ''fCIDR''),
     flagRow ''fGWPort'' ''String'' ''gateway-port'' (strNode [])
       ''Chassisredirect port filter; empty = track all routers automatically''
       (assignCase ''GatewayPort'' ''fGWPort''),
     flagRow ''fTableID'' ''Int'' ''route-table-id'' (BasicLit False ''0'')
       ''Routing table ID for FIP routes (1-252); 0 = main table''
       (assignCase ''RouteTableID'' ''fTableID''),
     flagRow ''fBridgeIP'' ''String'' ''bridge-ip'' (strNode [])
       ''IP to add to bridge device for ARP resolution (default: 169.254.169.254)''
       (assignCase ''BridgeIP'' ''fBridgeIP''),
     flagRow ''fOVSWrapper'' ''String'' ''ovs-wrapper'' (strNode [])
       (''Command prefix for ovs-vsctl/ovs-ofctl (e.g. '' @ [CHR 0x27] @ ''docker exec openvswitch_vswitchd'' @ [CHR 0x27] @ '')'')
       (assignCase ''OVSWrapper'' ''fOVSWrapper''),
     flagRow ''fInterval'' ''String'' ''reconcile-interval'' (strNode [])
       ''Full reconciliation interval (e.g. 60s, 5m)''
       (durationCase ''ReconcileInterval'' ''fInterval'' None),
     flagRow ''fLogLevel'' ''String'' ''log-level'' (strNode [])
       ''Log level (debug, info, warn, error)''
       (assignCase ''LogLevel'' ''fLogLevel''),
     flagRow ''fDryRun'' ''Bool'' ''dry-run'' (Ident ''false'')
       ''Dry-run mode: connect and reconcile but only log what would be done''
       (assignCase ''DryRun'' ''fDryRun''),
     flagRow ''fCleanupOnShutdown'' ''Bool'' ''cleanup-on-shutdown'' (Ident ''true'')
       ''Remove all managed routes on shutdown (SIGINT/SIGTERM)''
       (assignCase ''CleanupOnShutdown'' ''fCleanupOnShutdown''),
     flagRow ''fDrainOnShutdown'' ''Bool'' ''drain-on-shutdown'' (Ident ''true'')
       ''Drain HA gateways before shutdown by lowering Gateway_Chassis priority''
       (assignCase ''DrainOnShutdown'' ''fDrainOnShutdown''),
     flagRow ''fDrainTimeout'' ''String'' ''drain-timeout'' (strNode [])
       ''Max time to wait for gateway drain (e.g. 60s)''
       (durationCase ''DrainTimeout'' ''fDrainTimeout'' None),
     flagRow ''fDrainSettleDelay'' ''String'' ''drain-settle-delay'' (strNode [])
       ''Hold time after gateway drain before cleanup so the takeover chassis can finish coming up (e.g. 3s)''
       (durationCase ''DrainSettleDelay'' ''fDrainSettleDelay'' None),
     flagRow ''fFRRPrefixList'' ''String'' ''frr-prefix-list'' (strNode [])
       ''FRR prefix-list name to manage dynamically (default: ANNOUNCED-NETWORKS)''
       (assignCase ''FRRPrefixList'' ''fFRRPrefixList''),
     flagRow ''fStaleGrace'' ''String'' ''stale-chassis-grace-period'' (strNode [])
       ''Grace period before cleaning up entries from missing chassis (e.g. 5m, 0 to disable)''
       (durationCase ''StaleChassisGracePeriod'' ''fStaleGrace'' (Some (OtherNode []))),
     flagRow ''fVethLeakEnabled'' ''Bool'' ''veth-leak-enabled'' (Ident ''true'')
       ''Enable veth VRF route leaking''
       (assignCase ''VethLeakEnabled'' ''fVethLeakEnabled''),
     flagRow ''fVethProviderIP'' ''String'' ''veth-provider-ip'' (strNode [])
       ''IP of the veth-provider side (default: veth-nexthop + 1)''
       (assignCase ''VethProviderIP'' ''fVethProviderIP''),
     flagRow ''fVethLeakTableID'' ''Int'' ''veth-leak-table-id'' (BasicLit False ''200'')
       ''Routing table ID for veth leak default route (1-252)''
       (assignCase ''VethLeakTableID'' ''fVethLeakTableID''),
     flagRow ''fVethLeakRulePriority'' ''Int'' ''veth-leak-rule-priority'' (BasicLit False ''2000'')
       ''Policy rule priority for veth leak rules''
       (assignCase ''VethLeakRulePriority'' ''fVethLeakRulePriority''),
     flagRow ''fMetricsListen'' ''String'' ''metrics-listen'' (strNode [])
       ''Address for the Prometheus /metrics endpoint (e.g. 127.0.0.1:9273); empty = disabled''
       (assignCase ''MetricsListen'' ''fMetricsListen''),
     flagRow ''fPortForwardDev'' ''String'' ''port-forward-dev'' (strNode [])
       ''Loopback device for VIP addresses in VRF (default: loopback1)''
       (assignCase ''PortForwardDev'' ''fPortForwardDev''),
     flagRow ''fPortForwardTableID'' ''Int'' ''port-forward-table-id'' (BasicLit False ''201'')
       ''Routing table ID for DNAT return traffic (1-252)''
       (assignCase ''PortForwardTableID'' ''fPortForwardTableID''),
     flagRow ''fPortForwardL3mdevAccept'' ''Bool'' ''port-forward-l3mdev-accept'' (Ident ''false'')
       ''Set udp/tcp_l3mdev_accept=1 for cross-VRF same-host DNAT backends''
       (assignCase ''PortForwardL3mdevAccept'' ''fPortForwardL3mdevAccept''),
     flagRow ''fPortForwardCTZone'' ''Int'' ''port-forward-ct-zone'' (BasicLit False ''64000'')
       ''Conntrack zone for DNAT flows (must not collide with OVN zones, 1-65535)''
       (assignCase ''PortForwardCTZone'' ''fPortForwardCTZone'')]"

definition ifStmt :: node where
  "ifStmt = IfStmt None (Ident ''cond'') [] None"

definition configTree :: "node list" where
  "configTree = [FuncDecl False ''loadConfig'' (OtherNode []) (Some (loadConfigBody configFlags
     (AssignStmt [Ident ''cfg''] DefineTok [CompositeLit (Some (Ident ''Config''))
        [KeyValueExpr (Ident ''BridgeDev'') (strNode ''br-ex''), KeyValueExpr (Ident ''DryRun'') (Ident ''false'')]])
     [AssignStmt [Ident ''fs''] DefineTok [CallExpr (SelectorExpr (Ident ''flag'') ''NewFlagSet'') []]]
     [ifStmt, ifStmt] [ifStmt, ExprStmt (CallExpr (Ident ''applyEnvConfig'') [UnaryExpr ''&'' (Ident ''cfg'')])]
     [ifStmt, ifStmt, OtherNode [Ident ''cfg'', Ident ''nil'']]))]"

fun kindWord :: "flagval \<Rightarrow> string" where
  "kindWord (FStr s) = ''string''"
| "kindWord (FInt i) = ''int''"
| "kindWord (FBool b) = ''bool''"


end
